(* ===== verification/Prelude.thy ===== *)
theory Prelude
  imports Main "HOL-Library.AList" "HOL-Library.Word" "HOL-Library.Multiset"
    "HOL-Library.List_Lexorder" "HOL-Library.Sublist"
begin

text \<open>
  What every other theory of the development shares: bytes and byte strings, the outcome of a Go
  call (a value, an error, or a panic), state-passing actions with the combinators that translate
  Go's control flow, Go maps as association lists, and the relational frame calculus
  (\<open>within\<close>) with which the components prove what an operation leaves alone.
\<close>

section \<open>Bytes and outcomes\<close>

type_synonym byte = "8 word"
type_synonym bytes = "byte list"

text \<open>The error values of the repository, and the errors its libraries hand back.\<close>

datatype error =
    ErrUnexpectedLength
  | ErrEOF
  | ErrDataFormat
  | ErrNoSuchPeer
  | ErrIdFormat
  | ErrCreateDevice
  | ErrUnexpectedMessageType
  | ErrConnectionClosed
  | ErrAlreadyObserving
  | ErrSyntax
  | ErrRange
  | ErrExternal string

text \<open>
  A Go function of type \<open>func(...) (T, error)\<close> returns a value, returns an error, or panics.
  A panic unwinds through every caller, an error only goes as far as the caller hands it on.
\<close>

datatype 'a result = Ok 'a | Err error | Panic

section \<open>Actions\<close>

type_synonym ('w, 'a) act = "'w \<Rightarrow> 'a result \<times> 'w"

named_theorems act_simps \<open>equations that run an action on a state\<close>

definition return :: "'a \<Rightarrow> ('w, 'a) act" where
  [act_simps]: "return a w = (Ok a, w)"

definition raise :: "error \<Rightarrow> ('w, 'a) act" where
  [act_simps]: "raise e w = (Err e, w)"

definition panic :: "('w, 'a) act" where
  [act_simps]: "panic w = (Panic, w)"

text \<open>A pure call inside an action.\<close>

definition pure :: "'a result \<Rightarrow> ('w, 'a) act" where
  [act_simps]: "pure r w = (r, w)"

text \<open>\<open>x, err := m(); if err != nil { return err }; f(x)\<close>\<close>

definition bind :: "('w, 'a) act \<Rightarrow> ('a \<Rightarrow> ('w, 'b) act) \<Rightarrow> ('w, 'b) act" where
  [act_simps]: "bind m f w =
     (case m w of
        (Ok a, w') \<Rightarrow> f a w'
      | (Err e, w') \<Rightarrow> (Err e, w')
      | (Panic, w') \<Rightarrow> (Panic, w'))"

text \<open>\<open>x, err := m(); if err != nil { h } else { k(x) }\<close>\<close>

definition if_err :: "('w, 'a) act \<Rightarrow> (error \<Rightarrow> ('w, 'b) act) \<Rightarrow> ('a \<Rightarrow> ('w, 'b) act) \<Rightarrow> ('w, 'b) act" where
  [act_simps]: "if_err m h k w =
     (case m w of
        (Ok a, w') \<Rightarrow> k a w'
      | (Err e, w') \<Rightarrow> h e w'
      | (Panic, w') \<Rightarrow> (Panic, w'))"

text \<open>A call whose error is dropped.\<close>

definition ignore :: "('w, 'a) act \<Rightarrow> ('w, unit) act" where
  "ignore m = if_err m (\<lambda>_. return ()) (\<lambda>_. return ())"

text \<open>
  Both results of a Go call, for the code that looks at the value beside a non-nil error: every
  function of the repository returns the zero value \<open>z\<close> of its type with an error.
\<close>

definition both :: "'a \<Rightarrow> ('w, 'a) act \<Rightarrow> ('w, 'a \<times> error option) act" where
  "both z m = if_err m (\<lambda>e. return (z, Some e)) (\<lambda>a. return (a, None))"

definition gets :: "('w \<Rightarrow> 'a) \<Rightarrow> ('w, 'a) act" where
  [act_simps]: "gets f w = (Ok (f w), w)"

definition modify :: "('w \<Rightarrow> 'w) \<Rightarrow> ('w, unit) act" where
  [act_simps]: "modify f w = (Ok (), f w)"

text \<open>\<open>for _, x := range xs { f(x) }\<close>\<close>

fun foreach :: "'a list \<Rightarrow> ('a \<Rightarrow> ('w, unit) act) \<Rightarrow> ('w, unit) act" where
  "foreach [] f = return ()"
| "foreach (x # xs) f = bind (f x) (\<lambda>_. foreach xs f)"

lemma return_bind [simp]: "bind (return a) f = f a"
  by (rule ext) (simp add: act_simps)

lemma raise_bind [simp]: "bind (raise e) f = raise e"
  by (rule ext) (simp add: act_simps)

lemma pure_Ok [simp]: "pure (Ok a) = return a"
  by (rule ext) (simp add: act_simps)

lemma pure_Err [simp]: "pure (Err e) = raise e"
  by (rule ext) (simp add: act_simps)

lemma if_err_return [simp]: "if_err (return a) h k = k a"
  by (rule ext) (simp add: act_simps)

lemma if_err_raise [simp]: "if_err (raise e) h k = h e"
  by (rule ext) (simp add: act_simps)

lemma bind_assoc: "bind (bind m f) g = bind m (\<lambda>x. bind (f x) g)"
  by (rule ext) (simp add: bind_def split: prod.splits result.splits)

lemma bind_return [simp]: "bind m return = m"
  by (rule ext) (simp add: bind_def return_def split: prod.splits result.splits)

lemma bind_if_err: "if_err m raise k = bind m k"
  by (rule ext) (simp add: act_simps split: prod.splits result.splits)

lemma ignore_app [act_simps]:
  "ignore m w = (case m w of (Panic, w') \<Rightarrow> (Panic, w') | (_, w') \<Rightarrow> (Ok (), w'))"
  by (simp add: ignore_def if_err_def return_def split: prod.splits result.splits)

lemma both_app [act_simps]:
  "both z m w =
     (case m w of
        (Ok a, w') \<Rightarrow> (Ok (a, None), w')
      | (Err e, w') \<Rightarrow> (Ok (z, Some e), w')
      | (Panic, w') \<Rightarrow> (Panic, w'))"
  by (simp add: both_def if_err_def return_def split: prod.splits result.splits)

lemma foreach_append: "foreach (xs @ ys) f = bind (foreach xs f) (\<lambda>_. foreach ys f)"
  by (induction xs) (simp_all add: bind_assoc)

lemma foreach_map: "foreach (map g xs) f = foreach xs (\<lambda>x. f (g x))"
  by (induction xs) simp_all

text \<open>A loop in a loop runs over the pairs.\<close>

lemma foreach_product: "foreach xs (\<lambda>x. foreach ys (f x)) = foreach (List.product xs ys) (\<lambda>(x, y). f x y)"
  by (induction xs) (simp_all add: foreach_append foreach_map)

section \<open>Go maps\<close>

text \<open>
  A Go map is an association list with distinct keys: \<open>m[k] = v\<close> is \<open>AList.update k v m\<close>,
  \<open>delete(m, k)\<close> is \<open>AList.delete k m\<close>, \<open>len(m)\<close> is its length. The order of the list means
  nothing: a \<open>range\<close> loop visits the keys in an order of the runtime's choice, a parameter of the
  definitions that loop over a map.
\<close>

type_synonym ('k, 'v) gomap = "('k \<times> 'v) list"

definition wf_map :: "('k, 'v) gomap \<Rightarrow> bool" where
  "wf_map m \<longleftrightarrow> distinct (map fst m)"

definition keys :: "('k, 'v) gomap \<Rightarrow> 'k list" where
  "keys m = map fst m"

text \<open>\<open>m[k]\<close> for a map to slices: a missing key reads as nil.\<close>

definition index_nil :: "('k, 'v list) gomap \<Rightarrow> 'k \<Rightarrow> 'v list" where
  "index_nil m k = (case map_of m k of None \<Rightarrow> [] | Some v \<Rightarrow> v)"

text \<open>The pairs a range loop visits, for the order \<open>ks\<close> of the keys.\<close>

definition in_order :: "('k, 'v) gomap \<Rightarrow> 'k list \<Rightarrow> ('k \<times> 'v) list" where
  "in_order m ks = List.map_filter (\<lambda>k. map_option (Pair k) (map_of m k)) ks"

lemma wf_map_Nil [simp]: "wf_map []"
  by (simp add: wf_map_def)

lemma wf_map_update [simp]: "wf_map m \<Longrightarrow> wf_map (AList.update k v m)"
  unfolding wf_map_def by (rule distinct_update)

lemma wf_map_delete [simp]: "wf_map m \<Longrightarrow> wf_map (AList.delete k m)"
  unfolding wf_map_def by (rule distinct_delete)

lemma wf_map_filter: "wf_map m \<Longrightarrow> wf_map (filter P m)"
  unfolding wf_map_def by (rule distinct_map_filter)

lemma keys_set: "set (keys m) = dom (map_of m)"
  by (simp add: keys_def dom_map_of_conv_image_fst)

lemma map_of_iff_mem: "wf_map m \<Longrightarrow> map_of m k = Some v \<longleftrightarrow> (k, v) \<in> set m"
  by (simp add: wf_map_def)

lemma map_of_filter_eq:
  "wf_map m \<Longrightarrow> map_of (filter P m) k = (case map_of m k of None \<Rightarrow> None | Some v \<Rightarrow> if P (k, v) then Some v else None)"
proof (induction m)
  case (Cons x m)
  then have "\<And>v. (fst x, v) \<notin> set m"
    by (auto simp: wf_map_def image_iff)
  then have "map_of m (fst x) = None"
    by (meson map_of_SomeD option.exhaust)
  with Cons show ?case
    by (cases x) (auto simp: wf_map_def split: option.splits)
qed simp

lemma in_order_Nil [simp]: "in_order m [] = []"
  by (simp add: in_order_def map_filter_simps)

lemma set_in_order: "set (in_order m ks) = {(k, v). k \<in> set ks \<and> map_of m k = Some v}"
proof (induction ks)
  case (Cons k ks)
  then show ?case
    by (cases "map_of m k") (auto simp: in_order_def map_filter_simps)
qed simp

lemma in_order_keys: "set ks \<subseteq> dom (map_of m) \<Longrightarrow> map fst (in_order m ks) = ks"
  by (induction ks) (auto simp: in_order_def map_filter_simps)

lemma wf_in_order:
  assumes "wf_map m" and "mset ks = mset (keys m)"
  shows "wf_map (in_order m ks)" and "map_of (in_order m ks) = map_of m"
proof -
  have ks: "distinct ks" "set ks = dom (map_of m)"
    using assms mset_eq_imp_distinct_iff [OF assms(2)] mset_eq_setD [OF assms(2)]
    by (auto simp: wf_map_def keys_set) (simp add: keys_def)
  then show wf: "wf_map (in_order m ks)"
    by (simp add: wf_map_def in_order_keys)
  show "map_of (in_order m ks) = map_of m"
  proof
    fix k
    have "map_of (in_order m ks) k = Some v \<longleftrightarrow> map_of m k = Some v" for v
      using map_of_iff_mem [OF wf, of k v] ks by (auto simp: set_in_order)
    then show "map_of (in_order m ks) k = map_of m k"
      by (metis option.exhaust)
  qed
qed

section \<open>What an action does to the state: frames\<close>

text \<open>
  \<open>within R m\<close>: whatever the outcome, the state after \<open>m\<close> is \<open>R\<close>-related to the state
  before. For a preorder \<open>R\<close> the property passes through every combinator, so that a frame
  (a field that no step writes, a version that never drops) is proved operation by operation.
\<close>

definition within :: "('w \<Rightarrow> 'w \<Rightarrow> bool) \<Rightarrow> ('w, 'a) act \<Rightarrow> bool" where
  "within R m \<longleftrightarrow> (\<forall>w. R w (snd (m w)))"

lemma withinI: "(\<And>w. R w (snd (m w))) \<Longrightarrow> within R m"
  by (simp add: within_def)

lemma withinD: "within R m \<Longrightarrow> m w = (r, w') \<Longrightarrow> R w w'"
  unfolding within_def by (metis snd_conv)

locale state_order =
  fixes R :: "'w \<Rightarrow> 'w \<Rightarrow> bool"
  assumes order_refl: "R w w"
    and order_trans: "R u v \<Longrightarrow> R v w \<Longrightarrow> R u w"
begin

lemma within_return: "within R (return a)"
  by (simp add: within_def return_def order_refl)

lemma within_raise: "within R (raise e)"
  by (simp add: within_def raise_def order_refl)

lemma within_panic: "within R panic"
  by (simp add: within_def panic_def order_refl)

lemma within_pure: "within R (pure r)"
  by (simp add: within_def pure_def order_refl)

lemma within_gets: "within R (gets f)"
  by (simp add: within_def gets_def order_refl)

lemma within_bind:
  assumes "within R m" and "\<And>a. within R (f a)"
  shows "within R (bind m f)"
proof (rule withinI)
  fix w
  obtain r w' where m: "m w = (r, w')" by (cases "m w")
  have "R w w'" by (rule withinD [OF assms(1) m])
  then show "R w (snd (bind m f w))"
    using assms(2) by (cases r) (auto simp: bind_def m within_def intro: order_trans)
qed

lemma within_if_err:
  assumes "within R m" and "\<And>e. within R (h e)" and "\<And>a. within R (k a)"
  shows "within R (if_err m h k)"
proof (rule withinI)
  fix w
  obtain r w' where m: "m w = (r, w')" by (cases "m w")
  have "R w w'" by (rule withinD [OF assms(1) m])
  then show "R w (snd (if_err m h k w))"
    using assms(2,3) by (cases r) (auto simp: if_err_def m within_def intro: order_trans)
qed

lemma within_ignore: "within R m \<Longrightarrow> within R (ignore m)"
  unfolding ignore_def by (rule within_if_err) (auto intro: within_return)

lemma within_both: "within R m \<Longrightarrow> within R (both z m)"
  unfolding both_def by (rule within_if_err) (auto intro: within_return)

lemma within_foreach: "(\<And>x. within R (f x)) \<Longrightarrow> within R (foreach xs f)"
  by (induction xs) (auto intro: within_return within_bind)

lemma within_If: "(c \<Longrightarrow> within R m) \<Longrightarrow> (\<not> c \<Longrightarrow> within R n) \<Longrightarrow> within R (if c then m else n)"
  by simp

lemma within_option:
  "within R m \<Longrightarrow> (\<And>a. within R (k a)) \<Longrightarrow> within R (case x of None \<Rightarrow> m | Some a \<Rightarrow> k a)"
  by (simp split: option.split)

lemma within_prod: "(\<And>a b. within R (k a b)) \<Longrightarrow> within R (case x of (a, b) \<Rightarrow> k a b)"
  by (simp split: prod.split)

lemmas within_rules = within_return within_raise within_panic within_pure within_gets
  within_bind within_if_err within_ignore within_both within_foreach within_If within_option
  within_prod

end

text \<open>Two frames that hold of any state: a projection that stays as it is.\<close>

abbreviation (input) same :: "('w \<Rightarrow> 'v) \<Rightarrow> 'w \<Rightarrow> 'w \<Rightarrow> bool" where
  "same g \<equiv> (\<lambda>w w'. g w' = g w)"

interpretation same: state_order "same g" for g :: "'w \<Rightarrow> 'v"
  by unfold_locales simp_all

interpretation conj: state_order "\<lambda>w w'. I w \<longrightarrow> I w'" for I :: "'w \<Rightarrow> bool"
  by unfold_locales simp_all

section \<open>What an action returns: weakest preconditions\<close>

text \<open>
  \<open>wp m Q w\<close>: run on \<open>w\<close>, the action ends in an outcome and a state for which \<open>Q\<close> holds, errors
  and panics included. The equations in \<open>wp_simps\<close> push it through the combinators; what a
  component promises of an operation is a rule with \<open>wp\<close> of that operation.
\<close>

named_theorems wp_simps \<open>weakest preconditions of the combinators\<close>

definition wp :: "('w, 'a) act \<Rightarrow> ('a result \<Rightarrow> 'w \<Rightarrow> bool) \<Rightarrow> 'w \<Rightarrow> bool" where
  "wp m Q w = (case m w of (r, w') \<Rightarrow> Q r w')"

text \<open>How a post-condition goes on after a step: with the value, or past an error or a panic.\<close>

definition after :: "('a \<Rightarrow> 'w \<Rightarrow> bool) \<Rightarrow> ('b result \<Rightarrow> 'w \<Rightarrow> bool) \<Rightarrow> 'a result \<Rightarrow> 'w \<Rightarrow> bool" where
  "after K Q r w = (case r of Ok a \<Rightarrow> K a w | Err e \<Rightarrow> Q (Err e) w | Panic \<Rightarrow> Q Panic w)"

lemma after_simps [simp]:
  "after K Q (Ok a) w = K a w" "after K Q (Err e) w = Q (Err e) w" "after K Q Panic w = Q Panic w"
  by (simp_all add: after_def)

lemma wpI: "(\<And>r w'. m w = (r, w') \<Longrightarrow> Q r w') \<Longrightarrow> wp m Q w"
  by (cases "m w") (simp add: wp_def)

lemma wpD: "wp m Q w \<Longrightarrow> m w = (r, w') \<Longrightarrow> Q r w'"
  by (simp add: wp_def)

lemma wp_iff: "wp m Q w \<longleftrightarrow> Q (fst (m w)) (snd (m w))"
  by (simp add: wp_def case_prod_unfold)

lemma wp_weaken: "wp m P w \<Longrightarrow> (\<And>r w'. P r w' \<Longrightarrow> Q r w') \<Longrightarrow> wp m Q w"
  by (auto simp: wp_def)

lemma wp_both_hold: "wp m P w \<Longrightarrow> wp m Q w \<Longrightarrow> wp m (\<lambda>r w'. P r w' \<and> Q r w') w"
  by (auto simp: wp_def)

lemma wp_within: "within R m \<Longrightarrow> wp m (\<lambda>_. R w) w"
  by (simp add: within_def wp_iff)

lemma wp_return [wp_simps]: "wp (return a) Q w = Q (Ok a) w"
  by (simp add: wp_def return_def)

lemma wp_raise [wp_simps]: "wp (raise e) Q w = Q (Err e) w"
  by (simp add: wp_def raise_def)

lemma wp_panic [wp_simps]: "wp panic Q w = Q Panic w"
  by (simp add: wp_def panic_def)

lemma wp_pure [wp_simps]: "wp (pure r) Q w = Q r w"
  by (simp add: wp_def pure_def)

lemma wp_bind [wp_simps]: "wp (bind m f) Q w = wp m (after (\<lambda>a. wp (f a) Q) Q) w"
  by (simp add: wp_def bind_def split: prod.split result.split)

lemma wp_if_err [wp_simps]:
  "wp (if_err m h k) Q w =
   wp m (\<lambda>r w'. case r of Ok a \<Rightarrow> wp (k a) Q w' | Err e \<Rightarrow> wp (h e) Q w' | Panic \<Rightarrow> Q Panic w') w"
  by (simp add: wp_def if_err_def split: prod.split result.split)

lemma wp_ignore [wp_simps]:
  "wp (ignore m) Q w = wp m (\<lambda>r w'. if r = Panic then Q Panic w' else Q (Ok ()) w') w"
  by (simp add: wp_def ignore_app split: prod.split result.split)

lemma wp_both [wp_simps]:
  "wp (both z m) Q w =
   wp m (\<lambda>r w'. case r of Ok a \<Rightarrow> Q (Ok (a, None)) w' | Err e \<Rightarrow> Q (Ok (z, Some e)) w' | Panic \<Rightarrow> Q Panic w') w"
  by (simp add: wp_def both_app split: prod.split result.split)

lemma wp_modify [wp_simps]: "wp (modify f) Q w = Q (Ok ()) (f w)"
  by (simp add: wp_def modify_def)

lemma wp_If [wp_simps]: "wp (if c then m else n) Q w = (if c then wp m Q w else wp n Q w)"
  by simp

text \<open>A loop with an invariant.\<close>

lemma wp_foreach:
  assumes "I w"
    and "\<And>x w. x \<in> set xs \<Longrightarrow> I w \<Longrightarrow> wp (f x) (after (\<lambda>_. I) Q) w"
    and "\<And>w. I w \<Longrightarrow> Q (Ok ()) w"
  shows "wp (foreach xs f) Q w"
  using assms(1,2)
proof (induction xs arbitrary: w)
  case (Cons x xs)
  have rest: "wp (foreach xs f) Q v" if "I v" for v
    by (rule Cons.IH [OF that]) (simp add: Cons.prems(2))
  have "wp (f x) (after (\<lambda>_. I) Q) w" by (rule Cons.prems(2)) (simp_all add: Cons.prems(1))
  then have "wp (f x) (after (\<lambda>_. wp (foreach xs f) Q) Q) w"
    by (rule wp_weaken) (auto simp: after_def rest split: result.splits)
  then show ?case by (simp add: wp_simps)
qed (simp add: wp_simps assms(3))

section \<open>Actions that are silent about a view of the state\<close>

text \<open>
  From a state in the invariant, the action keeps the invariant and a view of the state, and does not
  panic.
\<close>

definition quiet :: "('w \<Rightarrow> bool) \<Rightarrow> ('w \<Rightarrow> 'v) \<Rightarrow> ('w, 'a) act \<Rightarrow> bool" where
  "quiet I view m \<longleftrightarrow> (\<forall>w. I w \<longrightarrow> wp m (\<lambda>r w'. I w' \<and> view w' = view w \<and> r \<noteq> Panic) w)"

lemma quietI:
  "(\<And>w. I w \<Longrightarrow> wp m (\<lambda>r w'. I w' \<and> view w' = view w \<and> r \<noteq> Panic) w) \<Longrightarrow> quiet I view m"
  by (simp add: quiet_def)

lemma quiet_wp:
  "quiet I view m \<Longrightarrow> I w \<Longrightarrow> wp m (\<lambda>r w'. I w' \<and> view w' = view w \<and> r \<noteq> Panic) w"
  by (simp add: quiet_def)

lemma quietD:
  "quiet I view m \<Longrightarrow> I w \<Longrightarrow> m w = (r, w') \<Longrightarrow> I w' \<and> view w' = view w \<and> r \<noteq> Panic"
  by (rule wpD [OF quiet_wp])

lemma quiet_return: "quiet I view (return a)"
  by (simp add: quiet_def wp_simps)

lemma quiet_raise: "quiet I view (raise e)"
  by (simp add: quiet_def wp_simps)

lemma quiet_pure: "r \<noteq> Panic \<Longrightarrow> quiet I view (pure r)"
  by (simp add: quiet_def wp_simps)

lemma quiet_bind:
  assumes "quiet I view m" and "\<And>a. quiet I view (f a)"
  shows "quiet I view (bind m f)"
proof (rule quietI)
  fix w assume "I w"
  with assms(1) have "wp m (\<lambda>r w'. I w' \<and> view w' = view w \<and> r \<noteq> Panic) w" by (rule quiet_wp)
  then show "wp (bind m f) (\<lambda>r w'. I w' \<and> view w' = view w \<and> r \<noteq> Panic) w"
    unfolding wp_bind
    by (rule wp_weaken)
      (auto simp: after_def split: result.split dest: quiet_wp [OF assms(2)] elim: wp_weaken)
qed

lemma quiet_if_err:
  assumes "quiet I view m" and "\<And>e. quiet I view (h e)" and "\<And>a. quiet I view (k a)"
  shows "quiet I view (if_err m h k)"
proof (rule quietI)
  fix w assume "I w"
  with assms(1) have "wp m (\<lambda>r w'. I w' \<and> view w' = view w \<and> r \<noteq> Panic) w" by (rule quiet_wp)
  then show "wp (if_err m h k) (\<lambda>r w'. I w' \<and> view w' = view w \<and> r \<noteq> Panic) w"
    unfolding wp_if_err
    by (rule wp_weaken)
      (auto split: result.split dest: quiet_wp [OF assms(2)] quiet_wp [OF assms(3)] elim: wp_weaken)
qed

lemma quiet_ignore: "quiet I view m \<Longrightarrow> quiet I view (ignore m)"
  unfolding ignore_def by (intro quiet_if_err quiet_return)

lemma quiet_both: "quiet I view m \<Longrightarrow> quiet I view (both z m)"
  unfolding both_def by (intro quiet_if_err quiet_return)

lemma quiet_foreach: "(\<And>x. quiet I view (f x)) \<Longrightarrow> quiet I view (foreach xs f)"
  by (induction xs) (auto intro: quiet_return quiet_bind)

lemma quiet_If:
  "(c \<Longrightarrow> quiet I view m) \<Longrightarrow> (\<not> c \<Longrightarrow> quiet I view n) \<Longrightarrow> quiet I view (if c then m else n)"
  by simp

lemma quiet_option:
  "quiet I view m \<Longrightarrow> (\<And>a. quiet I view (k a)) \<Longrightarrow> quiet I view (case x of None \<Rightarrow> m | Some a \<Rightarrow> k a)"
  by (simp split: option.split)

lemma quiet_prod: "(\<And>a b. quiet I view (k a b)) \<Longrightarrow> quiet I view (case x of (a, b) \<Rightarrow> k a b)"
  by (simp split: prod.split)

lemmas quiet_rules = quiet_return quiet_raise quiet_bind quiet_if_err quiet_ignore quiet_both
  quiet_foreach quiet_If quiet_option quiet_prod

text \<open>The rules to step over an action.\<close>

lemma quiet_wpI:
  "quiet I view m \<Longrightarrow> I w \<Longrightarrow> (\<And>r w'. I w' \<Longrightarrow> view w' = view w \<Longrightarrow> r \<noteq> Panic \<Longrightarrow> Q r w') \<Longrightarrow> wp m Q w"
  using quiet_wp [of I view m w] by (simp add: wp_iff)

lemma quiet_law_wpI:
  assumes "quiet I view m" and "I w" and "wp m (\<lambda>r _. A r) w"
    and "\<And>r w'. I w' \<Longrightarrow> view w' = view w \<Longrightarrow> r \<noteq> Panic \<Longrightarrow> A r \<Longrightarrow> Q r w'"
  shows "wp m Q w"
  using assms(4) [of "snd (m w)" "fst (m w)"] quiet_wp [OF assms(1,2)] assms(3)
  by (simp add: wp_iff)

lemma wp_seqI:
  assumes "wp m P w" and "\<And>a w'. P (Ok a) w' \<Longrightarrow> wp (f a) Q w'"
    and "\<And>e w'. P (Err e) w' \<Longrightarrow> Q (Err e) w'" and "\<And>w'. P Panic w' \<Longrightarrow> Q Panic w'"
  shows "wp (bind m f) Q w"
  unfolding wp_bind by (rule wp_weaken [OF assms(1)]) (auto simp: after_def assms(2-) split: result.split)

section \<open>Actions that never return an error\<close>

definition no_err :: "('w, 'a) act \<Rightarrow> bool" where
  "no_err m \<longleftrightarrow> (\<forall>w. fst (m w) \<notin> range Err)"

lemma no_err_return: "no_err (return a)"
  by (auto simp: no_err_def return_def)

lemma no_err_ignore: "no_err (ignore m)"
  by (auto simp: no_err_def ignore_app split: prod.split result.split)

lemma no_err_bind:
  assumes "no_err m" and "\<And>a. no_err (f a)"
  shows "no_err (bind m f)"
  unfolding no_err_def
proof (rule allI)
  fix w
  show "fst (bind m f w) \<notin> range Err"
    using assms by (cases "m w"; cases "fst (m w)") (auto simp: no_err_def bind_def dest: spec [of _ w])
qed

lemma no_err_if_err: "(\<And>e. no_err (h e)) \<Longrightarrow> (\<And>a. no_err (k a)) \<Longrightarrow> no_err (if_err m h k)"
  by (auto simp: no_err_def if_err_def split: prod.split result.split)

lemma no_err_foreach: "(\<And>x. no_err (f x)) \<Longrightarrow> no_err (foreach xs f)"
  by (induction xs) (auto intro: no_err_return no_err_bind)

lemma no_err_both: "no_err (both z m)"
  by (auto simp: no_err_def both_app split: prod.split result.split)

lemma no_err_If: "(c \<Longrightarrow> no_err m) \<Longrightarrow> (\<not> c \<Longrightarrow> no_err n) \<Longrightarrow> no_err (if c then m else n)"
  by simp

lemma no_err_option: "no_err m \<Longrightarrow> (\<And>a. no_err (k a)) \<Longrightarrow> no_err (case x of None \<Rightarrow> m | Some a \<Rightarrow> k a)"
  by (simp split: option.split)

lemma no_err_prod: "(\<And>a b. no_err (k a b)) \<Longrightarrow> no_err (case x of (a, b) \<Rightarrow> k a b)"
  by (simp split: prod.split)

lemmas no_err_rules = no_err_return no_err_ignore no_err_bind no_err_if_err no_err_foreach
  no_err_both no_err_If no_err_option no_err_prod

lemma no_err_wp:
  "no_err m \<Longrightarrow> wp m (\<lambda>r w'. Q w' \<and> r \<noteq> Panic) w \<Longrightarrow> wp m (\<lambda>r w'. r \<in> range Ok \<and> Q w') w"
  by (cases "fst (m w)") (auto simp: no_err_def wp_iff dest: spec [of _ w])

lemma no_err_Ok:
  assumes "no_err m" and "wp m (\<lambda>r w'. r \<noteq> Panic \<and> (Q w' \<or> R w' \<and> (\<exists>e. r = Err e))) w"
  shows "wp m (\<lambda>r w'. r \<in> range Ok \<and> Q w') w"
proof -
  have "fst (m w) \<notin> range Err" using assms(1) by (simp add: no_err_def)
  then show ?thesis using assms(2) by (cases "fst (m w)") (auto simp: wp_iff)
qed

end
