(* ===== verification/Byte_Slices.thy ===== *)
theory Byte_Slices
  imports Prelude
begin

unbundle bit_operations_syntax

text \<open>
  \<open>main/entity/utils/byteslice.go\<close>, the constants of \<open>main/entity/unit\<close>, and what the
  repository uses of \<open>encoding/binary\<close> and of \<open>bytes.Buffer\<close>: big-endian 64-bit integers, and a
  reader as the list of the bytes it has left. Go's \<open>int\<close> and \<open>int64\<close> are \<open>64 word\<close> read with
  \<open>sint\<close> (64-bit builds), so a conversion between them is the identity.
\<close>

section \<open>Constants of the unit package\<close>

type_synonym int64 = "64 word"

definition MaxInt :: int64 where "MaxInt = 0x7FFFFFFFFFFFFFFF"
definition MinInt :: int64 where "MinInt = - MaxInt - 1"

definition KiB :: int where "KiB = 2 ^ 10"
definition MiB :: int where "MiB = 2 ^ 20"

lemma sint_MaxInt: "sint MaxInt = 2 ^ 63 - 1"
  by (simp add: MaxInt_def)

lemma sint_MinInt: "sint MinInt = - (2 ^ 63)"
  by (simp add: MinInt_def MaxInt_def)

section \<open>Strings\<close>

text \<open>A Go string is its bytes: a \<open>char\<close> of HOL is one byte.\<close>

definition StringToBytes :: "string \<Rightarrow> bytes" where
  "StringToBytes value = map of_char value"

definition BytesToString :: "bytes \<Rightarrow> string" where
  "BytesToString data = (if length data = 0 then [] else map (\<lambda>b. char_of (unat b)) data)"

lemma unat_of_char [simp]: "unat (of_char c :: byte) = of_char c"
proof -
  have "of_char c mod 256 < (256 :: nat)"
    by (rule mod_less_divisor) simp
  then have "of_char c < (2 ^ LENGTH(8) :: nat)"
    by simp
  moreover have "(of_nat (of_char c) :: byte) = of_char c"
    by (rule of_nat_of_char)
  ultimately show ?thesis
    by (rule of_nat_inverse [rotated])
qed

lemma of_char_char_of_unat [simp]: "of_char (char_of (unat b)) = (b :: byte)"
proof -
  have "of_char (char_of (unat b) :: char) = (of_nat (of_char (char_of (unat b) :: char)) :: byte)"
    by (simp only: of_nat_of_char)
  also have "\<dots> = of_nat (unat b mod 256)"
    by simp
  also have "unat b mod 256 = unat b"
    using unsigned_less [of b, where ?'a = nat] by simp
  finally show ?thesis by simp
qed

lemma BytesToString_StringToBytes [simp]: "BytesToString (StringToBytes s) = s"
  by (simp add: BytesToString_def StringToBytes_def comp_def)

lemma StringToBytes_BytesToString [simp]: "StringToBytes (BytesToString bs) = bs"
  by (simp add: BytesToString_def StringToBytes_def comp_def)

section \<open>Big-endian integers\<close>

definition PutUint64 :: "int64 \<Rightarrow> bytes" where
  "PutUint64 v = map (\<lambda>i. ucast (drop_bit (8 * i) v)) [7, 6, 5, 4, 3, 2, 1, 0]"

text \<open>\<open>binary.BigEndian.Uint64\<close> reads the first eight bytes and panics when there are fewer.\<close>

fun Uint64 :: "bytes \<Rightarrow> int64 result" where
  "Uint64 (b0 # b1 # b2 # b3 # b4 # b5 # b6 # b7 # _) =
     Ok (foldl (\<lambda>acc b. push_bit 8 acc OR ucast b) 0 [b0, b1, b2, b3, b4, b5, b6, b7])"
| "Uint64 _ = Panic"

section \<open>The conversions of byteslice.go\<close>

definition BoolToBytes :: "bool \<Rightarrow> bytes" where
  "BoolToBytes value = (if value then [1] else [0])"

definition ByteToBytes :: "byte \<Rightarrow> bytes" where
  "ByteToBytes value = [value]"

definition Int64ToBytes :: "int64 \<Rightarrow> bytes" where
  "Int64ToBytes value = PutUint64 value"

definition BytesToBool :: "bytes \<Rightarrow> bool result" where
  "BytesToBool data =
     (if length data = 0 then Ok False
      else case Uint64 data of Ok v \<Rightarrow> Ok (v \<noteq> 0) | Err e \<Rightarrow> Err e | Panic \<Rightarrow> Panic)"

definition BytesToByte :: "bytes \<Rightarrow> byte" where
  "BytesToByte data = (if length data = 0 then 0 else data ! (length data - 1))"

definition BytesToInt64 :: "bytes \<Rightarrow> int64 result" where
  "BytesToInt64 data = (if length data = 0 then Ok 0 else Uint64 data)"

lemma length_PutUint64 [simp]: "length (PutUint64 v) = 8"
  by (simp add: PutUint64_def)

lemma length_Int64ToBytes [simp]: "length (Int64ToBytes v) = 8"
  by (simp add: Int64ToBytes_def)

lemma Uint64_Panic_iff: "Uint64 bs = Panic \<longleftrightarrow> length bs < 8"
  by (rule Uint64.cases [of bs]) auto

lemma shift_in_byte:
  "push_bit 8 (drop_bit (n + 8) v) OR ucast (ucast (drop_bit n v) :: byte) = drop_bit n (v :: int64)"
  by (rule bit_word_eqI) (auto simp: bit_simps)

lemma Uint64_PutUint64 [simp]: "Uint64 (PutUint64 v @ rest) = Ok v"
proof -
  have top: "push_bit 8 0 OR ucast (ucast (drop_bit 56 v) :: byte) = drop_bit 56 v"
    by (rule bit_word_eqI) (auto simp: bit_simps dest: bit_imp_le_length)
  show ?thesis
    using shift_in_byte [of 48 v] shift_in_byte [of 40 v] shift_in_byte [of 32 v]
      shift_in_byte [of 24 v] shift_in_byte [of 16 v] shift_in_byte [of 8 v]
      shift_in_byte [of 0 v] top
    by (simp add: PutUint64_def)
qed

lemma Uint64_not_Err [simp]: "Uint64 bs \<noteq> Err e"
  by (rule Uint64.cases [of bs]) auto

lemma BytesToInt64_Int64ToBytes [simp]: "BytesToInt64 (Int64ToBytes v) = Ok v"
proof -
  have "Uint64 (PutUint64 v @ []) = Ok v" by (rule Uint64_PutUint64)
  moreover have "PutUint64 v \<noteq> []" by (simp add: PutUint64_def)
  ultimately show ?thesis by (simp add: BytesToInt64_def Int64ToBytes_def)
qed

lemma BytesToByte_ByteToBytes [simp]: "BytesToByte (ByteToBytes b) = b"
  by (simp add: BytesToByte_def ByteToBytes_def)

lemma BytesToInt64_not_Err [simp]: "BytesToInt64 bs \<noteq> Err e"
  by (simp add: BytesToInt64_def)

lemma BytesToInt64_Panic_iff: "BytesToInt64 bs = Panic \<longleftrightarrow> bs \<noteq> [] \<and> length bs < 8"
  by (auto simp: BytesToInt64_def Uint64_Panic_iff)

section \<open>bytes.Buffer as a reader\<close>

text \<open>
  \<open>Next(n)\<close> hands out the next \<open>n\<close> bytes, or what is left; \<open>Next(unit.MaxInt)\<close> is all that is
  left, since the length of a slice is an \<open>int\<close>. \<open>ReadByte\<close> fails with \<open>io.EOF\<close> at the end.
\<close>

definition Next :: "nat \<Rightarrow> bytes \<Rightarrow> bytes \<times> bytes" where
  "Next n r = (take n r, drop n r)"

definition NextAll :: "bytes \<Rightarrow> bytes \<times> bytes" where
  "NextAll r = (r, [])"

definition ReadByte :: "bytes \<Rightarrow> byte result \<times> bytes" where
  "ReadByte r = (case r of [] \<Rightarrow> (Err ErrEOF, []) | b # r' \<Rightarrow> (Ok b, r'))"

section \<open>Properties of the conversions\<close>

text \<open>
  Integers, bytes and strings survive their conversion to bytes; and the reader of an integer
  answers 0 for no bytes, panics for one to seven, and reads the first eight of more.
\<close>

lemma conversions_round_trip:
  "BytesToInt64 (Int64ToBytes v) = Ok v \<and> BytesToByte (ByteToBytes b) = b \<and>
   BytesToString (StringToBytes s) = s \<and> StringToBytes (BytesToString bs) = bs \<and>
   BytesToInt64 [] = Ok 0 \<and> (BytesToInt64 bs = Panic \<longleftrightarrow> bs \<noteq> [] \<and> length bs < 8) \<and>
   BytesToInt64 (Int64ToBytes v @ bs) = Ok v"
proof -
  have "Int64ToBytes v @ bs \<noteq> []" by (auto simp: Int64ToBytes_def PutUint64_def)
  then have "BytesToInt64 (Int64ToBytes v @ bs) = Ok v"
    by (simp add: BytesToInt64_def) (simp add: Int64ToBytes_def)
  then show ?thesis by (simp add: BytesToInt64_Panic_iff) (simp add: BytesToInt64_def)
qed

text \<open>
  Booleans do not survive: the one byte a boolean is written as makes the reader panic. It reads
  eight bytes or more, as whether the first eight are not all zero, and no bytes as false.
\<close>

lemma bool_conversion_panics:
  "BytesToBool (BoolToBytes b) = Panic \<and> BytesToBool [] = Ok False \<and>
   BytesToBool (Int64ToBytes v @ bs) = Ok (v \<noteq> 0)"
proof -
  have "Int64ToBytes v @ bs \<noteq> []" by (auto simp: Int64ToBytes_def PutUint64_def)
  then have "BytesToBool (Int64ToBytes v @ bs) = Ok (v \<noteq> 0)"
    by (simp add: BytesToBool_def) (simp add: Int64ToBytes_def)
  then show ?thesis by (simp add: BytesToBool_def BoolToBytes_def)
qed

end
