(* ===== verification/Entities.thy ===== *)
theory Entities
  imports Byte_Slices
begin

text \<open>
  \<open>main/entity\<close>: identifiers, devices, events, hosts, messages and peers. An \<open>Id\<close> is Go's array
  \<open>[16]byte\<close>, here the type of byte lists of length 16. The interfaces of the package each have one
  implementation, a struct, which becomes a record whose fields are read by the getters.
  The package \<open>github.com/google/uuid\<close> is not part of the repository: it is the parameter
  \<open>uuid_pkg\<close> of the definitions that call it.
\<close>

section \<open>Identifiers (id.go)\<close>

typedef Id = "{bs :: bytes. length bs = 16}"
  morphisms Bytes Abs_Id
  by (rule exI [of _ "replicate 16 0"]) simp

setup_lifting type_definition_Id

lemma length_Bytes [simp]: "length (Bytes i) = 16"
  using Bytes [of i] by simp

lemma Bytes_inj [simp]: "Bytes i = Bytes j \<longleftrightarrow> i = j"
  by (rule Bytes_inject)

lemma Bytes_not_Nil [simp]: "Bytes i \<noteq> []"
  using length_Bytes [of i] by fastforce

lemma Nil_not_Bytes [simp]: "[] \<noteq> Bytes i"
  by (metis Bytes_not_Nil)

lemma append_Bytes_eq [simp]: "Bytes i @ xs = Bytes j @ ys \<longleftrightarrow> i = j \<and> xs = ys"
  by (simp add: append_eq_append_conv)

instantiation Id :: equal
begin

definition equal_Id :: "Id \<Rightarrow> Id \<Rightarrow> bool" where
  "equal_Id i j \<longleftrightarrow> Bytes i = Bytes j"

instance
  by standard (simp add: equal_Id_def)

end

text \<open>The bytes of an identifier order it, as they order the keys of the store.\<close>

instantiation Id :: linorder
begin

definition less_eq_Id :: "Id \<Rightarrow> Id \<Rightarrow> bool" where
  "less_eq_Id i j \<longleftrightarrow> Bytes i \<le> Bytes j"

definition less_Id :: "Id \<Rightarrow> Id \<Rightarrow> bool" where
  "less_Id i j \<longleftrightarrow> Bytes i < Bytes j"

instance
  by standard (auto simp: less_eq_Id_def less_Id_def less_le dest: order_antisym)

end

lift_definition ZeroId :: Id is "replicate 16 0"
  by simp

text \<open>The conversion \<open>Id(bytes)\<close> of a slice to the array type; it panics on a shorter slice.\<close>

lift_definition array_of :: "bytes \<Rightarrow> Id" is "\<lambda>bs :: bytes. if length bs = 16 then bs else replicate 16 0"
  by simp

lemma Bytes_array_of [simp]: "length bs = 16 \<Longrightarrow> Bytes (array_of bs) = bs"
  by transfer simp

lemma array_of_Bytes [simp]: "array_of (Bytes i) = i"
  by transfer simp

text \<open>What the repository uses of the package \<open>uuid\<close>; \<open>uuid.Nil\<close> is all zero.\<close>

record uuid_pkg =
  Validate :: "string \<Rightarrow> error option"
  MustParse :: "string \<Rightarrow> Id"
  NewSHA1 :: "Id \<Rightarrow> bytes \<Rightarrow> Id"
  NameSpaceURL :: Id
  uuid_String :: "Id \<Rightarrow> string"
  NewRandom :: "nat \<Rightarrow> Id result"

definition NewRandomId :: "uuid_pkg \<Rightarrow> nat \<Rightarrow> Id result" where
  "NewRandomId U n =
     (case NewRandom U n of
        Err err \<Rightarrow> Err err
      | Ok source \<Rightarrow> Ok source
      | Panic \<Rightarrow> Panic)"

definition NewBytesId :: "bytes \<Rightarrow> Id result" where
  "NewBytesId bytes =
     (if length bytes \<noteq> 16 then Err ErrUnexpectedLength else Ok (array_of bytes))"

definition NewStringId :: "uuid_pkg \<Rightarrow> string \<Rightarrow> Id" where
  "NewStringId U text =
     (if Validate U text \<noteq> None then NewSHA1 U (NameSpaceURL U) (StringToBytes text)
      else MustParse U text)"

definition Id_String :: "uuid_pkg \<Rightarrow> Id \<Rightarrow> string" where
  "Id_String U i = uuid_String U i"

lemma NewBytesId_Bytes [simp]: "NewBytesId (Bytes i) = Ok i"
  by (simp add: NewBytesId_def)

lemma NewBytesId_Ok_iff: "NewBytesId bs = Ok i \<longleftrightarrow> bs = Bytes i"
  by (auto simp: NewBytesId_def)

lemma NewBytesId_Err_iff: "NewBytesId bs = Err e \<longleftrightarrow> length bs \<noteq> 16 \<and> e = ErrUnexpectedLength"
  by (auto simp: NewBytesId_def)

lemma NewBytesId_not_Panic [simp]: "NewBytesId bs \<noteq> Panic"
  by (simp add: NewBytesId_def)

section \<open>Devices (device.go)\<close>

type_synonym DeviceType = byte
type_synonym DeviceState = byte

definition DeviceTypeUnknown :: DeviceType where "DeviceTypeUnknown = 0xf"
definition DeviceTypeLight :: DeviceType where "DeviceTypeLight = 1"
definition DeviceStateOff :: DeviceState where "DeviceStateOff = 0"
definition DeviceStateOn :: DeviceState where "DeviceStateOn = 1"

record Device =
  dev_id :: Id
  dev_owner :: Id
  dev_type :: DeviceType
  dev_state :: DeviceState
  dev_version :: int64

definition NewDevice :: "Id \<Rightarrow> Id \<Rightarrow> DeviceType \<Rightarrow> DeviceState \<Rightarrow> int64 \<Rightarrow> Device" where
  "NewDevice id' owner deviceType deviceState version =
     \<lparr>dev_id = id', dev_owner = owner, dev_type = deviceType, dev_state = deviceState,
      dev_version = version\<rparr>"

lemma NewDevice_sel [simp]:
  "dev_id (NewDevice i ow t s v) = i"
  "dev_owner (NewDevice i ow t s v) = ow"
  "dev_type (NewDevice i ow t s v) = t"
  "dev_state (NewDevice i ow t s v) = s"
  "dev_version (NewDevice i ow t s v) = v"
  by (simp_all add: NewDevice_def)

lemma NewDevice_collapse [simp]:
  "NewDevice (dev_id d) (dev_owner d) (dev_type d) (dev_state d) (dev_version d) = d"
  by (simp add: NewDevice_def)

section \<open>Events (event.go)\<close>

record Event =
  event_id :: Id
  event_deviceId :: Id
  event_state :: byte

definition NewOnEvent :: "Id \<Rightarrow> Id \<Rightarrow> Event" where
  "NewOnEvent id' device = \<lparr>event_id = id', event_deviceId = device, event_state = 1\<rparr>"

definition NewOffEvent :: "Id \<Rightarrow> Id \<Rightarrow> Event" where
  "NewOffEvent id' device = \<lparr>event_id = id', event_deviceId = device, event_state = 0\<rparr>"

section \<open>Hosts (host.go)\<close>

record Host =
  host_id :: Id
  host_address :: string
  host_broadcast :: string

definition NewHost :: "Id \<Rightarrow> string \<Rightarrow> string \<Rightarrow> Host" where
  "NewHost id' address broadcast =
     \<lparr>host_id = id', host_address = address, host_broadcast = broadcast\<rparr>"

section \<open>Peers (peer.go)\<close>

record Peer =
  peer_id :: Id
  peer_address :: string

definition NewPeer :: "Id \<Rightarrow> string \<Rightarrow> Peer" where
  "NewPeer id' address = \<lparr>peer_id = id', peer_address = address\<rparr>"

lemma NewPeer_sel [simp]: "peer_id (NewPeer i a) = i" "peer_address (NewPeer i a) = a"
  by (simp_all add: NewPeer_def)

section \<open>Messages (message.go)\<close>

type_synonym MessageType = byte

definition MessageTypeUnknown :: MessageType where "MessageTypeUnknown = 0"
definition MessageTypeCommandHail :: MessageType where "MessageTypeCommandHail = 1"
definition MessageTypeCommandPatch :: MessageType where "MessageTypeCommandPatch = 2"
definition MessageTypeEventSync :: MessageType where "MessageTypeEventSync = 3"
definition MessageTypeEventPeer :: MessageType where "MessageTypeEventPeer = 4"
definition MessageTypeEventFarewell :: MessageType where "MessageTypeEventFarewell = 5"

lemmas message_type_defs = MessageTypeUnknown_def MessageTypeCommandHail_def
  MessageTypeCommandPatch_def MessageTypeEventSync_def MessageTypeEventPeer_def
  MessageTypeEventFarewell_def

definition MessageType_String :: "MessageType \<Rightarrow> string" where
  "MessageType_String t =
     (if t = MessageTypeCommandHail then ''CommandHail''
      else if t = MessageTypeCommandPatch then ''CommandPatch''
      else if t = MessageTypeEventSync then ''EventSync''
      else if t = MessageTypeEventPeer then ''EventPeer''
      else if t = MessageTypeEventFarewell then ''EventFarewell''
      else ''unknown'')"

definition SignatureLength :: nat where "SignatureLength = 0"
definition MaxMessageLength :: int where "MaxMessageLength = 1 * MiB"

record Message =
  msg_id :: Id
  msg_sender :: Id
  msg_type :: MessageType
  msg_data :: bytes

definition NewMessage :: "Id \<Rightarrow> Id \<Rightarrow> MessageType \<Rightarrow> bytes \<Rightarrow> Message" where
  "NewMessage id' sender messageType bytes =
     \<lparr>msg_id = id', msg_sender = sender, msg_type = messageType, msg_data = bytes\<rparr>"

lemma NewMessage_sel [simp]:
  "msg_id (NewMessage i s t b) = i"
  "msg_sender (NewMessage i s t b) = s"
  "msg_type (NewMessage i s t b) = t"
  "msg_data (NewMessage i s t b) = b"
  by (simp_all add: NewMessage_def)

lemma NewMessage_collapse [simp]:
  "NewMessage (msg_id m) (msg_sender m) (msg_type m) (msg_data m) = m"
  by (simp add: NewMessage_def)

definition MessageType_Bytes :: "MessageType \<Rightarrow> bytes" where
  "MessageType_Bytes t = ByteToBytes t"

text \<open>\<open>m.data[:n]\<close> and \<open>m.data[n:]\<close> with \<open>n = len(m.data) - SignatureLength\<close>.\<close>

definition GetData :: "Message \<Rightarrow> bytes" where
  "GetData m = take (length (msg_data m) - SignatureLength) (msg_data m)"

definition GetSignature :: "Message \<Rightarrow> bytes" where
  "GetSignature m = drop (length (msg_data m) - SignatureLength) (msg_data m)"

lemma GetData_GetSignature [simp]: "GetData m @ GetSignature m = msg_data m"
  by (simp add: GetData_def GetSignature_def)

lemma GetData_eq [simp]: "GetData m = msg_data m"
  by (simp add: GetData_def SignatureLength_def)

section \<open>An example of the package uuid\<close>

text \<open>
  Name-based ids are the first bytes of the name here; the instance shows that what the theorems
  assume of the package can hold.
\<close>

lemma array_of_eq [simp]: "length xs = 16 \<Longrightarrow> length ys = 16 \<Longrightarrow> array_of xs = array_of ys \<longleftrightarrow> xs = ys"
  by (metis Bytes_array_of)

lemma replicate_16: "replicate 16 x = [x, x, x, x, x, x, x, x, x, x, x, x, x, x, x, x]"
  by (simp add: numeral_eq_Suc)

lemma ZeroId_array: "ZeroId = array_of [0, 0, 0, 0, 0, 0, 0, 0, 0, 0, 0, 0, 0, 0, 0, 0]"
  unfolding replicate_16 [symmetric] by transfer simp

definition small_id :: "byte \<Rightarrow> Id" where
  "small_id b = array_of [0, 0, 0, 0, 0, 0, 0, 0, 0, 0, 0, 0, 0, 0, 0, b]"

lemma small_id_eq [simp]: "small_id a = small_id b \<longleftrightarrow> a = b" "small_id a = ZeroId \<longleftrightarrow> a = 0" "ZeroId = small_id a \<longleftrightarrow> a = 0"
  by (auto simp: small_id_def ZeroId_array)

definition demo_uuid :: uuid_pkg where
  "demo_uuid =
     \<lparr>Validate = (\<lambda>s. if length s = 36 then None else Some ErrIdFormat),
      MustParse = (\<lambda>s. array_of (take 16 (StringToBytes s))),
      NewSHA1 = (\<lambda>ns bs. array_of (take 16 (bs @ replicate 16 0x2A))),
      NameSpaceURL = ZeroId,
      uuid_String = (\<lambda>i. BytesToString (Bytes i)),
      NewRandom = (\<lambda>n. Ok (array_of (replicate 15 0xFF @ [of_nat n])))\<rparr>"

end
