(* ===== verification/Database.thy ===== *)
theory Database
  imports Entities
begin

text \<open>
  \<open>main/data/database.go\<close>: devices as attributes in a key-value store. The store is the package
  \<open>badger\<close>, which is not part of the repository: the record \<open>badger\<close> holds the calls the code makes
  of it, on an abstract type \<open>'d\<close> of disk contents, and \<open>badger_ok\<close> states what its documentation
  promises. The theorems give each method of \<open>Database\<close> its meaning on the abstract table
  \<open>store : id => attribute => value\<close>, whatever order Go's map iteration takes.
\<close>

section \<open>The key-value store, as the code calls it\<close>

text \<open>An item of a transaction or an iterator; \<open>ValueCopy\<close> may fail to read the value.\<close>

record item =
  item_Key :: bytes
  item_ValueCopy :: "error + bytes"

text \<open>
  \<open>Open t d\<close> is the error of \<open>badger.Open\<close> at moment \<open>t\<close>, if any; \<open>TxnGet\<close> is \<open>Txn.Get\<close> on the
  contents a transaction sees; \<open>TxnItems\<close> lists the items a forward iterator passes; \<open>TxnSet\<close> is
  \<open>Txn.Set\<close>, giving the contents as the transaction sees them from then on; \<open>Commit\<close> is the error
  with which \<open>db.Update\<close> ends after its function succeeded; \<open>DropPrefix\<close> is \<open>db.DropPrefix\<close>.
\<close>

record 'd badger =
  Open :: "nat \<Rightarrow> 'd \<Rightarrow> error option"
  TxnGet :: "'d \<Rightarrow> bytes \<Rightarrow> error + item"
  TxnItems :: "'d \<Rightarrow> item list"
  TxnSet :: "'d \<Rightarrow> bytes \<Rightarrow> bytes \<Rightarrow> error + 'd"
  Commit :: "nat \<Rightarrow> 'd \<Rightarrow> error option"
  DropPrefix :: "nat \<Rightarrow> 'd \<Rightarrow> bytes list \<Rightarrow> error option \<times> 'd"

text \<open>
  The options the code sets of a store; all others are those of \<open>DefaultOptions\<close>, a parameter. The contents
  \<open>'d\<close> are those of the directory they name.
\<close>

record badger_options =
  Dir :: string
  IndexCacheSize :: int
  MetricsEnabled :: bool
  NumVersionsToKeep :: int
  InMemory :: bool
  Logger :: "string option"

definition buildOptions :: "(string \<Rightarrow> badger_options) \<Rightarrow> string \<Rightarrow> bool \<Rightarrow> badger_options" where
  "buildOptions DefaultOptions path inMemory =
     (DefaultOptions path)\<lparr>IndexCacheSize := 10 * MiB, MetricsEnabled := False, NumVersionsToKeep := 1,
       InMemory := inMemory, Logger := None\<rparr>"

definition NewDiskDatabase :: "(string \<Rightarrow> badger_options) \<Rightarrow> string \<Rightarrow> badger_options" where
  "NewDiskDatabase DefaultOptions path = buildOptions DefaultOptions path False"

definition NewMemoryDatabase :: "(string \<Rightarrow> badger_options) \<Rightarrow> badger_options" where
  "NewMemoryDatabase DefaultOptions = buildOptions DefaultOptions '''' True"

text \<open>The value stored under a key.\<close>

definition kv :: "'d badger \<Rightarrow> 'd \<Rightarrow> bytes \<Rightarrow> bytes option" where
  "kv B d k =
     (case TxnGet B d k of
        Inl _ \<Rightarrow> None
      | Inr it \<Rightarrow> (case item_ValueCopy it of Inl _ \<Rightarrow> None | Inr v \<Rightarrow> Some v))"

text \<open>
  The documented behaviour: a forward iterator passes each stored key once, in byte order; what
  \<open>Set\<close> wrote is what later reads of the transaction and of the committed store find;
  \<open>DropPrefix\<close>, when it succeeds, leaves exactly the keys without any of the prefixes.
\<close>

definition badger_ok :: "'d badger \<Rightarrow> bool" where
  "badger_ok B \<longleftrightarrow>
     (\<forall>d. sorted_wrt (<) (map item_Key (TxnItems B d))) \<and>
     (\<forall>d it. it \<in> set (TxnItems B d) \<longleftrightarrow> TxnGet B d (item_Key it) = Inr it) \<and>
     (\<forall>d k it. TxnGet B d k = Inr it \<longrightarrow> item_Key it = k) \<and>
     (\<forall>d k v d' k'. TxnSet B d k v = Inr d' \<longrightarrow>
        kv B d' k' = (if k' = k then Some v else kv B d k')) \<and>
     (\<forall>t d ps d' k. DropPrefix B t d ps = (None, d') \<longrightarrow>
        kv B d' k = (if \<exists>p \<in> set ps. prefix p k then None else kv B d k))"

section \<open>The methods of Database\<close>

definition buildDatabaseKey :: "Id \<Rightarrow> Id \<Rightarrow> bytes result" where
  "buildDatabaseKey i attribute =
     (if attribute = ZeroId then Ok (Bytes i) else Ok (Bytes i @ Bytes attribute))"

definition copySingleAttribute ::
  "'d badger \<Rightarrow> 'd \<Rightarrow> bytes \<Rightarrow> Id \<Rightarrow> (Id, bytes) gomap \<Rightarrow> (Id, bytes) gomap result" where
  "copySingleAttribute B d key attribute result =
     (case TxnGet B d key of
        Inl err \<Rightarrow> Err err
      | Inr it \<Rightarrow>
          (case item_ValueCopy it of
             Inl err \<Rightarrow> Err err
           | Inr v \<Rightarrow> Ok (AList.update attribute v result)))"

text \<open>The loop of \<open>copyAllAttributes\<close> from where the iterator stands.\<close>

fun copyLoop :: "bytes \<Rightarrow> item list \<Rightarrow> (Id, bytes) gomap \<Rightarrow> (Id, bytes) gomap" where
  "copyLoop p [] result = result"
| "copyLoop p (it # its) result =
     (if \<not> prefix p (item_Key it) then result
      else
        (case NewBytesId (drop (length p) (item_Key it)) of
           Ok attr \<Rightarrow>
             (case item_ValueCopy it of
                Inl err \<Rightarrow> copyLoop p its result
              | Inr bytes \<Rightarrow> copyLoop p its (AList.update attr bytes result))
         | _ \<Rightarrow> copyLoop p its result))"

text \<open>\<open>Seek(prefix)\<close> moves to the first key that is not below the prefix.\<close>

definition Seek :: "bytes \<Rightarrow> item list \<Rightarrow> item list" where
  "Seek p its = dropWhile (\<lambda>it. item_Key it < p) its"

definition copyAllAttributes ::
  "'d badger \<Rightarrow> 'd \<Rightarrow> bytes \<Rightarrow> (Id, bytes) gomap \<Rightarrow> (Id, bytes) gomap result" where
  "copyAllAttributes B d p result = Ok (copyLoop p (Seek p (TxnItems B d)) result)"

definition database_Get ::
  "'d badger \<Rightarrow> nat \<Rightarrow> Id \<Rightarrow> Id \<Rightarrow> 'd \<Rightarrow> (Id, bytes) gomap result \<times> 'd" where
  "database_Get B t i attribute d =
     (case buildDatabaseKey i attribute of
        Err keyErr \<Rightarrow> (Err ErrIdFormat, d)
      | Panic \<Rightarrow> (Panic, d)
      | Ok key \<Rightarrow>
          (case Open B t d of
             Some dbErr \<Rightarrow> (Err dbErr, d)
           | None \<Rightarrow>
               (if i \<noteq> ZeroId \<and> attribute \<noteq> ZeroId
                then copySingleAttribute B d key attribute []
                else copyAllAttributes B d key [], d)))"

text \<open>The loop \<open>for attr, value := range data\<close> of \<open>Set\<close>'s transaction.\<close>

fun setAttributes :: "'d badger \<Rightarrow> Id \<Rightarrow> (Id \<times> bytes) list \<Rightarrow> 'd \<Rightarrow> error + 'd" where
  "setAttributes B i [] d = Inr d"
| "setAttributes B i ((attr, value) # rest) d =
     (case buildDatabaseKey i attr of
        Ok key \<Rightarrow>
          (case TxnSet B d key value of
             Inl setErr \<Rightarrow> Inl setErr
           | Inr d' \<Rightarrow> setAttributes B i rest d')
      | _ \<Rightarrow> Inl ErrIdFormat)"

definition setTransaction :: "'d badger \<Rightarrow> Id \<Rightarrow> (Id \<times> bytes) list \<Rightarrow> 'd \<Rightarrow> error + 'd" where
  "setTransaction B i pairs d =
     (case buildDatabaseKey ZeroId i of
        Ok idKey \<Rightarrow>
          (case TxnSet B d idKey [] of
             Inl setErr \<Rightarrow> Inl setErr
           | Inr d' \<Rightarrow> setAttributes B i pairs d')
      | _ \<Rightarrow> Inl ErrIdFormat)"

text \<open>
  A transaction whose function fails, or whose commit fails, leaves the store as it was. \<open>ks\<close> is
  the order in which the range loop visits the keys of \<open>data\<close>.
\<close>

definition database_Set ::
  "'d badger \<Rightarrow> nat \<Rightarrow> Id list \<Rightarrow> Id \<Rightarrow> (Id, bytes) gomap \<Rightarrow> 'd \<Rightarrow> unit result \<times> 'd" where
  "database_Set B t ks i data d =
     (case Open B t d of
        Some dbErr \<Rightarrow> (Err dbErr, d)
      | None \<Rightarrow>
          (case setTransaction B i (in_order data ks) d of
             Inl err \<Rightarrow> (Err err, d)
           | Inr d' \<Rightarrow>
               (case Commit B t d' of
                  Some err \<Rightarrow> (Err err, d)
                | None \<Rightarrow> (Ok (), d'))))"

definition database_Delete :: "'d badger \<Rightarrow> nat \<Rightarrow> Id \<Rightarrow> 'd \<Rightarrow> unit result \<times> 'd" where
  "database_Delete B t i d =
     (case (buildDatabaseKey i ZeroId, buildDatabaseKey ZeroId i) of
        (Ok p, Ok key) \<Rightarrow>
          (case Open B t d of
             Some dbErr \<Rightarrow> (Err dbErr, d)
           | None \<Rightarrow>
               (case DropPrefix B t d [key, p] of
                  (Some err, d') \<Rightarrow> (Err err, d')
                | (None, d') \<Rightarrow> (Ok (), d')))
      | _ \<Rightarrow> (Err ErrIdFormat, d))"

section \<open>The iterator loop collects the keys under a prefix\<close>

text \<open>Keys under a prefix are contiguous in byte order.\<close>

lemma prefix_le: "prefix p x \<Longrightarrow> p \<le> (x :: bytes)"
proof (induction p arbitrary: x)
  case (Cons b p)
  then show ?case by (cases x) auto
qed simp

lemma prefix_contiguous:
  "p \<le> y \<Longrightarrow> \<not> prefix p y \<Longrightarrow> prefix p z \<Longrightarrow> z < (y :: bytes)"
proof (induction p arbitrary: y z)
  case (Cons b p)
  then show ?case by (cases y; cases z) auto
qed simp

text \<open>The values a list of items carries, by key.\<close>

primrec item_values :: "item list \<Rightarrow> bytes \<Rightarrow> bytes option" where
  "item_values [] = Map.empty"
| "item_values (it # its) =
     (case item_ValueCopy it of
        Inl _ \<Rightarrow> item_values its
      | Inr v \<Rightarrow> (item_values its)(item_Key it \<mapsto> v))"

lemma item_values_None: "k \<notin> set (map item_Key its) \<Longrightarrow> item_values its k = None"
  by (induction its) (auto split: sum.splits)

lemma item_values_dropWhile:
  "(\<And>it. item_Key it = k \<Longrightarrow> \<not> P it) \<Longrightarrow> item_values (dropWhile P its) k = item_values its k"
  by (induction its) (auto split: sum.splits)

lemma item_values_mem:
  "sorted_wrt (<) (map item_Key its) \<Longrightarrow> it \<in> set its \<Longrightarrow>
   item_values its (item_Key it) = (case item_ValueCopy it of Inl _ \<Rightarrow> None | Inr v \<Rightarrow> Some v)"
proof (induction its)
  case (Cons x its)
  show ?case
  proof (cases "it = x")
    case True
    then have "item_Key it \<notin> set (map item_Key its)"
      using Cons.prems by auto
    then show ?thesis
      using True by (simp add: item_values_None split: sum.splits)
  next
    case False
    with Cons.prems have mem: "it \<in> set its" by simp
    moreover have "item_Key x < item_Key it"
      using Cons.prems mem by simp
    ultimately show ?thesis
      using Cons by (auto split: sum.splits)
  qed
qed simp

lemma copyLoop_lookup:
  assumes "sorted_wrt (<) (map item_Key its)" and "\<forall>it \<in> set its. p \<le> item_Key it"
  shows "map_of (copyLoop p its result) a =
           (case item_values its (p @ Bytes a) of Some v \<Rightarrow> Some v | None \<Rightarrow> map_of result a)"
  using assms
proof (induction its arbitrary: result)
  case (Cons it its)
  show ?case
  proof (cases "prefix p (item_Key it)")
    case False
    have "p @ Bytes a \<noteq> item_Key x" if "x \<in> set (it # its)" for x
    proof -
      have "p @ Bytes a < item_Key it"
        using prefix_contiguous [OF _ False] Cons.prems(2) by simp
      moreover have "item_Key it \<le> item_Key x"
        using Cons.prems(1) that by (auto intro: less_imp_le)
      ultimately show ?thesis by auto
    qed
    then have "item_values (it # its) (p @ Bytes a) = None"
      by (intro item_values_None) (metis image_iff list.set_map)
    then show ?thesis using False by (simp del: item_values.simps)
  next
    case True
    then obtain rest where key: "item_Key it = p @ rest" by (auto simp: prefix_def)
    have "item_Key it \<notin> set (map item_Key its)"
      using Cons.prems(1) by auto
    then have fresh: "item_values its (item_Key it) = None"
      by (rule item_values_None)
    show ?thesis
    proof (cases "length rest = 16")
      case False
      then have "Bytes a \<noteq> rest" by auto
      then show ?thesis
        using Cons True key False by (simp add: NewBytesId_def split: sum.split)
    next
      case rest16: True
      then have "rest = Bytes (array_of rest)" by simp
      then obtain i where "rest = Bytes i" by blast
      then show ?thesis
        using Cons True key fresh by (auto simp: update_conv' split: sum.split option.split)
    qed
  qed
qed simp

text \<open>The promises of \<open>badger_ok\<close>, one by one.\<close>

lemma badger_sorted: "badger_ok B \<Longrightarrow> sorted_wrt (<) (map item_Key (TxnItems B d))"
  by (simp add: badger_ok_def)

lemma badger_items:
  "badger_ok B \<Longrightarrow> it \<in> set (TxnItems B d) \<longleftrightarrow> TxnGet B d (item_Key it) = Inr it"
  by (simp add: badger_ok_def)

lemma badger_key: "badger_ok B \<Longrightarrow> TxnGet B d k = Inr it \<Longrightarrow> item_Key it = k"
  unfolding badger_ok_def by blast

lemma badger_set:
  "badger_ok B \<Longrightarrow> TxnSet B d k v = Inr d' \<Longrightarrow> kv B d' k' = (if k' = k then Some v else kv B d k')"
  unfolding badger_ok_def by blast

lemma badger_drop:
  "badger_ok B \<Longrightarrow> DropPrefix B t d ps = (None, d') \<Longrightarrow>
   kv B d' k = (if \<exists>p \<in> set ps. prefix p k then None else kv B d k)"
  unfolding badger_ok_def by blast

definition store :: "'d badger \<Rightarrow> 'd \<Rightarrow> Id \<Rightarrow> Id \<Rightarrow> bytes option" where
  "store B d i a = kv B d (Bytes i @ Bytes a)"

lemma item_values_items:
  assumes "badger_ok B"
  shows "item_values (TxnItems B d) k = kv B d k"
proof (cases "TxnGet B d k")
  case (Inl e)
  have "it \<in> set (TxnItems B d) \<Longrightarrow> item_Key it \<noteq> k" for it
    using badger_items [OF assms, of it d] Inl by auto
  then have "k \<notin> set (map item_Key (TxnItems B d))" by auto
  then show ?thesis using Inl by (simp add: item_values_None kv_def)
next
  case (Inr it)
  then have key: "item_Key it = k" by (rule badger_key [OF assms])
  then have "it \<in> set (TxnItems B d)"
    using badger_items [OF assms, of it d] Inr by simp
  from item_values_mem [OF badger_sorted [OF assms] this] show ?thesis
    using Inr key by (simp add: kv_def)
qed

lemma sorted_wrt_dropWhile: "sorted_wrt R (map f xs) \<Longrightarrow> sorted_wrt R (map f (dropWhile P xs))"
  by (induction xs) auto

lemma Seek_not_below: "sorted_wrt (<) (map item_Key its) \<Longrightarrow> it \<in> set (Seek p its) \<Longrightarrow> p \<le> item_Key it"
  unfolding Seek_def by (induction its) (auto split: if_splits simp: not_less)

lemma copyAllAttributes_lookup:
  assumes "badger_ok B" and "copyAllAttributes B d p [] = Ok m"
  shows "map_of m a = kv B d (p @ Bytes a)"
proof -
  have sorted: "sorted_wrt (<) (map item_Key (TxnItems B d))"
    using assms(1) by (rule badger_sorted)
  have "\<not> item_Key it < p" if "item_Key it = p @ Bytes a" for it
    using prefix_le [of p "item_Key it"] that by (simp add: prefix_def not_less)
  then have "item_values (Seek p (TxnItems B d)) (p @ Bytes a) = item_values (TxnItems B d) (p @ Bytes a)"
    unfolding Seek_def by (rule item_values_dropWhile)
  also have "\<dots> = kv B d (p @ Bytes a)"
    by (rule item_values_items [OF assms(1)])
  finally have "item_values (Seek p (TxnItems B d)) (p @ Bytes a) = kv B d (p @ Bytes a)" .
  moreover have "map_of m a =
      (case item_values (Seek p (TxnItems B d)) (p @ Bytes a) of Some v \<Rightarrow> Some v | None \<Rightarrow> map_of [] a)"
  proof -
    have m: "m = copyLoop p (Seek p (TxnItems B d)) []"
      using assms(2) by (simp add: copyAllAttributes_def)
    show ?thesis
      unfolding m
      by (rule copyLoop_lookup)
        (use sorted Seek_not_below [OF sorted] in \<open>auto simp: Seek_def sorted_wrt_dropWhile\<close>)
  qed
  ultimately show ?thesis by (simp split: option.splits)
qed

lemma wf_map_copyLoop: "wf_map r \<Longrightarrow> wf_map (copyLoop p its r)"
  by (induction its arbitrary: r) (auto split: result.splits sum.splits)

section \<open>What the methods do to the table\<close>

text \<open>
  The abstract table: \<open>S i a\<close> is the value of attribute \<open>a\<close> of the item \<open>i\<close>; row \<open>ZeroId\<close> is the
  index, with one entry for each stored item. All keys are an id, or an id and an attribute.
\<close>

type_synonym table = "Id \<Rightarrow> Id \<Rightarrow> bytes option"

definition table_set :: "Id \<Rightarrow> (Id \<Rightarrow> bytes option) \<Rightarrow> table \<Rightarrow> table" where
  "table_set i data S = (\<lambda>j a.
     if j = i \<and> data a \<noteq> None then data a
     else if j = ZeroId \<and> a = i \<and> i \<noteq> ZeroId then Some []
     else S j a)"

definition table_delete :: "Id \<Rightarrow> table \<Rightarrow> table" where
  "table_delete i S = (\<lambda>j a. if j = i \<or> (j = ZeroId \<and> a = i) then None else S j a)"

definition keys_ok :: "'d badger \<Rightarrow> 'd \<Rightarrow> bool" where
  "keys_ok B d \<longleftrightarrow> (\<forall>k. kv B d k \<noteq> None \<longrightarrow> length k = 16 \<or> length k = 32)"

lemma buildDatabaseKey_cases:
  "a \<noteq> ZeroId \<Longrightarrow> buildDatabaseKey i a = Ok (Bytes i @ Bytes a)"
  "buildDatabaseKey i ZeroId = Ok (Bytes i)"
  by (simp_all add: buildDatabaseKey_def)

lemma two_Bytes_neq_one [simp]: "Bytes j @ Bytes a \<noteq> Bytes i"
  by (rule notI) (drule arg_cong [of _ _ length], simp)

lemma prefix_Bytes: "prefix (Bytes i) (Bytes j @ xs) \<longleftrightarrow> i = j"
  by (auto simp: prefix_def append_eq_append_conv)

lemma prefix_Bytes_Bytes [simp]: "prefix (Bytes i) (Bytes j) \<longleftrightarrow> i = j"
  using prefix_Bytes [of i j "[]"] by simp

lemma setAttributes_store:
  assumes "badger_ok B" and "wf_map pairs" and "ZeroId \<notin> fst ` set pairs"
    and "setAttributes B i pairs d = Inr d'"
  shows "store B d' j a =
    (if j = i \<and> map_of pairs a \<noteq> None then map_of pairs a else store B d j a)"
  using assms(2-)
proof (induction pairs arbitrary: d)
  case (Cons x pairs)
  obtain b v where x: "x = (b, v)" by (cases x)
  then obtain d1 where set1: "TxnSet B d (Bytes i @ Bytes b) v = Inr d1"
    and rest: "setAttributes B i pairs d1 = Inr d'"
    using Cons.prems by (auto simp: buildDatabaseKey_cases split: sum.splits)
  have fresh: "map_of pairs b = None"
    using Cons.prems(1) x by (simp add: wf_map_def map_of_eq_None_iff)
  have "store B d1 j a = (if j = i \<and> a = b then Some v else store B d j a)"
    using badger_set [OF assms(1) set1] by (simp add: store_def)
  moreover have "store B d' j a =
      (if j = i \<and> map_of pairs a \<noteq> None then map_of pairs a else store B d1 j a)"
    using Cons.IH [OF _ _ rest] Cons.prems by (simp add: wf_map_def)
  ultimately show ?case using x fresh by auto
qed simp

lemma setAttributes_keys_ok:
  assumes "badger_ok B" and "setAttributes B i pairs d = Inr d'" and "keys_ok B d"
  shows "keys_ok B d'"
  using assms(2-)
proof (induction pairs arbitrary: d)
  case (Cons x pairs)
  obtain b v where x: "x = (b, v)" by (cases x)
  obtain k where key: "buildDatabaseKey i b = Ok k" "length k = 16 \<or> length k = 32"
    by (cases "b = ZeroId") (simp_all add: buildDatabaseKey_def)
  then obtain d1 where set1: "TxnSet B d k v = Inr d1" and rest: "setAttributes B i pairs d1 = Inr d'"
    using Cons.prems x by (auto split: sum.splits)
  have "keys_ok B d1"
    using Cons.prems(2) key(2) badger_set [OF assms(1) set1] by (simp add: keys_ok_def)
  then show ?case by (rule Cons.IH [OF rest])
qed simp

lemma setTransaction_effect:
  assumes B: "badger_ok B" and wf: "wf_map pairs" and zero: "ZeroId \<notin> fst ` set pairs"
    and run: "setTransaction B i pairs d = Inr d'"
  shows "store B d' = table_set i (map_of pairs) (store B d)"
    and "keys_ok B d \<Longrightarrow> keys_ok B d'"
proof -
  obtain k where key: "buildDatabaseKey ZeroId i = Ok k"
    "k = (if i = ZeroId then Bytes ZeroId else Bytes ZeroId @ Bytes i)"
    by (simp add: buildDatabaseKey_def)
  then obtain d1 where set1: "TxnSet B d k [] = Inr d1" and rest: "setAttributes B i pairs d1 = Inr d'"
    using run by (auto simp: setTransaction_def split: sum.splits)
  have d1: "store B d1 j a = (if j = ZeroId \<and> a = i \<and> i \<noteq> ZeroId then Some [] else store B d j a)" for j a
  proof -
    show ?thesis
      using badger_set [OF B set1] key(2) by (auto simp: store_def)
  qed
  show "store B d' = table_set i (map_of pairs) (store B d)"
    by (intro ext) (auto simp: setAttributes_store [OF B wf zero rest] d1 table_set_def)
  assume "keys_ok B d"
  then have "keys_ok B d1"
    using badger_set [OF B set1] key(2) by (auto simp: keys_ok_def split: if_splits)
  then show "keys_ok B d'" by (rule setAttributes_keys_ok [OF B rest])
qed

text \<open>
  \<open>Set\<close> refines \<open>table_set\<close>, for every order in which its loop visits the attributes; when it
  fails the table stays as it was.
\<close>

lemma database_Set_Ok:
  assumes "badger_ok B" and "wf_map data" and "ZeroId \<notin> set (keys data)" and "mset ks = mset (keys data)"
    and "database_Set B t ks i data d = (Ok (), d')"
  shows "store B d' = table_set i (map_of data) (store B d)"
    and "keys_ok B d \<Longrightarrow> keys_ok B d'"
proof -
  have run: "setTransaction B i (in_order data ks) d = Inr d'"
    using assms(5) by (auto simp: database_Set_def split: option.splits sum.splits)
  have zero: "ZeroId \<notin> fst ` set (in_order data ks)"
    using assms(3) mset_eq_setD [OF assms(4)] by (auto simp: set_in_order)
  note effect = setTransaction_effect [OF assms(1) wf_in_order(1) [OF assms(2,4)] zero run]
  show "store B d' = table_set i (map_of data) (store B d)"
    using effect(1) wf_in_order(2) [OF assms(2,4)] by simp
  show "keys_ok B d \<Longrightarrow> keys_ok B d'" by (rule effect(2))
qed

lemma database_Set_Err: "database_Set B t ks i data d = (r, d') \<Longrightarrow> r \<noteq> Ok () \<Longrightarrow> d' = d"
  by (auto simp: database_Set_def split: option.splits sum.splits)

lemma database_Set_not_Panic: "database_Set B t ks i data d \<noteq> (Panic, d')"
  by (auto simp: database_Set_def split: option.splits sum.splits)

lemma database_Delete_Ok:
  assumes "badger_ok B" and "database_Delete B t i d = (Ok (), d')"
  shows "store B d' = table_delete i (store B d)"
    and "keys_ok B d \<Longrightarrow> keys_ok B d'"
proof -
  obtain k where k: "buildDatabaseKey ZeroId i = Ok k"
    "k = (if i = ZeroId then Bytes ZeroId else Bytes ZeroId @ Bytes i)"
    by (simp add: buildDatabaseKey_def)
  then have drop: "DropPrefix B t d [k, Bytes i] = (None, d')"
    using assms(2)
    by (auto simp: database_Delete_def buildDatabaseKey_cases split: option.splits prod.splits)
  note kv' = badger_drop [OF assms(1) drop]
  have "prefix k (Bytes j @ Bytes a) \<longleftrightarrow> j = ZeroId \<and> (i = ZeroId \<or> a = i)" for j a
  proof (cases "i = ZeroId")
    case False
    have "prefix (Bytes ZeroId @ Bytes i) (Bytes j @ Bytes a) \<longleftrightarrow>
        j = ZeroId \<and> prefix (Bytes i) (Bytes a)"
      by (auto simp: prefix_def)
    then show ?thesis using k(2) False by auto
  qed (use k(2) in \<open>auto simp: prefix_Bytes\<close>)
  then show "store B d' = table_delete i (store B d)"
    by (intro ext) (auto simp: store_def kv' table_delete_def prefix_Bytes)
  show "keys_ok B d \<Longrightarrow> keys_ok B d'"
    by (simp add: keys_ok_def kv')
qed

lemma database_Delete_not_Panic: "database_Delete B t i d \<noteq> (Panic, d')"
  by (auto simp: database_Delete_def buildDatabaseKey_def split: option.splits prod.splits)

lemma database_Get_disk: "snd (database_Get B t i a d) = d"
  by (simp add: database_Get_def buildDatabaseKey_def split: option.splits)

lemma database_Get_not_Panic: "database_Get B t i a d \<noteq> (Panic, d')"
  by (auto simp: database_Get_def buildDatabaseKey_def copySingleAttribute_def copyAllAttributes_def
      split: option.splits sum.splits)

text \<open>\<open>Get\<close> of a whole row: all its attributes, or the index for \<open>ZeroId\<close>.\<close>

lemma database_Get_row:
  assumes "badger_ok B" and "database_Get B t i ZeroId d = (Ok m, d')"
  shows "map_of m = store B d i" and "wf_map m"
proof -
  have run: "copyAllAttributes B d (Bytes i) [] = Ok m"
    using assms(2) by (auto simp: database_Get_def buildDatabaseKey_def split: option.splits)
  show "map_of m = store B d i"
    using copyAllAttributes_lookup [OF assms(1) run] by (auto simp: store_def)
  show "wf_map m"
    using run by (auto simp: copyAllAttributes_def intro: wf_map_copyLoop)
qed

text \<open>\<open>Get\<close> of one attribute: its value, and an error when there is none.\<close>

lemma database_Get_one:
  assumes "i \<noteq> ZeroId" and "a \<noteq> ZeroId" and "database_Get B t i a d = (Ok m, d')"
  shows "map_of m a = store B d i a" and "store B d i a \<noteq> None"
  using assms
  by (auto simp: database_Get_def buildDatabaseKey_def copySingleAttribute_def store_def kv_def
      split: option.splits sum.splits)

lemma database_Get_one_found:
  assumes "i \<noteq> ZeroId" and "a \<noteq> ZeroId" and "Open B t d = None" and "store B d i a = Some v"
  shows "database_Get B t i a d = (Ok [(a, v)], d)"
  using assms
  by (auto simp: database_Get_def buildDatabaseKey_def copySingleAttribute_def store_def kv_def
      split: sum.splits)

lemma database_Get_one_missing:
  assumes "i \<noteq> ZeroId" and "a \<noteq> ZeroId" and "store B d i a = None"
  shows "\<exists>e. database_Get B t i a d = (Err e, d)"
  using assms
  by (auto simp: database_Get_def buildDatabaseKey_def copySingleAttribute_def store_def kv_def
      split: option.splits sum.splits)

text \<open>
  An attribute of \<open>ZeroId\<close> is looked up as a prefix of two ids, which no key extends by a third:
  the answer is the empty map.
\<close>

lemma database_Get_zero_row:
  assumes "badger_ok B" and "keys_ok B d" and "a \<noteq> ZeroId"
    and "database_Get B t ZeroId a d = (Ok m, d')"
  shows "m = []"
proof -
  have run: "copyAllAttributes B d (Bytes ZeroId @ Bytes a) [] = Ok m"
    using assms(3,4) by (auto simp: database_Get_def buildDatabaseKey_def split: option.splits)
  have "map_of m b = None" for b
  proof -
    have "kv B d ((Bytes ZeroId @ Bytes a) @ Bytes b) = None"
    proof (rule ccontr)
      assume "kv B d ((Bytes ZeroId @ Bytes a) @ Bytes b) \<noteq> None"
      with assms(2) have "length ((Bytes ZeroId @ Bytes a) @ Bytes b) \<in> {16, 32}"
        unfolding keys_ok_def by blast
      then show False by simp
    qed
    then show ?thesis using copyAllAttributes_lookup [OF assms(1) run] by simp
  qed
  then have "map_of m = Map.empty" by (intro ext)
  then show ?thesis by simp
qed

section \<open>The contract the data adapters rely on\<close>

text \<open>
  What \<open>Get\<close> and \<open>Set\<close> promise on a state \<open>'w\<close> that holds a database somewhere, and what Go's map
  iteration promises: it visits each key once.
\<close>

locale attribute_store =
  fixes getData :: "Id \<Rightarrow> Id \<Rightarrow> ('w, (Id, bytes) gomap) act"
    and saveData :: "Id \<Rightarrow> (Id, bytes) gomap \<Rightarrow> ('w, unit) act"
    and mapOrder :: "Id list \<Rightarrow> ('w, Id list) act"
    and table_of :: "'w \<Rightarrow> table"
    and inv :: "'w \<Rightarrow> bool"
  assumes get_frame: "inv w \<Longrightarrow> getData i a w = (r, w') \<Longrightarrow> table_of w' = table_of w \<and> inv w' \<and> r \<noteq> Panic"
    and get_row: "inv w \<Longrightarrow> getData i ZeroId w = (Ok m, w') \<Longrightarrow> map_of m = table_of w i \<and> wf_map m"
    and get_one: "inv w \<Longrightarrow> i \<noteq> ZeroId \<Longrightarrow> a \<noteq> ZeroId \<Longrightarrow> getData i a w = (Ok m, w') \<Longrightarrow>
      map_of m a = table_of w i a \<and> table_of w i a \<noteq> None"
    and get_zero: "inv w \<Longrightarrow> a \<noteq> ZeroId \<Longrightarrow> getData ZeroId a w = (Ok m, w') \<Longrightarrow> m = []"
    and save_Ok: "inv w \<Longrightarrow> wf_map data \<Longrightarrow> ZeroId \<notin> set (keys data) \<Longrightarrow>
      saveData i data w = (Ok (), w') \<Longrightarrow> table_of w' = table_set i (map_of data) (table_of w) \<and> inv w'"
    and save_not_Ok: "inv w \<Longrightarrow> saveData i data w = (q, w') \<Longrightarrow> q \<noteq> Ok () \<Longrightarrow>
      table_of w' = table_of w \<and> inv w' \<and> q \<noteq> Panic"
    and order_keys: "inv w \<Longrightarrow> mapOrder ks w = (res, w') \<Longrightarrow>
      (\<exists>ks'. res = Ok ks' \<and> mset ks' = mset ks) \<and> table_of w' = table_of w \<and> inv w'"

section \<open>An example of the store\<close>

text \<open>A store in memory that keeps the contract \<open>badger_ok\<close>: a list of pairs, the latest first.\<close>

definition demo_item :: "(bytes \<times> bytes) list \<Rightarrow> bytes \<Rightarrow> item" where
  "demo_item d k = \<lparr>item_Key = k, item_ValueCopy = (case map_of d k of None \<Rightarrow> Inl ErrEOF | Some v \<Rightarrow> Inr v)\<rparr>"

definition demo_badger :: "(bytes \<times> bytes) list badger" where
  "demo_badger =
     \<lparr>Open = (\<lambda>t d. None),
      TxnGet = (\<lambda>d k. if k \<in> fst ` set d then Inr (demo_item d k) else Inl (ErrExternal ''Key not found'')),
      TxnItems = (\<lambda>d. map (demo_item d) (sort (remdups (map fst d)))),
      TxnSet = (\<lambda>d k v. Inr ((k, v) # d)),
      Commit = (\<lambda>t d. None),
      DropPrefix = (\<lambda>t d ps. (None, filter (\<lambda>(k, v). \<not> list_ex (\<lambda>p. prefix p k) ps) d))\<rparr>"

lemma demo_kv: "kv demo_badger d k = map_of d k"
proof (cases "map_of d k")
  case None
  then have "k \<notin> fst ` set d" by (simp add: map_of_eq_None_iff)
  then show ?thesis using None by (simp add: kv_def demo_badger_def)
next
  case (Some v)
  then have "k \<in> fst ` set d" by (metis map_of_eq_None_iff option.distinct(1))
  then show ?thesis using Some by (simp add: kv_def demo_badger_def demo_item_def)
qed

lemma map_of_filter_key: "map_of (filter (\<lambda>(k, v). P k) d) k = (if P k then map_of d k else None)"
  by (induction d) auto

lemma demo_badger_ok: "badger_ok demo_badger"
  unfolding badger_ok_def demo_kv
proof (intro conjI allI impI)
  fix d :: "(bytes \<times> bytes) list" and it
  have "map item_Key (TxnItems demo_badger d) = sort (remdups (map fst d))"
    by (simp add: demo_badger_def demo_item_def comp_def)
  then show "sorted_wrt (<) (map item_Key (TxnItems demo_badger d))"
    by (simp add: strict_sorted_iff)
  have "item_Key (demo_item d k) = k" for k by (simp add: demo_item_def)
  then show "(it \<in> set (TxnItems demo_badger d)) = (TxnGet demo_badger d (item_Key it) = Inr it)"
    by (auto simp: demo_badger_def image_iff) (metis fst_conv)
qed (auto simp: demo_badger_def demo_item_def map_of_filter_key list_ex_iff split: if_splits)

section \<open>A store that accepts every write\<close>

definition accepts :: "'d badger \<Rightarrow> bool" where
  "accepts B \<longleftrightarrow>
     (\<forall>t d. Open B t d = None) \<and> (\<forall>d k v. \<exists>d'. TxnSet B d k v = Inr d') \<and> (\<forall>t d. Commit B t d = None)"

lemma setAttributes_accepts: "accepts B \<Longrightarrow> \<exists>d'. setAttributes B i pairs d = Inr d'"
proof (induction pairs arbitrary: d)
  case (Cons x pairs)
  obtain d1 where "TxnSet B d (if fst x = ZeroId then Bytes i else Bytes i @ Bytes (fst x)) (snd x) = Inr d1"
    using Cons.prems unfolding accepts_def by blast
  then show ?case using Cons by (cases x) (auto simp: buildDatabaseKey_def split: if_splits)
qed simp

lemma setTransaction_accepts:
  assumes "accepts B"
  shows "\<exists>d'. setTransaction B i pairs d = Inr d'"
proof -
  obtain d1 where "TxnSet B d (if i = ZeroId then Bytes ZeroId else Bytes ZeroId @ Bytes i) [] = Inr d1"
    using assms unfolding accepts_def by blast
  then show ?thesis
    using setAttributes_accepts [OF assms] by (auto simp: setTransaction_def buildDatabaseKey_def split: if_splits)
qed

lemma database_Set_accepts: "accepts B \<Longrightarrow> fst (database_Set B t ks i data d) = Ok ()"
  using setTransaction_accepts [of B i "in_order data ks" d]
  by (auto simp: database_Set_def accepts_def)

lemma demo_accepts: "accepts demo_badger"
  by (auto simp: accepts_def demo_badger_def)

lemma database_Get_opens: "Open B t d = None \<Longrightarrow> \<exists>m. database_Get B t i ZeroId d = (Ok m, d)"
  by (simp add: database_Get_def buildDatabaseKey_def copyAllAttributes_def)

section \<open>Properties of the database\<close>

text \<open>
  C29. Set: for a map of data without an attribute \<open>ZeroId\<close>, whatever the order in which Go visits
  its keys, the store afterwards is the table with the row of the item overwritten where data has a
  value and the item entered in the index; when Set returns an error the table is unchanged. It never
  panics, keeps every key one id or two ids long, and succeeds on a store that accepts every write.
\<close>

theorem set_refines_table:
  assumes "badger_ok B" and "wf_map data" and "ZeroId \<notin> set (keys data)" and "mset ks = mset (keys data)"
    and "database_Set B t ks i data d = (r, d')"
  shows "r \<noteq> Panic \<and> store B d' = (if r = Ok () then table_set i (map_of data) (store B d) else store B d) \<and>
    (keys_ok B d \<longrightarrow> keys_ok B d') \<and> (accepts B \<longrightarrow> r = Ok ())"
proof (cases "r = Ok ()")
  case True
  then show ?thesis
    using database_Set_Ok [OF assms(1-4)] assms(5) by auto
next
  case False
  then show ?thesis
    using database_Set_Err [OF assms(5)] database_Set_not_Panic [of B t ks i data d d'] assms(5)
      database_Set_accepts [of B t ks i data d] by auto
qed

theorem set_refines_table_witness:
  "case database_Set demo_badger 0 [small_id 2] (small_id 1) [(small_id 2, [7])] [] of (r, d') \<Rightarrow>
     r = Ok () \<and> store demo_badger d' = table_set (small_id 1) [small_id 2 \<mapsto> [7]] (store demo_badger [])"
  using set_refines_table [OF demo_badger_ok _ _ _ prod.collapse [symmetric],
      of "[(small_id 2, [7])]" "[small_id 2]" 0 "small_id 1" "[]"] demo_accepts
  by (simp add: case_prod_unfold keys_def wf_map_def)

text \<open>
  C30. Get: it changes nothing and never panics; with the attribute \<open>ZeroId\<close> it answers the whole row
  of the item (for the item \<open>ZeroId\<close> the index), each attribute once; with an attribute it answers
  its value, and an error exactly when the row has none; and on a store that opens it fails for no
  other reason.
\<close>

theorem get_reads_table:
  assumes "badger_ok B" and "database_Get B t i a d = (r, d')"
  shows "d' = d \<and> r \<noteq> Panic \<and>
    (a = ZeroId \<longrightarrow> (\<forall>m. r = Ok m \<longrightarrow> map_of m = store B d i \<and> wf_map m) \<and>
      (Open B t d = None \<longrightarrow> r \<in> range Ok)) \<and>
    (i \<noteq> ZeroId \<and> a \<noteq> ZeroId \<and> Open B t d = None \<longrightarrow>
      (case store B d i a of None \<Rightarrow> r \<in> range Err | Some v \<Rightarrow> r = Ok [(a, v)]))"
proof -
  have d: "d' = d" using database_Get_disk [of B t i a d] assms(2) by simp
  have row: "map_of m = store B d i \<and> wf_map m" if "a = ZeroId" "r = Ok m" for m
    using database_Get_row [OF assms(1)] assms(2) that by blast
  have opened: "r \<in> range Ok" if "a = ZeroId" "Open B t d = None"
    using database_Get_opens [of B t d i] assms(2) that by auto
  have one: "case store B d i a of None \<Rightarrow> r \<in> range Err | Some v \<Rightarrow> r = Ok [(a, v)]"
    if "i \<noteq> ZeroId" "a \<noteq> ZeroId" "Open B t d = None"
    using database_Get_one_found [OF that] database_Get_one_missing [OF that(1,2), of B d t] assms(2)
    by (auto split: option.split)
  show ?thesis
    using d row opened one database_Get_not_Panic [of B t i a d d'] assms(2) by blast
qed

theorem get_reads_table_witness:
  "fst (database_Get demo_badger 0 (small_id 1) (small_id 2) [(Bytes (small_id 1) @ Bytes (small_id 2), [7])]) =
     Ok [(small_id 2, [7])]"
  using get_reads_table [OF demo_badger_ok prod.collapse [symmetric],
      of 0 "small_id 1" "small_id 2" "[(Bytes (small_id 1) @ Bytes (small_id 2), [7])]"]
  by (simp add: store_def demo_kv) (simp add: demo_badger_def)

text \<open>
  C31. Delete: when it succeeds, the row of the item and its entry in the index are gone and every
  other row is as it was; deleting \<open>ZeroId\<close> empties the index.
\<close>

theorem delete_refines_table:
  assumes "badger_ok B" and "database_Delete B t i d = (Ok (), d')"
  shows "store B d' = table_delete i (store B d) \<and> (keys_ok B d \<longrightarrow> keys_ok B d')"
  using database_Delete_Ok [OF assms] by blast

theorem delete_refines_table_witness:
  "store demo_badger (snd (database_Delete demo_badger 0 (small_id 1) [(Bytes (small_id 1) @ Bytes (small_id 2), [7])]))
     (small_id 1) (small_id 2) = None"
proof -
  have "fst (database_Delete demo_badger 0 (small_id 1) d) = Ok ()" for d
    by (simp add: database_Delete_def buildDatabaseKey_def demo_badger_def)
  then have "database_Delete demo_badger 0 (small_id 1) d =
      (Ok (), snd (database_Delete demo_badger 0 (small_id 1) d))" for d
    by (metis prod.collapse)
  from delete_refines_table [OF demo_badger_ok this] show ?thesis
    by (simp add: table_delete_def)
qed

end
