(* ===== verification/Data_Adapters.thy ===== *)
theory Data_Adapters
  imports Database
begin

text \<open>
  \<open>main/data/adapters.go\<close>: devices read from and written to the attribute table. Each constructor
  \<open>NewX(deps)\<close> that returns a closure is a definition that takes the same dependencies, then the
  closure's arguments, then the state. \<open>mapOrder\<close> stands for the order of Go's map iteration.
  The theorems show the readers to be functions of the table row alone, and saving and loading a
  device to be inverse.
\<close>

section \<open>The adapters\<close>

definition NewGetDeviceIdsDataAdapter ::
  "(Id list \<Rightarrow> ('w, Id list) act) \<Rightarrow> (Id \<Rightarrow> Id \<Rightarrow> ('w, (Id, bytes) gomap) act) \<Rightarrow> ('w, Id list) act" where
  "NewGetDeviceIdsDataAdapter mapOrder getData =
     bind (getData ZeroId ZeroId) (\<lambda>data. mapOrder (keys data))"

definition NewGetDeviceOwnerAttributeAdapter ::
  "uuid_pkg \<Rightarrow> (Id \<Rightarrow> Id \<Rightarrow> ('w, (Id, bytes) gomap) act) \<Rightarrow> Id \<Rightarrow> ('w, Id) act" where
  "NewGetDeviceOwnerAttributeAdapter U getData deviceId =
     (let ownerAttr = NewStringId U ''owner''
      in bind (getData deviceId ownerAttr) (\<lambda>data.
           pure (NewBytesId (index_nil data ownerAttr))))"

definition NewGetStateVersionAttributeAdapter ::
  "uuid_pkg \<Rightarrow> (Id \<Rightarrow> Id \<Rightarrow> ('w, (Id, bytes) gomap) act) \<Rightarrow> Id \<Rightarrow> ('w, int64) act" where
  "NewGetStateVersionAttributeAdapter U getData deviceId =
     (let versionAttr = NewStringId U ''version''
      in bind (getData deviceId versionAttr) (\<lambda>data.
           pure (BytesToInt64 (index_nil data versionAttr))))"

text \<open>The variables of the loop over the attributes: owner, type, state, version.\<close>

type_synonym attributes = "Id \<times> DeviceType \<times> DeviceState \<times> int64"

fun readAttributes :: "uuid_pkg \<Rightarrow> (Id, bytes) gomap \<Rightarrow> Id list \<Rightarrow> attributes \<Rightarrow> attributes result" where
  "readAttributes U data [] vars = Ok vars"
| "readAttributes U data (attr # rest) (ownerId, deviceType, deviceState, stateVersion) =
     (if attr = NewStringId U ''owner'' then
        (case NewBytesId (index_nil data attr) of
           Ok i \<Rightarrow> readAttributes U data rest (i, deviceType, deviceState, stateVersion)
         | _ \<Rightarrow> readAttributes U data rest (ZeroId, deviceType, deviceState, stateVersion))
      else if attr = NewStringId U ''type'' then
        readAttributes U data rest (ownerId, BytesToByte (index_nil data attr), deviceState, stateVersion)
      else if attr = NewStringId U ''state'' then
        readAttributes U data rest (ownerId, deviceType, BytesToByte (index_nil data attr), stateVersion)
      else if attr = NewStringId U ''version'' then
        (case BytesToInt64 (index_nil data attr) of
           Ok value \<Rightarrow> readAttributes U data rest (ownerId, deviceType, deviceState, value)
         | Err e \<Rightarrow> Err e
         | Panic \<Rightarrow> Panic)
      else readAttributes U data rest (ownerId, deviceType, deviceState, stateVersion))"

definition NewGetDeviceDataAdapter ::
  "uuid_pkg \<Rightarrow> (Id list \<Rightarrow> ('w, Id list) act) \<Rightarrow> (Id \<Rightarrow> Id \<Rightarrow> ('w, (Id, bytes) gomap) act) \<Rightarrow>
   Id \<Rightarrow> ('w, Device) act" where
  "NewGetDeviceDataAdapter U mapOrder getData deviceId =
     bind (getData deviceId ZeroId) (\<lambda>data.
     bind (mapOrder (keys data)) (\<lambda>attrs.
     bind (pure (readAttributes U data attrs (ZeroId, DeviceTypeUnknown, DeviceStateOff, 0)))
       (\<lambda>(ownerId, deviceType, deviceState, stateVersion).
          if deviceType = DeviceTypeUnknown then raise ErrDataFormat
          else return (NewDevice deviceId ownerId deviceType deviceState stateVersion))))"

definition NewCreateDeviceDataAdapter ::
  "uuid_pkg \<Rightarrow> (Id \<Rightarrow> (Id, bytes) gomap \<Rightarrow> ('w, unit) act) \<Rightarrow> Device \<Rightarrow> ('w, unit) act" where
  "NewCreateDeviceDataAdapter U saveData device =
     saveData (dev_id device)
       (AList.update (NewStringId U ''owner'') (Bytes (dev_owner device))
       (AList.update (NewStringId U ''version'') (Int64ToBytes (dev_version device))
       (AList.update (NewStringId U ''state'') (ByteToBytes (dev_state device))
       (AList.update (NewStringId U ''type'') (ByteToBytes (dev_type device)) []))))"

definition NewPatchStateDataAdapter ::
  "uuid_pkg \<Rightarrow> (Id \<Rightarrow> (Id, bytes) gomap \<Rightarrow> ('w, unit) act) \<Rightarrow> Id \<Rightarrow> DeviceState \<Rightarrow> int64 \<Rightarrow> ('w, unit) act" where
  "NewPatchStateDataAdapter U saveData deviceId newState newVersion =
     saveData deviceId
       (AList.update (NewStringId U ''version'') (Int64ToBytes newVersion)
       (AList.update (NewStringId U ''state'') (ByteToBytes newState) []))"

section \<open>Devices as rows of the table\<close>

text \<open>
  The four attribute names have four distinct identifiers, none of them zero: a fact of the name-based
  identifiers of the package \<open>uuid\<close>, which the code relies on.
\<close>

definition attribute_ids_ok :: "uuid_pkg \<Rightarrow> bool" where
  "attribute_ids_ok U \<longleftrightarrow>
     distinct [NewStringId U ''owner'', NewStringId U ''type'', NewStringId U ''state'',
       NewStringId U ''version'', ZeroId]"

text \<open>The device a row of attributes stands for, and whether reading it panics.\<close>

definition row_attributes :: "uuid_pkg \<Rightarrow> (Id \<Rightarrow> bytes option) \<Rightarrow> attributes result" where
  "row_attributes U row =
     (case (case row (NewStringId U ''version'') of None \<Rightarrow> Ok 0 | Some b \<Rightarrow> BytesToInt64 b) of
        Ok v \<Rightarrow> Ok
          (case row (NewStringId U ''owner'') of
             None \<Rightarrow> ZeroId
           | Some b \<Rightarrow> (case NewBytesId b of Ok i \<Rightarrow> i | _ \<Rightarrow> ZeroId),
           case row (NewStringId U ''type'') of None \<Rightarrow> DeviceTypeUnknown | Some b \<Rightarrow> BytesToByte b,
           case row (NewStringId U ''state'') of None \<Rightarrow> DeviceStateOff | Some b \<Rightarrow> BytesToByte b,
           v)
      | Err e \<Rightarrow> Err e
      | Panic \<Rightarrow> Panic)"

definition row_device :: "uuid_pkg \<Rightarrow> Id \<Rightarrow> (Id \<Rightarrow> bytes option) \<Rightarrow> Device result" where
  "row_device U i row =
     (case row_attributes U row of
        Ok (ow, ty, st, v) \<Rightarrow>
          (if ty = DeviceTypeUnknown then Err ErrDataFormat else Ok (NewDevice i ow ty st v))
      | Err e \<Rightarrow> Err e
      | Panic \<Rightarrow> Panic)"

text \<open>The row that holds a device.\<close>

definition device_row :: "uuid_pkg \<Rightarrow> Device \<Rightarrow> Id \<Rightarrow> bytes option" where
  "device_row U d =
     [NewStringId U ''type'' \<mapsto> ByteToBytes (dev_type d),
      NewStringId U ''state'' \<mapsto> ByteToBytes (dev_state d),
      NewStringId U ''version'' \<mapsto> Int64ToBytes (dev_version d),
      NewStringId U ''owner'' \<mapsto> Bytes (dev_owner d)]"

lemma attribute_ids_distinct:
  assumes "attribute_ids_ok U"
  shows "NewStringId U ''owner'' \<noteq> NewStringId U ''type''" "NewStringId U ''owner'' \<noteq> NewStringId U ''state''"
    "NewStringId U ''owner'' \<noteq> NewStringId U ''version''" "NewStringId U ''type'' \<noteq> NewStringId U ''state''"
    "NewStringId U ''type'' \<noteq> NewStringId U ''version''" "NewStringId U ''state'' \<noteq> NewStringId U ''version''"
    "NewStringId U ''owner'' \<noteq> ZeroId" "NewStringId U ''type'' \<noteq> ZeroId"
    "NewStringId U ''state'' \<noteq> ZeroId" "NewStringId U ''version'' \<noteq> ZeroId"
  using assms by (auto simp: attribute_ids_ok_def)

text \<open>The loop over the attributes gives the row's attributes, whatever the order.\<close>

lemma readAttributes_spec:
  assumes U: "attribute_ids_ok U"
  shows "readAttributes U data attrs (ow, ty, st, v) =
    (case (if NewStringId U ''version'' \<in> set attrs
           then BytesToInt64 (index_nil data (NewStringId U ''version'')) else Ok v) of
       Ok v' \<Rightarrow> Ok
         (if NewStringId U ''owner'' \<in> set attrs
          then (case NewBytesId (index_nil data (NewStringId U ''owner'')) of Ok i \<Rightarrow> i | _ \<Rightarrow> ZeroId)
          else ow,
          if NewStringId U ''type'' \<in> set attrs
          then BytesToByte (index_nil data (NewStringId U ''type'')) else ty,
          if NewStringId U ''state'' \<in> set attrs
          then BytesToByte (index_nil data (NewStringId U ''state'')) else st,
          v')
     | Err e \<Rightarrow> Err e
     | Panic \<Rightarrow> Panic)"
proof (induction attrs arbitrary: ow ty st v)
  case (Cons a attrs)
  note ids = attribute_ids_distinct [OF U] attribute_ids_distinct [OF U, symmetric]
  consider "a = NewStringId U ''owner''" | "a = NewStringId U ''type''"
    | "a = NewStringId U ''state''" | "a = NewStringId U ''version''"
    | (other) "a \<noteq> NewStringId U ''owner''" "a \<noteq> NewStringId U ''type''"
      "a \<noteq> NewStringId U ''state''" "a \<noteq> NewStringId U ''version''"
    by blast
  then show ?case
  proof cases
    case 1
    then show ?thesis
      by (cases "NewBytesId (index_nil data a)") (simp_all add: Cons.IH ids split: result.split)
  next
    case 4
    then show ?thesis
      by (cases "BytesToInt64 (index_nil data a)") (simp_all add: Cons.IH ids split: result.split)
  next
    case other
    then show ?thesis by (simp add: Cons.IH other [symmetric])
  qed (simp_all add: Cons.IH ids split: result.split)
qed simp

lemma readAttributes_row:
  assumes "attribute_ids_ok U" and "mset attrs = mset (keys data)" and "map_of data = row"
  shows "readAttributes U data attrs (ZeroId, DeviceTypeUnknown, DeviceStateOff, 0) = row_attributes U row"
proof -
  have mem: "a \<in> set attrs \<longleftrightarrow> row a \<noteq> None" for a
    using mset_eq_setD [OF assms(2)] assms(3) keys_set [of data] by auto
  show ?thesis
    unfolding readAttributes_spec [OF assms(1)] row_attributes_def mem index_nil_def assms(3)
    by (cases "row (NewStringId U ''owner'')"; cases "row (NewStringId U ''type'')";
        cases "row (NewStringId U ''state'')"; cases "row (NewStringId U ''version'')")
      (simp_all split: result.split)
qed

text \<open>What the adapters write is the row of the device; reading it back gives the device.\<close>

lemma device_row_attributes:
  "attribute_ids_ok U \<Longrightarrow>
   row_attributes U (device_row U d) = Ok (dev_owner d, dev_type d, dev_state d, dev_version d)"
  using attribute_ids_distinct [of U] by (simp add: row_attributes_def device_row_def)

lemma row_device_device_row:
  "attribute_ids_ok U \<Longrightarrow>
   row_device U (dev_id d) (device_row U d) =
     (if dev_type d = DeviceTypeUnknown then Err ErrDataFormat else Ok d)"
  by (simp add: row_device_def device_row_attributes)

context attribute_store
begin

lemma NewGetDeviceDataAdapter_spec:
  assumes "attribute_ids_ok U" and "inv w"
    and "NewGetDeviceDataAdapter U mapOrder getData i w = (r, w')"
  shows "table_of w' = table_of w" and "inv w'"
    and "(\<exists>e w1. getData i ZeroId w = (Err e, w1) \<and> r = Err e) \<or> r = row_device U i (table_of w i)"
proof -
  obtain g w1 where g: "getData i ZeroId w = (g, w1)" by (cases "getData i ZeroId w")
  note frame1 = get_frame [OF assms(2) g]
  have "table_of w' = table_of w \<and> inv w' \<and>
    ((\<exists>e w1. getData i ZeroId w = (Err e, w1) \<and> r = Err e) \<or> r = row_device U i (table_of w i))"
  proof (cases g)
    case (Ok data)
    note row = get_row [OF assms(2) g [unfolded Ok]]
    obtain q w2 where order: "mapOrder (keys data) w1 = (q, w2)"
      by (cases "mapOrder (keys data) w1")
    then obtain ks where ks: "q = Ok ks" "mset ks = mset (keys data)"
      and frame2: "table_of w2 = table_of w1" "inv w2"
      using order_keys frame1 by blast
    show ?thesis
      using assms(3) g order Ok ks(1) frame1 frame2
        readAttributes_row [OF assms(1) ks(2) conjunct1 [OF row]]
      by (auto simp: NewGetDeviceDataAdapter_def act_simps row_device_def
          split: result.splits prod.splits if_splits)
  next
    case (Err e)
    then show ?thesis
      using assms(3) g frame1 by (auto simp: NewGetDeviceDataAdapter_def act_simps)
  next
    case Panic
    then show ?thesis using frame1 by simp
  qed
  then show "table_of w' = table_of w" "inv w'"
    "(\<exists>e w1. getData i ZeroId w = (Err e, w1) \<and> r = Err e) \<or> r = row_device U i (table_of w i)"
    by blast+
qed

lemma NewGetDeviceOwnerAttributeAdapter_spec:
  assumes "attribute_ids_ok U" and "inv w"
    and "NewGetDeviceOwnerAttributeAdapter U getData i w = (r, w')"
  shows "table_of w' = table_of w" and "inv w'" and "r \<noteq> Panic"
    and "r = Ok ow \<Longrightarrow> i \<noteq> ZeroId \<and> table_of w i (NewStringId U ''owner'') = Some (Bytes ow)"
proof -
  obtain g w1 where g: "getData i (NewStringId U ''owner'') w = (g, w1)"
    by (cases "getData i (NewStringId U ''owner'') w")
  note frame1 = get_frame [OF assms(2) g]
  have r: "w' = w1" "r = (case g of Ok m \<Rightarrow> NewBytesId (index_nil m (NewStringId U ''owner'')) | Err e \<Rightarrow> Err e | Panic \<Rightarrow> Panic)"
    using assms(3) g
    by (auto simp: NewGetDeviceOwnerAttributeAdapter_def Let_def act_simps split: result.splits)
  then show "table_of w' = table_of w" "inv w'" "r \<noteq> Panic"
    using frame1 by (auto split: result.splits)
  assume ok: "r = Ok ow"
  then obtain m where m: "g = Ok m" "index_nil m (NewStringId U ''owner'') = Bytes ow"
    using r by (auto simp: NewBytesId_Ok_iff split: result.splits)
  have owner: "NewStringId U ''owner'' \<noteq> ZeroId" by (rule attribute_ids_distinct [OF assms(1)])
  have "i \<noteq> ZeroId"
    using get_zero [OF assms(2) owner] g m by (auto simp: index_nil_def)
  then show "i \<noteq> ZeroId \<and> table_of w i (NewStringId U ''owner'') = Some (Bytes ow)"
    using get_one [OF assms(2) _ owner] g m by (auto simp: index_nil_def split: option.splits)
qed

lemma NewGetStateVersionAttributeAdapter_spec:
  assumes "attribute_ids_ok U" and "inv w"
    and "NewGetStateVersionAttributeAdapter U getData i w = (r, w')"
  shows "table_of w' = table_of w" and "inv w'"
    and "r = Ok v \<Longrightarrow> i \<noteq> ZeroId \<Longrightarrow>
      \<exists>b. table_of w i (NewStringId U ''version'') = Some b \<and> BytesToInt64 b = Ok v"
    and "i = ZeroId \<Longrightarrow> r = Ok v \<Longrightarrow> v = 0"
    and "r = Panic \<Longrightarrow> i \<noteq> ZeroId \<and>
      (\<exists>b. table_of w i (NewStringId U ''version'') = Some b \<and> BytesToInt64 b = Panic)"
proof -
  obtain g w1 where g: "getData i (NewStringId U ''version'') w = (g, w1)"
    by (cases "getData i (NewStringId U ''version'') w")
  note frame1 = get_frame [OF assms(2) g]
  have r: "w' = w1" "r = (case g of Ok m \<Rightarrow> BytesToInt64 (index_nil m (NewStringId U ''version'')) | Err e \<Rightarrow> Err e | Panic \<Rightarrow> Panic)"
    using assms(3) g
    by (auto simp: NewGetStateVersionAttributeAdapter_def Let_def act_simps split: result.splits)
  then show "table_of w' = table_of w" "inv w'"
    using frame1 by auto
  have version: "NewStringId U ''version'' \<noteq> ZeroId" by (rule attribute_ids_distinct [OF assms(1)])
  have found: "\<exists>b. table_of w i (NewStringId U ''version'') = Some b \<and> BytesToInt64 b = r"
    if "i \<noteq> ZeroId" "g = Ok m" for m
    using get_one [OF assms(2) that(1) version] g that r(2)
    by (auto simp: index_nil_def split: option.splits)
  have zero: "r = Ok 0" if "i = ZeroId" "g = Ok m" for m
    using get_zero [OF assms(2) version] g that r(2) by (simp add: index_nil_def BytesToInt64_def)
  show "r = Ok v \<Longrightarrow> i \<noteq> ZeroId \<Longrightarrow>
      \<exists>b. table_of w i (NewStringId U ''version'') = Some b \<and> BytesToInt64 b = Ok v"
    using found r by (cases g) auto
  show "i = ZeroId \<Longrightarrow> r = Ok v \<Longrightarrow> v = 0"
    using zero r by (cases g) auto
  show "r = Panic \<Longrightarrow> i \<noteq> ZeroId \<and>
      (\<exists>b. table_of w i (NewStringId U ''version'') = Some b \<and> BytesToInt64 b = Panic)"
    using found zero r frame1 by (cases g; cases "i = ZeroId") auto
qed

end

section \<open>The devices of a table\<close>

text \<open>
  A table the program has written: each row but that of \<open>ZeroId\<close> is empty or the row of a device, and
  the index lists the rows that are not. The identifiers of the attribute names are left out of the
  index: a device with the identifier \<open>ZeroId\<close> would be stored as entries of the index itself.
\<close>

definition attribute_ids :: "uuid_pkg \<Rightarrow> Id list" where
  "attribute_ids U = [NewStringId U ''owner'', NewStringId U ''type'', NewStringId U ''state'',
     NewStringId U ''version'']"

definition rows_ok :: "uuid_pkg \<Rightarrow> table \<Rightarrow> bool" where
  "rows_ok U T \<longleftrightarrow>
     (\<forall>i. i \<noteq> ZeroId \<longrightarrow> T i = Map.empty \<or> (\<exists>d. dev_id d = i \<and> T i = device_row U d))"

definition index_ok :: "uuid_pkg \<Rightarrow> table \<Rightarrow> bool" where
  "index_ok U T \<longleftrightarrow>
     (\<forall>i. i \<noteq> ZeroId \<longrightarrow> i \<notin> set (attribute_ids U) \<longrightarrow> T ZeroId i \<noteq> None \<longleftrightarrow> T i \<noteq> Map.empty) \<and>
     (\<forall>v. T ZeroId (NewStringId U ''version'') = Some v \<longrightarrow> BytesToInt64 v \<noteq> Panic) \<and>
     T ZeroId ZeroId = None"

definition table_ok :: "uuid_pkg \<Rightarrow> table \<Rightarrow> bool" where
  "table_ok U T \<longleftrightarrow> rows_ok U T \<and> index_ok U T"

text \<open>The device a row holds, read off its four attributes.\<close>

definition stored_device :: "uuid_pkg \<Rightarrow> table \<Rightarrow> Id \<Rightarrow> Device option" where
  "stored_device U T i =
     (if i = ZeroId then None
      else case (T i (NewStringId U ''owner''), T i (NewStringId U ''type''),
             T i (NewStringId U ''state''), T i (NewStringId U ''version'')) of
        (Some ow, Some ty, Some st, Some v) \<Rightarrow>
          (case (NewBytesId ow, BytesToInt64 v) of
             (Ok ow', Ok v') \<Rightarrow> Some (NewDevice i ow' (BytesToByte ty) (BytesToByte st) v')
           | _ \<Rightarrow> None)
      | _ \<Rightarrow> None)"

definition state_row :: "uuid_pkg \<Rightarrow> DeviceState \<Rightarrow> int64 \<Rightarrow> Id \<Rightarrow> bytes option" where
  "state_row U s v =
     [NewStringId U ''state'' \<mapsto> ByteToBytes s, NewStringId U ''version'' \<mapsto> Int64ToBytes v]"

lemma device_row_not_empty [simp]: "device_row U d \<noteq> Map.empty"
  by (auto simp: device_row_def dest: fun_cong [of _ _ "NewStringId U ''owner''"])

lemma empty_not_device_row [simp]: "Map.empty \<noteq> device_row U d"
  using device_row_not_empty [of U d] by metis

lemma dom_device_row: "dom (device_row U d) = set (attribute_ids U)"
  by (auto simp: device_row_def attribute_ids_def)

lemma device_row_lookup:
  assumes "attribute_ids_ok U"
  shows "device_row U d (NewStringId U ''owner'') = Some (Bytes (dev_owner d))"
    and "device_row U d (NewStringId U ''type'') = Some (ByteToBytes (dev_type d))"
    and "device_row U d (NewStringId U ''state'') = Some (ByteToBytes (dev_state d))"
    and "device_row U d (NewStringId U ''version'') = Some (Int64ToBytes (dev_version d))"
  using attribute_ids_distinct [OF assms] by (simp_all add: device_row_def)

lemma device_row_ZeroId: "attribute_ids_ok U \<Longrightarrow> device_row U d ZeroId = None"
  using attribute_ids_distinct [of U] by (simp add: device_row_def)

lemma stored_device_row:
  "attribute_ids_ok U \<Longrightarrow> dev_id d \<noteq> ZeroId \<Longrightarrow> T (dev_id d) = device_row U d \<Longrightarrow>
   stored_device U T (dev_id d) = Some d"
  using attribute_ids_distinct [of U] by (simp add: stored_device_def device_row_def)

lemma stored_device_zero [simp]: "stored_device U T ZeroId = None"
  by (simp add: stored_device_def)

lemma stored_device_empty: "T i = Map.empty \<Longrightarrow> stored_device U T i = None"
  by (simp add: stored_device_def)

lemma stored_device_cong: "T i = T' i \<Longrightarrow> stored_device U T i = stored_device U T' i"
  by (simp add: stored_device_def)

lemma rows_cases:
  assumes "attribute_ids_ok U" and "rows_ok U T"
  obtains (zero) "i = ZeroId" | (none) "i \<noteq> ZeroId" "T i = Map.empty" "stored_device U T i = None"
  | (some) d where "i \<noteq> ZeroId" "dev_id d = i" "T i = device_row U d" "stored_device U T i = Some d"
  using assms stored_device_row [OF assms(1)] stored_device_empty unfolding rows_ok_def by metis

lemma device_row_inj:
  assumes "attribute_ids_ok U" and "device_row U d = device_row U d'" and "dev_id d = dev_id d'"
  shows "d = d'"
proof -
  have "dev_owner d = dev_owner d' \<and> dev_type d = dev_type d' \<and> dev_state d = dev_state d' \<and>
      dev_version d = dev_version d'"
    using device_row_attributes [OF assms(1), of d] device_row_attributes [OF assms(1), of d'] assms(2)
    by (metis prod.inject result.inject(1))
  then show ?thesis
    using assms(3) by (metis NewDevice_collapse)
qed

lemma stored_device_iff:
  assumes "attribute_ids_ok U" and "rows_ok U T"
  shows "stored_device U T i = Some d \<longleftrightarrow> i \<noteq> ZeroId \<and> dev_id d = i \<and> T i = device_row U d"
  by (rule rows_cases [OF assms, of i]) (auto dest: device_row_inj [OF assms(1)])

lemma stored_device_None:
  assumes "attribute_ids_ok U" and "rows_ok U T"
  shows "stored_device U T i = None \<longleftrightarrow> i = ZeroId \<or> T i = Map.empty"
  by (rule rows_cases [OF assms, of i]) auto

lemma table_set_other: "j \<noteq> i \<Longrightarrow> j \<noteq> ZeroId \<Longrightarrow> table_set i data T j = T j"
  by (rule ext) (simp add: table_set_def)

lemma table_set_index:
  "dom data \<subseteq> set (attribute_ids U) \<Longrightarrow> a \<notin> set (attribute_ids U) \<Longrightarrow>
   table_set i data T ZeroId a = (if a = i \<and> i \<noteq> ZeroId then Some [] else T ZeroId a)"
  by (auto simp: table_set_def)

lemma table_set_row:
  "i \<noteq> ZeroId \<Longrightarrow> table_set i data T i = (\<lambda>a. if data a \<noteq> None then data a else T i a)"
  by (rule ext) (simp add: table_set_def)

lemma index_ok_table_set:
  assumes "index_ok U T" and "dom data \<subseteq> set (attribute_ids U)" and "data \<noteq> Map.empty"
    and "\<And>v. data (NewStringId U ''version'') = Some v \<Longrightarrow> BytesToInt64 v \<noteq> Panic" and "data ZeroId = None"
  shows "index_ok U (table_set i data T)"
proof -
  have "(\<lambda>a. if data a \<noteq> None then data a else T i a) \<noteq> Map.empty"
    using assms(3) by (metis ext)
  moreover have "BytesToInt64 v \<noteq> Panic"
    if "table_set i data T ZeroId (NewStringId U ''version'') = Some v" for v
    using that assms(1,4) by (auto simp: table_set_def index_ok_def BytesToInt64_def split: if_splits)
  moreover have "table_set i data T ZeroId ZeroId = None"
    using assms(1,5) by (auto simp: table_set_def index_ok_def)
  ultimately show ?thesis
    using assms(1)
    by (auto simp: index_ok_def table_set_index [OF assms(2)] table_set_row table_set_other
        simp del: fun_upd_apply)
qed

text \<open>What the three ways of writing a table do to its devices.\<close>

lemma table_set_device:
  assumes U: "attribute_ids_ok U" and T: "table_ok U T"
  shows "table_ok U (table_set (dev_id d) (device_row U d) T)"
    and "stored_device U (table_set (dev_id d) (device_row U d) T) =
      (stored_device U T)(dev_id d := if dev_id d = ZeroId then None else Some d)"
proof -
  let ?T = "table_set (dev_id d) (device_row U d) T"
  have row: "?T (dev_id d) = device_row U d" if "dev_id d \<noteq> ZeroId"
  proof (rule ext)
    fix a
    show "?T (dev_id d) a = device_row U d a"
    proof (cases "device_row U d a = None")
      case True
      then have "a \<notin> set (attribute_ids U)" using dom_device_row [of U d] by auto
      then have "T (dev_id d) a = None"
        using T that dom_device_row unfolding table_ok_def rows_ok_def by (metis domIff)
      then show ?thesis using that True by (simp add: table_set_def)
    qed (use that in \<open>simp add: table_set_def\<close>)
  qed
  have other: "?T j = T j" if "j \<noteq> dev_id d" "j \<noteq> ZeroId" for j
    using that by (rule table_set_other)
  have "rows_ok U ?T"
    using T row other unfolding table_ok_def rows_ok_def by metis
  moreover have "index_ok U ?T"
    using T by (intro index_ok_table_set) (auto simp: table_ok_def dom_device_row device_row_lookup [OF U] device_row_ZeroId [OF U])
  ultimately show "table_ok U ?T" by (simp add: table_ok_def)
  show "stored_device U ?T =
      (stored_device U T)(dev_id d := if dev_id d = ZeroId then None else Some d)"
  proof (rule ext)
    fix j
    consider "j = ZeroId" | "j \<noteq> ZeroId" "j = dev_id d" | "j \<noteq> ZeroId" "j \<noteq> dev_id d"
      by blast
    then show "stored_device U ?T j =
      ((stored_device U T)(dev_id d := if dev_id d = ZeroId then None else Some d)) j"
      by cases (use stored_device_row [OF U, of d] row other stored_device_cong [of ?T j T U] in auto)
  qed
qed

lemma state_row_dom: "dom (state_row U s v) \<subseteq> set (attribute_ids U)" "state_row U s v \<noteq> Map.empty"
  by (auto simp: state_row_def attribute_ids_def dest: fun_cong [of _ _ "NewStringId U ''state''"])

lemma table_set_state:
  assumes U: "attribute_ids_ok U" and T: "table_ok U T" and d: "stored_device U T i = Some d"
  shows "table_ok U (table_set i (state_row U s v) T)"
    and "stored_device U (table_set i (state_row U s v) T) =
      (stored_device U T)(i \<mapsto> d\<lparr>dev_state := s, dev_version := v\<rparr>)"
proof -
  let ?T = "table_set i (state_row U s v) T" and ?d = "d\<lparr>dev_state := s, dev_version := v\<rparr>"
  have i: "i \<noteq> ZeroId" "dev_id d = i" "T i = device_row U d"
    using d T stored_device_iff [OF U] by (auto simp: table_ok_def)
  have row: "?T i = device_row U ?d"
    unfolding table_set_row [OF i(1)] i(3)
    using attribute_ids_distinct [OF U] by (auto simp: device_row_def state_row_def)
  have other: "?T j = T j" if "j \<noteq> i" "j \<noteq> ZeroId" for j
    using that by (rule table_set_other)
  have "rows_ok U ?T"
    unfolding rows_ok_def
  proof (intro allI impI)
    fix j assume "j \<noteq> ZeroId"
    then show "?T j = Map.empty \<or> (\<exists>d. dev_id d = j \<and> ?T j = device_row U d)"
      using T i(2) row other by (cases "j = i") (fastforce simp: table_ok_def rows_ok_def)+
  qed
  moreover have "index_ok U ?T"
    using T by (intro index_ok_table_set state_row_dom) (auto simp: table_ok_def state_row_def attribute_ids_distinct [OF U, symmetric])
  ultimately show "table_ok U ?T" by (simp add: table_ok_def)
  show "stored_device U ?T = (stored_device U T)(i \<mapsto> ?d)"
  proof (rule ext)
    fix j
    consider "j = ZeroId" | "j \<noteq> ZeroId" "j = i" | "j \<noteq> ZeroId" "j \<noteq> i" by blast
    then show "stored_device U ?T j = ((stored_device U T)(i \<mapsto> ?d)) j"
      by cases (use stored_device_row [OF U, of ?d ?T] i row other stored_device_cong [of ?T j T U] in auto)
  qed
qed

lemma table_delete_device:
  assumes "table_ok U T" and "i \<noteq> ZeroId"
  shows "table_ok U (table_delete i T)"
    and "stored_device U (table_delete i T) = (stored_device U T)(i := None)"
proof -
  have rows: "table_delete i T j = (if j = i then Map.empty else T j)" if "j \<noteq> ZeroId" for j
    using that by (auto simp: table_delete_def)
  have index: "table_delete i T ZeroId j = (if j = i then None else T ZeroId j)" for j
    using assms(2) by (simp add: table_delete_def)
  show "table_ok U (table_delete i T)"
    using assms by (simp add: table_ok_def rows_ok_def index_ok_def rows index)
  show "stored_device U (table_delete i T) = (stored_device U T)(i := None)"
  proof (rule ext)
    fix j
    show "stored_device U (table_delete i T) j = ((stored_device U T)(i := None)) j"
      using assms(2) rows [of j] stored_device_cong [of "table_delete i T" j T U]
      by (cases "j = ZeroId"; cases "j = i") (auto simp: stored_device_empty)
  qed
qed

text \<open>The index of a table in order lists its devices.\<close>

lemma index_not_zero: "table_ok U T \<Longrightarrow> T ZeroId i \<noteq> None \<Longrightarrow> i \<noteq> ZeroId"
  by (auto simp: table_ok_def index_ok_def)

lemma index_lists_devices:
  assumes "attribute_ids_ok U" and "table_ok U T" and "i \<noteq> ZeroId" and "i \<notin> set (attribute_ids U)"
  shows "T ZeroId i \<noteq> None \<longleftrightarrow> stored_device U T i \<noteq> None"
  using assms stored_device_None [OF assms(1), of T i] by (simp add: table_ok_def index_ok_def)

lemma row_device_stored:
  assumes "attribute_ids_ok U" and "rows_ok U T" and "i \<noteq> ZeroId"
  shows "row_device U i (T i) =
    (case stored_device U T i of
       None \<Rightarrow> Err ErrDataFormat
     | Some d \<Rightarrow> if dev_type d = DeviceTypeUnknown then Err ErrDataFormat else Ok d)"
proof (rule rows_cases [OF assms(1,2), of i])
  fix d assume "dev_id d = i" "T i = device_row U d" "stored_device U T i = Some d"
  then show ?thesis using row_device_device_row [OF assms(1), of d] by simp
qed (use assms(3) in \<open>simp_all add: row_device_def row_attributes_def\<close>)

section \<open>What the adapters do to the devices\<close>

context attribute_store
begin

lemma saveData_wp:
  assumes "inv w" and "wf_map data" and "map_of data = row" and "row ZeroId = None"
  shows "wp (saveData i data) (\<lambda>r w'. inv w' \<and> r \<noteq> Panic \<and>
    table_of w' = (if r = Ok () then table_set i row (table_of w) else table_of w)) w"
proof (rule wpI)
  fix r w'
  assume run: "saveData i data w = (r, w')"
  have "ZeroId \<notin> set (keys data)" using assms(3,4) by (auto simp: keys_set)
  then show "inv w' \<and> r \<noteq> Panic \<and>
    table_of w' = (if r = Ok () then table_set i row (table_of w) else table_of w)"
    using save_Ok [OF assms(1,2)] save_not_Ok [OF assms(1) run] run assms(3)
    by (cases "r = Ok ()") auto
qed

lemma NewCreateDeviceDataAdapter_wp:
  assumes "attribute_ids_ok U" and "inv w"
  shows "wp (NewCreateDeviceDataAdapter U saveData d) (\<lambda>r w'. inv w' \<and> r \<noteq> Panic \<and>
    table_of w' = (if r = Ok () then table_set (dev_id d) (device_row U d) (table_of w) else table_of w)) w"
  unfolding NewCreateDeviceDataAdapter_def
proof (rule saveData_wp [OF assms(2)])
  show "device_row U d ZeroId = None"
    using attribute_ids_distinct [OF assms(1)] by (simp add: device_row_def)
qed (simp only: wf_map_update wf_map_Nil, simp only: update_conv' device_row_def map_of.simps)

lemma NewPatchStateDataAdapter_wp:
  assumes "attribute_ids_ok U" and "inv w"
  shows "wp (NewPatchStateDataAdapter U saveData i s v) (\<lambda>r w'. inv w' \<and> r \<noteq> Panic \<and>
    table_of w' = (if r = Ok () then table_set i (state_row U s v) (table_of w) else table_of w)) w"
  unfolding NewPatchStateDataAdapter_def
proof (rule saveData_wp [OF assms(2)])
  show "state_row U s v ZeroId = None"
    using attribute_ids_distinct [OF assms(1)] by (simp add: state_row_def)
qed (simp only: wf_map_update wf_map_Nil, simp only: update_conv' state_row_def map_of.simps)

lemma NewGetDeviceIdsDataAdapter_wp:
  assumes "inv w"
  shows "wp (NewGetDeviceIdsDataAdapter mapOrder getData) (\<lambda>r w'. inv w' \<and> r \<noteq> Panic \<and>
    table_of w' = table_of w \<and>
    (\<forall>ids. r = Ok ids \<longrightarrow> distinct ids \<and> set ids = dom (table_of w ZeroId))) w"
proof (rule wpI)
  fix r w'
  assume run: "NewGetDeviceIdsDataAdapter mapOrder getData w = (r, w')"
  obtain g w1 where g: "getData ZeroId ZeroId w = (g, w1)" by (cases "getData ZeroId ZeroId w")
  note frame = get_frame [OF assms g]
  show "inv w' \<and> r \<noteq> Panic \<and> table_of w' = table_of w \<and>
    (\<forall>ids. r = Ok ids \<longrightarrow> distinct ids \<and> set ids = dom (table_of w ZeroId))"
  proof (cases g)
    case (Ok m)
    then have "mapOrder (keys m) w1 = (r, w')"
      using run g by (simp add: NewGetDeviceIdsDataAdapter_def act_simps)
    with frame obtain ks where ks: "r = Ok ks" "mset ks = mset (keys m)" "table_of w' = table_of w" "inv w'"
      using order_keys by metis
    moreover have "map_of m = table_of w ZeroId" "wf_map m"
      using get_row [OF assms g [unfolded Ok]] by auto
    ultimately show ?thesis
      using mset_eq_imp_distinct_iff [OF ks(2)] mset_eq_setD [OF ks(2)]
      by (auto simp: keys_set) (simp add: wf_map_def keys_def)
  qed (use run g frame in \<open>auto simp: NewGetDeviceIdsDataAdapter_def act_simps\<close>)
qed

end

lemma demo_ids: "attribute_ids_ok demo_uuid"
  by (simp add: attribute_ids_ok_def NewStringId_def demo_uuid_def StringToBytes_def ZeroId_array)

end
