(* ===== verification/Preferences.thy ===== *)
theory Preferences
  imports Entities
begin

text \<open>
  \<open>main/data/preferences.go\<close>: the identity and the addresses of this host, cached after their first
  use. What the operating system and the package \<open>machineid\<close> answer is an argument of the methods;
  what the code uses of Go's \<open>net\<close> and \<open>fmt\<close> (the predicates on IPv4 addresses, their dotted form,
  \<open>Sprintf("%s:%d")\<close>) is defined here.
\<close>

section \<open>Decimal numbers and IPv4 addresses\<close>

fun decimal :: "nat \<Rightarrow> string" where
  "decimal n = (if n < 10 then [char_of (48 + n)] else decimal (n div 10) @ [char_of (48 + n mod 10)])"

declare decimal.simps [simp del]

definition formatInt :: "int \<Rightarrow> string" where
  "formatInt i = (if i < 0 then ''-'' @ decimal (nat (- i)) else decimal (nat i))"

text \<open>The address of an interface: an \<open>*net.IPNet\<close> with the bytes of its IP, or something else.\<close>

datatype netAddr = IPNet bytes | OtherAddr

definition To4 :: "bytes \<Rightarrow> bytes option" where
  "To4 ip =
     (if length ip = 4 then Some ip
      else if length ip = 16 \<and> take 10 ip = replicate 10 0 \<and> ip ! 10 = 0xff \<and> ip ! 11 = 0xff
      then Some (drop 12 ip)
      else None)"

definition IsLoopback :: "bytes \<Rightarrow> bool" where
  "IsLoopback ip4 \<longleftrightarrow> ip4 ! 0 = 127"

definition IsMulticast :: "bytes \<Rightarrow> bool" where
  "IsMulticast ip4 \<longleftrightarrow> 224 \<le> ip4 ! 0 \<and> ip4 ! 0 \<le> 239"

definition IsPrivate :: "bytes \<Rightarrow> bool" where
  "IsPrivate ip4 \<longleftrightarrow>
     ip4 ! 0 = 10 \<or>
     (ip4 ! 0 = 172 \<and> 16 \<le> ip4 ! 1 \<and> ip4 ! 1 \<le> 31) \<or>
     (ip4 ! 0 = 192 \<and> ip4 ! 1 = 168)"

definition IP_String :: "bytes \<Rightarrow> string" where
  "IP_String ip4 =
     decimal (unat (ip4 ! 0)) @ ''.'' @ decimal (unat (ip4 ! 1)) @ ''.'' @
     decimal (unat (ip4 ! 2)) @ ''.'' @ decimal (unat (ip4 ! 3))"

section \<open>The struct and its methods\<close>

record preferences =
  cachedBroadcastAddress :: string
  cachedLocalAddress :: string
  cachedMachineId :: Id
  httpPort :: int
  udpPort :: int

definition NewPreferences :: "int \<Rightarrow> int \<Rightarrow> preferences" where
  "NewPreferences requestPort messagePort =
     \<lparr>cachedBroadcastAddress = '''', cachedLocalAddress = '''', cachedMachineId = ZeroId,
      httpPort = requestPort, udpPort = messagePort\<rparr>"

text \<open>\<open>machine\<close> is what \<open>machineid.ID()\<close> answers.\<close>

definition preferences_GetHostId ::
  "uuid_pkg \<Rightarrow> error + string \<Rightarrow> preferences \<Rightarrow> Id result \<times> preferences" where
  "preferences_GetHostId U machine r =
     (if cachedMachineId r \<noteq> ZeroId then (Ok (cachedMachineId r), r)
      else
        (case machine of
           Inl err \<Rightarrow> (Err err, r)
         | Inr text \<Rightarrow>
             (case Validate U text of
                Some err \<Rightarrow> (Err err, r)
              | None \<Rightarrow>
                  (let source = NewSHA1 U (NameSpaceURL U) (StringToBytes text)
                   in (Ok source, r\<lparr>cachedMachineId := source\<rparr>)))))"

text \<open>The loop of \<open>findLocalUdpAddresses\<close>, with the named results \<open>broadcast\<close> and \<open>local\<close>.\<close>

fun scanAddresses :: "netAddr list \<Rightarrow> string \<Rightarrow> string \<Rightarrow> string \<times> string" where
  "scanAddresses [] broadcast local = (broadcast, local)"
| "scanAddresses (OtherAddr # rest) broadcast local = scanAddresses rest broadcast local"
| "scanAddresses (IPNet ip # rest) broadcast local =
     (case To4 ip of
        None \<Rightarrow> scanAddresses rest broadcast local
      | Some ip4 \<Rightarrow>
          (if IsLoopback ip4 then scanAddresses rest broadcast local
           else
             (let (broadcast', local') =
                (if IsMulticast ip4 \<and> broadcast = '''' then (IP_String ip4, local)
                 else if IsPrivate ip4 \<and> local = '''' then (broadcast, IP_String ip4)
                 else (broadcast, local))
              in if broadcast' \<noteq> '''' \<and> local' \<noteq> '''' then (broadcast', local')
                 else scanAddresses rest broadcast' local')))"

definition findLocalUdpAddresses :: "error + netAddr list \<Rightarrow> (string \<times> string) result" where
  "findLocalUdpAddresses interfaceAddresses =
     (case interfaceAddresses of
        Inl err \<Rightarrow> Err err
      | Inr addresses \<Rightarrow> Ok (scanAddresses addresses '''' ''''))"

definition withPort :: "string \<Rightarrow> int \<Rightarrow> string" where
  "withPort host port = host @ '':'' @ formatInt port"

definition cacheAddresses :: "string \<Rightarrow> string \<Rightarrow> preferences \<Rightarrow> preferences" where
  "cacheAddresses broadcast local r =
     r\<lparr>cachedBroadcastAddress := withPort broadcast (udpPort r),
       cachedLocalAddress := withPort local (udpPort r)\<rparr>"

definition preferences_GetBroadcastAddress ::
  "error + netAddr list \<Rightarrow> preferences \<Rightarrow> string result \<times> preferences" where
  "preferences_GetBroadcastAddress ifs r =
     (if cachedBroadcastAddress r = '''' then
        (case findLocalUdpAddresses ifs of
           Err err \<Rightarrow> (Err err, r)
         | Panic \<Rightarrow> (Panic, r)
         | Ok (broadcast, local) \<Rightarrow>
             (let r' = cacheAddresses broadcast local r in (Ok (cachedBroadcastAddress r'), r')))
      else (Ok (cachedBroadcastAddress r), r))"

definition preferences_GetLocalAddress ::
  "error + netAddr list \<Rightarrow> preferences \<Rightarrow> string result \<times> preferences" where
  "preferences_GetLocalAddress ifs r =
     (if cachedLocalAddress r = '''' then
        (case findLocalUdpAddresses ifs of
           Err err \<Rightarrow> (Err err, r)
         | Panic \<Rightarrow> (Panic, r)
         | Ok (broadcast, local) \<Rightarrow>
             (let r' = cacheAddresses broadcast local r in (Ok (cachedLocalAddress r'), r')))
      else (Ok (cachedLocalAddress r), r))"

section \<open>The identity is stable\<close>

lemma GetHostId_cases:
  "preferences_GetHostId U machine r = (Ok i, r') \<Longrightarrow>
   cachedMachineId r' = i \<and> (cachedMachineId r \<noteq> ZeroId \<longrightarrow> i = cachedMachineId r \<and> r' = r)"
  by (auto simp: preferences_GetHostId_def Let_def split: if_splits sum.splits option.splits)

lemma GetHostId_stable:
  assumes "preferences_GetHostId U machine r = (Ok i, r')" and "i \<noteq> ZeroId"
  shows "preferences_GetHostId U machine' r' = (Ok i, r')"
  using GetHostId_cases [OF assms(1)] assms(2) by (simp add: preferences_GetHostId_def)

lemma GetHostId_keeps_cached:
  "cachedMachineId r \<noteq> ZeroId \<Longrightarrow> preferences_GetHostId U machine r = (Ok (cachedMachineId r), r)"
  by (simp add: preferences_GetHostId_def)

lemma GetHostId_not_Panic: "fst (preferences_GetHostId U machine r) \<noteq> Panic"
  by (simp add: preferences_GetHostId_def Let_def split: sum.split option.split)

section \<open>The addresses\<close>

lemma withPort_not_Nil [simp]: "withPort h p \<noteq> ''''"
  by (simp add: withPort_def)

text \<open>
  The broadcast address is the empty string exactly beside an error: a successful answer always
  holds at least the colon and the port.
\<close>

lemma GetBroadcastAddress_not_empty:
  "preferences_GetBroadcastAddress ifs r = (Ok a, r') \<Longrightarrow> a \<noteq> ''''"
  by (auto simp: preferences_GetBroadcastAddress_def cacheAddresses_def Let_def
      split: if_splits result.splits prod.splits)

text \<open>The local address is the first private IPv4 address of the interfaces, if there is one.\<close>

fun privateAddresses :: "netAddr list \<Rightarrow> bytes list" where
  "privateAddresses [] = []"
| "privateAddresses (OtherAddr # rest) = privateAddresses rest"
| "privateAddresses (IPNet ip # rest) =
     (case To4 ip of
        None \<Rightarrow> privateAddresses rest
      | Some ip4 \<Rightarrow> if IsPrivate ip4 then ip4 # privateAddresses rest else privateAddresses rest)"

lemma private_not_loopback: "IsPrivate ip4 \<Longrightarrow> \<not> IsLoopback ip4 \<and> \<not> IsMulticast ip4"
  by (auto simp: IsPrivate_def IsLoopback_def IsMulticast_def)

lemma IP_String_not_Nil [simp]: "IP_String ip4 \<noteq> ''''"
  by (simp add: IP_String_def)

lemma scanAddresses_keeps_local: "l \<noteq> '''' \<Longrightarrow> snd (scanAddresses addrs b l) = l"
  by (induction addrs b l rule: scanAddresses.induct) (auto simp: Let_def split: option.splits)

lemma scanAddresses_local:
  "snd (scanAddresses addrs b '''') =
     (case privateAddresses addrs of [] \<Rightarrow> '''' | ip4 # _ \<Rightarrow> IP_String ip4)"
proof (induction addrs arbitrary: b)
  case (Cons x addrs)
  show ?case
    by (cases x)
      (auto simp: Cons.IH Let_def private_not_loopback scanAddresses_keeps_local
        split: option.split list.split)
qed simp

fun multicastAddresses :: "netAddr list \<Rightarrow> bytes list" where
  "multicastAddresses [] = []"
| "multicastAddresses (OtherAddr # rest) = multicastAddresses rest"
| "multicastAddresses (IPNet ip # rest) =
     (case To4 ip of
        None \<Rightarrow> multicastAddresses rest
      | Some ip4 \<Rightarrow> if IsMulticast ip4 then ip4 # multicastAddresses rest else multicastAddresses rest)"

lemma multicast_not_loopback: "IsMulticast ip4 \<Longrightarrow> \<not> IsLoopback ip4"
  by (auto simp: IsMulticast_def IsLoopback_def)

lemma scanAddresses_keeps_broadcast: "b \<noteq> '''' \<Longrightarrow> fst (scanAddresses addrs b l) = b"
  by (induction addrs b l rule: scanAddresses.induct) (auto simp: Let_def split: option.splits)

lemma scanAddresses_broadcast:
  "fst (scanAddresses addrs '''' l) =
     (case multicastAddresses addrs of [] \<Rightarrow> '''' | ip4 # _ \<Rightarrow> IP_String ip4)"
proof (induction addrs arbitrary: l)
  case (Cons x addrs)
  show ?case
    by (cases x)
      (auto simp: Cons.IH Let_def multicast_not_loopback scanAddresses_keeps_broadcast
        split: option.split list.split)
qed simp

section \<open>Properties of the preferences\<close>

text \<open>
  The first question for an address, on a host whose interfaces can be listed, fixes both answers
  for good, whatever the interfaces are later: the local address is the first private IPv4 address
  with the UDP port, the broadcast address the first multicast IPv4 address with the port; where
  there is no such address, the answer is a colon and the port.
\<close>

lemma addresses_cached:
  assumes "cachedLocalAddress r = ''''"
  shows "\<exists>r'. preferences_GetLocalAddress (Inr addrs) r =
      (Ok (withPort (case privateAddresses addrs of [] \<Rightarrow> '''' | ip4 # _ \<Rightarrow> IP_String ip4) (udpPort r)), r') \<and>
    preferences_GetLocalAddress ifs r' = (Ok (cachedLocalAddress r'), r') \<and>
    cachedLocalAddress r' = withPort (case privateAddresses addrs of [] \<Rightarrow> '''' | ip4 # _ \<Rightarrow> IP_String ip4) (udpPort r) \<and>
    preferences_GetBroadcastAddress ifs r' =
      (Ok (withPort (case multicastAddresses addrs of [] \<Rightarrow> '''' | ip4 # _ \<Rightarrow> IP_String ip4) (udpPort r)), r')"
proof -
  obtain b l where scan: "scanAddresses addrs '''' '''' = (b, l)" by (cases "scanAddresses addrs '''' ''''")
  then have "l = (case privateAddresses addrs of [] \<Rightarrow> '''' | ip4 # _ \<Rightarrow> IP_String ip4)"
    "b = (case multicastAddresses addrs of [] \<Rightarrow> '''' | ip4 # _ \<Rightarrow> IP_String ip4)"
    using scanAddresses_local [of addrs "''''"] scanAddresses_broadcast [of addrs "''''"] by simp_all
  with scan assms show ?thesis
    by (simp add: preferences_GetLocalAddress_def preferences_GetBroadcastAddress_def findLocalUdpAddresses_def
        cacheAddresses_def Let_def)
qed

lemma addresses_cached_example:
  "fst (preferences_GetLocalAddress (Inr [IPNet [127, 0, 0, 1], IPNet [10, 0, 0, 7]]) (NewPreferences 80 81)) =
     Ok ''10.0.0.7:81''"
proof -
  have "privateAddresses [IPNet [127, 0, 0, 1], IPNet [10, 0, 0, 7]] = [[10, 0, 0, 7]]"
    by (simp add: To4_def IsPrivate_def)
  moreover have "withPort (IP_String [10, 0, 0, 7]) 81 = ''10.0.0.7:81''"
    by (simp add: withPort_def IP_String_def formatInt_def decimal.simps char_of_def bit_Suc_0_iff)
  moreover have "cachedLocalAddress (NewPreferences 80 81) = ''''" "udpPort (NewPreferences 80 81) = 81"
    by (simp_all add: NewPreferences_def)
  ultimately show ?thesis
    using addresses_cached [of "NewPreferences 80 81" "[IPNet [127, 0, 0, 1], IPNet [10, 0, 0, 7]]" "Inl ErrEOF"]
    by (auto simp del: privateAddresses.simps)
qed

text \<open>
  C38. The identity of a host is stable: once an identifier other than \<open>ZeroId\<close> was answered, every
  later question is answered with it and changes nothing, whatever the operating system says then.
\<close>

theorem host_id_stable:
  assumes "preferences_GetHostId U machine r = (Ok i, r')" and "i \<noteq> ZeroId"
  shows "cachedMachineId r' = i \<and> preferences_GetHostId U machine' r' = (Ok i, r')"
  using GetHostId_cases [OF assms(1)] GetHostId_stable [OF assms] by simp

theorem host_id_stable_witness:
  "preferences_GetHostId demo_uuid (Inl ErrEOF) ((NewPreferences 80 81)\<lparr>cachedMachineId := small_id 5\<rparr>) =
     (Ok (small_id 5), (NewPreferences 80 81)\<lparr>cachedMachineId := small_id 5\<rparr>)"
  using host_id_stable [of demo_uuid "Inl ErrEOF" "(NewPreferences 80 81)\<lparr>cachedMachineId := small_id 5\<rparr>"
      "small_id 5" "(NewPreferences 80 81)\<lparr>cachedMachineId := small_id 5\<rparr>" "Inl ErrEOF"]
  by (simp add: preferences_GetHostId_def)

end
