(* ===== verification/Data_Usecases.thy ===== *)
theory Data_Usecases
  imports Data_Adapters Preferences
begin

text \<open>
  \<open>main/data/usecases.go\<close>. Each constructor takes the functions it is wired with in \<open>lib.go\<close>, on any
  state \<open>'w\<close>. \<open>newRandomId\<close> is \<open>entity.NewRandomId\<close>, \<open>peerOrder\<close> the order of Go's iteration over
  the map of safe peers.
\<close>

section \<open>The use cases\<close>

definition NewCreateDeviceUseCase ::
  "('w, Id) act \<Rightarrow> ('w, Id) act \<Rightarrow> (Device \<Rightarrow> ('w, unit) act) \<Rightarrow> DeviceType \<Rightarrow> DeviceState \<Rightarrow> ('w, Id) act" where
  "NewCreateDeviceUseCase newRandomId getHostId saveDevice deviceType deviceState =
     bind getHostId (\<lambda>hostId.
     bind newRandomId (\<lambda>deviceId.
     (let device = NewDevice deviceId hostId deviceType deviceState 0
      in bind (saveDevice device) (\<lambda>_. return deviceId))))"

definition NewCheckIfOwnerUseCase ::
  "('w, Id) act \<Rightarrow> (Id \<Rightarrow> ('w, Id) act) \<Rightarrow> Id \<Rightarrow> ('w, bool) act" where
  "NewCheckIfOwnerUseCase getHostId getOwnerAttribute deviceId =
     bind getHostId (\<lambda>host.
     bind (getOwnerAttribute deviceId) (\<lambda>owner.
     return (owner = host)))"

definition NewCheckIfNewerUseCase ::
  "(Id \<Rightarrow> ('w, int64) act) \<Rightarrow> Id \<Rightarrow> int64 \<Rightarrow> ('w, bool) act" where
  "NewCheckIfNewerUseCase getVersionAttribute deviceId version =
     bind (getVersionAttribute deviceId) (\<lambda>currentVersion.
     return (sint version > sint currentVersion))"

definition NewGetHostInfoUseCase ::
  "('w, Id) act \<Rightarrow> ('w, string) act \<Rightarrow> ('w, string) act \<Rightarrow> ('w, Host) act" where
  "NewGetHostInfoUseCase getHostId getLocalAddress getBroadcastAddress =
     bind getHostId (\<lambda>i.
     bind getLocalAddress (\<lambda>address.
     bind getBroadcastAddress (\<lambda>broadcast.
     return (NewHost i address broadcast))))"

definition NewPatchStateUseCase ::
  "(Id \<Rightarrow> ('w, bool) act) \<Rightarrow> (Id \<Rightarrow> ('w, Device) act) \<Rightarrow>
   (Id \<Rightarrow> DeviceState \<Rightarrow> int64 \<Rightarrow> ('w, unit) act) \<Rightarrow> (Device \<Rightarrow> ('w, Message) act) \<Rightarrow>
   (Id \<Rightarrow> DeviceState \<Rightarrow> ('w, Message) act) \<Rightarrow> (Id \<Rightarrow> int64 \<Rightarrow> ('w, Peer list) act) \<Rightarrow>
   (Peer \<Rightarrow> Message \<Rightarrow> ('w, unit) act) \<Rightarrow> Id \<Rightarrow> DeviceState \<Rightarrow> ('w, unit) act" where
  "NewPatchStateUseCase checkIfOwner getDevice saveData createSyncMessage createPatchMessage
     getRandomPeers sendMessage deviceId newState =
     bind
       (if_err (checkIfOwner deviceId)
          (\<lambda>err. createPatchMessage deviceId newState)
          (\<lambda>isOwner.
             if \<not> isOwner then createPatchMessage deviceId newState
             else
               bind (getDevice deviceId) (\<lambda>device.
               bind (saveData deviceId newState (dev_version device + 1)) (\<lambda>_.
               bind (getDevice deviceId) (\<lambda>updatedDevice.
               createSyncMessage updatedDevice)))))
       (\<lambda>message.
          bind (getRandomPeers ZeroId MinInt) (\<lambda>peers.
          foreach peers (\<lambda>peer. ignore (sendMessage peer message))))"

definition defaultRandomPeerCount :: int where "defaultRandomPeerCount = 5"

text \<open>The loop that keeps the peers that are not in quarantine for the message.\<close>

fun safePeersLoop :: "(Id \<Rightarrow> Id \<Rightarrow> ('w, bool) act) \<Rightarrow> Id \<Rightarrow> Peer list \<Rightarrow> ('w, Peer list) act" where
  "safePeersLoop isPeerInQuarantine messageId [] = return []"
| "safePeersLoop isPeerInQuarantine messageId (peer # rest) =
     bind (isPeerInQuarantine messageId (peer_id peer)) (\<lambda>quarantined.
     bind (safePeersLoop isPeerInQuarantine messageId rest) (\<lambda>safePeers.
     return (if \<not> quarantined then peer # safePeers else safePeers)))"

text \<open>How many of \<open>safePeerCount\<close> peers are selected when \<open>peerCount\<close> are asked for.\<close>

definition peerResultCount :: "int64 \<Rightarrow> nat \<Rightarrow> nat" where
  "peerResultCount peerCount safePeerCount =
     (let resultCount = (if sint peerCount \<le> 0 then defaultRandomPeerCount else sint peerCount)
      in if int safePeerCount < resultCount then safePeerCount else nat resultCount)"

text \<open>
  The map of safe peers is keyed by the peers' pointers, which are distinct. The last loop copies
  peers in iteration order until the result is full.
\<close>

definition NewRandomSafePeersForMessageUseCase ::
  "(Peer list \<Rightarrow> ('w, Peer list) act) \<Rightarrow> ('w, Id) act \<Rightarrow> ('w, string) act \<Rightarrow> ('w, Peer list) act \<Rightarrow>
   (Id \<Rightarrow> Id \<Rightarrow> ('w, bool) act) \<Rightarrow> Id \<Rightarrow> int64 \<Rightarrow> ('w, Peer list) act" where
  "NewRandomSafePeersForMessageUseCase peerOrder getHostId getBroadcastAddress getAllPeers
     isPeerInQuarantine messageId peerCount =
     bind
       (bind (both '''' getBroadcastAddress) (\<lambda>(address, err).
          if err \<noteq> None \<and> address \<noteq> '''' then
            bind (both ZeroId getHostId) (\<lambda>(hostId, err').
              if err' \<noteq> None then return (Some [NewPeer hostId address]) else return None)
          else return None))
       (\<lambda>early.
          case early of
            Some result \<Rightarrow> return result
          | None \<Rightarrow>
              bind getAllPeers (\<lambda>peers.
              bind (safePeersLoop isPeerInQuarantine messageId peers) (\<lambda>safePeers.
              bind (peerOrder safePeers) (\<lambda>order.
              return (take (peerResultCount peerCount (length safePeers)) order)))))"

section \<open>The use cases pass on the frames of what they call\<close>

context state_order
begin

lemma within_NewCreateDeviceUseCase:
  "within R newRandomId \<Longrightarrow> within R getHostId \<Longrightarrow> (\<And>d. within R (saveDevice d)) \<Longrightarrow>
   within R (NewCreateDeviceUseCase newRandomId getHostId saveDevice ty st)"
  unfolding NewCreateDeviceUseCase_def Let_def by (intro within_rules)

lemma within_NewCheckIfOwnerUseCase:
  "within R getHostId \<Longrightarrow> (\<And>i. within R (getOwner i)) \<Longrightarrow>
   within R (NewCheckIfOwnerUseCase getHostId getOwner i)"
  unfolding NewCheckIfOwnerUseCase_def by (intro within_rules)

lemma within_NewCheckIfNewerUseCase:
  "(\<And>i. within R (getVersion i)) \<Longrightarrow> within R (NewCheckIfNewerUseCase getVersion i v)"
  unfolding NewCheckIfNewerUseCase_def by (intro within_rules)

lemma within_NewGetHostInfoUseCase:
  "within R getHostId \<Longrightarrow> within R getLocal \<Longrightarrow> within R getBroadcast \<Longrightarrow>
   within R (NewGetHostInfoUseCase getHostId getLocal getBroadcast)"
  unfolding NewGetHostInfoUseCase_def by (intro within_rules)

lemma within_NewPatchStateUseCase:
  assumes "\<And>i. within R (checkIfOwner i)" "\<And>i. within R (getDevice i)"
    "\<And>i s v. within R (saveData i s v)" "\<And>d. within R (createSync d)"
    "\<And>i s. within R (createPatch i s)" "\<And>i n. within R (getRandomPeers i n)"
    "\<And>p m. within R (sendMessage p m)"
  shows "within R (NewPatchStateUseCase checkIfOwner getDevice saveData createSync createPatch
    getRandomPeers sendMessage i s)"
  unfolding NewPatchStateUseCase_def by (intro within_rules assms)

lemma within_safePeersLoop:
  "(\<And>m p. within R (q m p)) \<Longrightarrow> within R (safePeersLoop q m ps)"
  by (induction ps) (auto intro!: within_rules)

lemma within_NewRandomSafePeersForMessageUseCase:
  assumes "\<And>ps. within R (peerOrder ps)" "within R getHostId" "within R getBroadcast"
    "within R getAllPeers" "\<And>m p. within R (quarantined m p)"
  shows "within R (NewRandomSafePeersForMessageUseCase peerOrder getHostId getBroadcast getAllPeers
    quarantined m n)"
  unfolding NewRandomSafePeersForMessageUseCase_def
  by (intro within_rules within_safePeersLoop assms)

lemmas within_data_usecases = within_NewCreateDeviceUseCase within_NewCheckIfOwnerUseCase
  within_NewCheckIfNewerUseCase within_NewGetHostInfoUseCase within_NewPatchStateUseCase
  within_NewRandomSafePeersForMessageUseCase

lemma within_data_adapters:
  assumes "\<And>i a. within R (getData i a)" "\<And>i data. within R (saveData i data)"
    "\<And>ks. within R (mapOrder ks)"
  shows "within R (NewGetDeviceIdsDataAdapter mapOrder getData)"
    and "within R (NewGetDeviceOwnerAttributeAdapter U getData i)"
    and "within R (NewGetStateVersionAttributeAdapter U getData i)"
    and "within R (NewGetDeviceDataAdapter U mapOrder getData i)"
    and "within R (NewCreateDeviceDataAdapter U saveData d)"
    and "within R (NewPatchStateDataAdapter U saveData i s v)"
  unfolding NewGetDeviceIdsDataAdapter_def NewGetDeviceOwnerAttributeAdapter_def
    NewGetStateVersionAttributeAdapter_def NewGetDeviceDataAdapter_def
    NewCreateDeviceDataAdapter_def NewPatchStateDataAdapter_def Let_def
  by (intro within_rules assms)+

end

end
