(* ===== verification/Message_Adapters.thy ===== *)
theory Message_Adapters
  imports Entities
begin

text \<open>
  \<open>main/message/adapters.go\<close>: datagrams, the payloads of the message types, and the two handlers
  between the socket and the use cases. A \<open>bytes.Buffer\<close> being written is the list of its bytes.
\<close>

section \<open>Receiving and sending\<close>

text \<open>The switch on the message type.\<close>

definition dispatch ::
  "(string \<Rightarrow> Message \<Rightarrow> ('w, unit) act) \<Rightarrow> (string \<Rightarrow> Message \<Rightarrow> ('w, unit) act) \<Rightarrow>
   (string \<Rightarrow> Message \<Rightarrow> ('w, unit) act) \<Rightarrow> (string \<Rightarrow> Message \<Rightarrow> ('w, unit) act) \<Rightarrow>
   (string \<Rightarrow> Message \<Rightarrow> ('w, unit) act) \<Rightarrow> string \<Rightarrow> Message \<Rightarrow> ('w, unit) act" where
  "dispatch hail patch sync peer farewell sender m =
     (if msg_type m = MessageTypeCommandHail then hail sender m
      else if msg_type m = MessageTypeCommandPatch then patch sender m
      else if msg_type m = MessageTypeEventSync then sync sender m
      else if msg_type m = MessageTypeEventPeer then peer sender m
      else if msg_type m = MessageTypeEventFarewell then farewell sender m
      else raise ErrUnexpectedMessageType)"

definition NewReceiveMessageHandler ::
  "(string \<Rightarrow> Message \<Rightarrow> ('w, unit) act) \<Rightarrow> (string \<Rightarrow> Message \<Rightarrow> ('w, unit) act) \<Rightarrow>
   (string \<Rightarrow> Message \<Rightarrow> ('w, unit) act) \<Rightarrow> (string \<Rightarrow> Message \<Rightarrow> ('w, unit) act) \<Rightarrow>
   (string \<Rightarrow> Message \<Rightarrow> ('w, unit) act) \<Rightarrow> (Id \<Rightarrow> ('w, bool) act) \<Rightarrow>
   (Id \<Rightarrow> Id \<Rightarrow> ('w, unit) act) \<Rightarrow> string \<Rightarrow> bytes \<Rightarrow> ('w, unit) act" where
  "NewReceiveMessageHandler saluteOnHail updateState updateDevice updatePeer deletePeer
     isMessageInQuarantine putMessageInQuarantine sender data =
     (let (bytes1, reader1) = Next 16 data
      in bind (pure (NewBytesId bytes1)) (\<lambda>messageId.
     (let (typeValue, reader2) = ReadByte reader1
      in bind (pure typeValue) (\<lambda>messageType.
     bind (isMessageInQuarantine messageId) (\<lambda>seen.
     if seen then return ()
     else
       (let (bytes2, reader3) = Next 16 reader2
        in bind (pure (NewBytesId bytes2)) (\<lambda>senderId.
       (let (bytes3, reader4) = NextAll reader3;
            message = NewMessage messageId senderId messageType bytes3
        in bind (putMessageInQuarantine messageId senderId) (\<lambda>_.
       dispatch saluteOnHail updateState updateDevice updatePeer deletePeer sender message)))))))))"

text \<open>The bytes of a message on the wire.\<close>

definition datagram :: "Message \<Rightarrow> bytes" where
  "datagram message =
     Bytes (msg_id message) @ MessageType_Bytes (msg_type message) @ Bytes (msg_sender message)
       @ GetData message @ GetSignature message"

definition NewSendMessageHandler ::
  "(string \<Rightarrow> bytes \<Rightarrow> ('w, unit) act) \<Rightarrow> (Id \<Rightarrow> Id \<Rightarrow> ('w, unit) act) \<Rightarrow>
   Peer \<Rightarrow> Message \<Rightarrow> ('w, unit) act" where
  "NewSendMessageHandler sendMessage putMessageInQuarantine peer message =
     if_err (sendMessage (peer_address peer) (datagram message))
       (\<lambda>err. raise err)
       (\<lambda>_. putMessageInQuarantine (msg_id message) (peer_id peer))"

section \<open>Payloads\<close>

definition NewHailMessageProvider :: "('w, Id) act \<Rightarrow> ('w, Id) act \<Rightarrow> ('w, Message) act" where
  "NewHailMessageProvider newRandomId getHostId =
     bind getHostId (\<lambda>hostId.
     bind newRandomId (\<lambda>msgId.
     return (NewMessage msgId hostId MessageTypeCommandHail [])))"

definition patchPayload :: "Id \<Rightarrow> DeviceState \<Rightarrow> bytes" where
  "patchPayload deviceId newState = Bytes deviceId @ ByteToBytes newState"

definition NewPatchMessageProvider ::
  "('w, Id) act \<Rightarrow> ('w, Id) act \<Rightarrow> Id \<Rightarrow> DeviceState \<Rightarrow> ('w, Message) act" where
  "NewPatchMessageProvider newRandomId getHostId deviceId newState =
     bind getHostId (\<lambda>hostId.
     bind newRandomId (\<lambda>msgId.
     return (NewMessage msgId hostId MessageTypeCommandPatch (patchPayload deviceId newState))))"

definition NewPatchMessageReader :: "Message \<Rightarrow> (Id \<times> DeviceState) result" where
  "NewPatchMessageReader message =
     (let (idBytes, reader) = Next 16 (GetData message)
      in case NewBytesId idBytes of
           Err err \<Rightarrow> Err err
         | Panic \<Rightarrow> Panic
         | Ok deviceId \<Rightarrow>
             (case fst (ReadByte reader) of
                Err err \<Rightarrow> Err err
              | Panic \<Rightarrow> Panic
              | Ok v \<Rightarrow> Ok (deviceId, v)))"

definition syncPayload :: "Device \<Rightarrow> bytes" where
  "syncPayload device =
     Bytes (dev_id device) @ Bytes (dev_owner device) @ ByteToBytes (dev_type device)
       @ ByteToBytes (dev_state device) @ Int64ToBytes (dev_version device)"

definition NewSyncMessageProvider ::
  "('w, Id) act \<Rightarrow> ('w, Id) act \<Rightarrow> Device \<Rightarrow> ('w, Message) act" where
  "NewSyncMessageProvider newRandomId getHostId device =
     bind getHostId (\<lambda>hostId.
     bind newRandomId (\<lambda>msgId.
     return (NewMessage msgId hostId MessageTypeEventSync (syncPayload device))))"

definition NewSyncMessageReader :: "Message \<Rightarrow> Device result" where
  "NewSyncMessageReader message =
     (let (bytes1, reader1) = Next 16 (GetData message)
      in case NewBytesId bytes1 of Err err \<Rightarrow> Err err | Panic \<Rightarrow> Panic | Ok deviceId \<Rightarrow>
     (let (bytes2, reader2) = Next 16 reader1
      in case NewBytesId bytes2 of Err err \<Rightarrow> Err err | Panic \<Rightarrow> Panic | Ok ownerId \<Rightarrow>
     (let (typeRead, reader3) = ReadByte reader2
      in case typeRead of Err err \<Rightarrow> Err err | Panic \<Rightarrow> Panic | Ok typeValue \<Rightarrow>
     (let (stateRead, reader4) = ReadByte reader3
      in case stateRead of Err err \<Rightarrow> Err err | Panic \<Rightarrow> Panic | Ok stateValue \<Rightarrow>
     (let (versionBytes, reader5) = NextAll reader4
      in case BytesToInt64 versionBytes of Err err \<Rightarrow> Err err | Panic \<Rightarrow> Panic | Ok version \<Rightarrow>
         Ok (NewDevice deviceId ownerId typeValue stateValue version))))))"

definition peerPayload :: "Peer \<Rightarrow> bytes" where
  "peerPayload peer = Bytes (peer_id peer) @ StringToBytes (peer_address peer)"

definition NewPeerMessageProvider ::
  "('w, Id) act \<Rightarrow> ('w, Id) act \<Rightarrow> Peer \<Rightarrow> ('w, Message) act" where
  "NewPeerMessageProvider newRandomId getHostId peer =
     bind getHostId (\<lambda>hostId.
     bind newRandomId (\<lambda>msgId.
     return (NewMessage msgId hostId MessageTypeEventPeer (peerPayload peer))))"

definition NewPeerMessageReader :: "Message \<Rightarrow> Peer result" where
  "NewPeerMessageReader message =
     (let (idBytes, reader) = Next 16 (GetData message)
      in case NewBytesId idBytes of
           Err err \<Rightarrow> Err err
         | Panic \<Rightarrow> Panic
         | Ok deviceId \<Rightarrow>
             (let (addressBytes, reader') = NextAll reader
              in Ok (NewPeer deviceId (BytesToString addressBytes))))"

definition NewFarewellMessageProvider :: "('w, Id) act \<Rightarrow> ('w, Id) act \<Rightarrow> ('w, Message) act" where
  "NewFarewellMessageProvider newRandomId getHostId =
     bind getHostId (\<lambda>hostId.
     bind newRandomId (\<lambda>msgId.
     return (NewMessage msgId hostId MessageTypeEventFarewell [])))"

section \<open>Round trips\<close>

text \<open>
  The contract of a payload: what the provider writes into a message, the reader of the same message
  type reads back.
\<close>

locale payload_codec =
  fixes encode :: "'x \<Rightarrow> bytes"
    and decode :: "Message \<Rightarrow> 'x result"
  assumes decode_encode: "GetData m = encode x \<Longrightarrow> decode m = Ok x"
begin

lemma decode_sent: "decode (NewMessage i s t (encode x)) = Ok x"
  by (rule decode_encode) simp

lemma encode_inj: "encode x = encode y \<Longrightarrow> x = y"
  using decode_sent [of _ _ _ x] decode_sent [of _ _ _ y] by (metis result.inject(1))

end

lemma Next_Bytes [simp]: "Next 16 (Bytes i @ r) = (Bytes i, r)" "Next 16 (Bytes i) = (Bytes i, [])"
  by (simp_all add: Next_def)

lemma ReadByte_Cons [simp]: "ReadByte (b # r) = (Ok b, r)"
  by (simp add: ReadByte_def)

interpretation patch: payload_codec "\<lambda>(i, s). patchPayload i s" NewPatchMessageReader
  by unfold_locales
    (auto simp: NewPatchMessageReader_def patchPayload_def ByteToBytes_def Let_def)

interpretation sync: payload_codec syncPayload NewSyncMessageReader
  by unfold_locales
    (simp add: NewSyncMessageReader_def syncPayload_def ByteToBytes_def NextAll_def Let_def)

interpretation peer: payload_codec peerPayload NewPeerMessageReader
  by unfold_locales
    (simp add: NewPeerMessageReader_def peerPayload_def NextAll_def Let_def NewPeer_def)

section \<open>The readers on any payload\<close>

lemma length_16_iff: "length bs = 16 \<longleftrightarrow> (\<exists>i. bs = Bytes i)"
  by (metis Bytes_array_of length_Bytes)

text \<open>
  A sync payload is an error below 34 bytes, and panics when the bytes behind the state are one to
  seven: the reader takes the version from all that is left.
\<close>

lemma NewSyncMessageReader_cases:
  "NewSyncMessageReader m =
     (let d = GetData m; n = length d in
      if n < 32 then Err ErrUnexpectedLength
      else if n < 34 then Err ErrEOF
      else (case BytesToInt64 (drop 34 d) of
              Ok v \<Rightarrow> Ok (NewDevice (array_of (take 16 d)) (array_of (take 16 (drop 16 d)))
                        (d ! 32) (d ! 33) v)
            | Err e \<Rightarrow> Err e
            | Panic \<Rightarrow> Panic))"
proof -
  define d where "d = msg_data m"
  have drop33: "drop 33 d = drop 1 (drop 32 d)" and drop34: "drop 34 d = drop 2 (drop 32 d)"
    by simp_all
  consider "length d < 32" | "length d = 32" | "length d = 33" | "34 \<le> length d"
    by linarith
  then show ?thesis
  proof cases
    case 4
    then obtain a b r where "drop 32 d = a # b # r"
      by (cases "drop 32 d"; cases "tl (drop 32 d)") (auto dest: arg_cong [of _ _ length])
    moreover from this have "d ! 32 = a" "d ! 33 = b"
      using nth_drop [of 32 d 0] nth_drop [of 32 d 1] 4 by auto
    ultimately show ?thesis
      using 4 drop34
      by (simp add: NewSyncMessageReader_def Let_def Next_def NextAll_def ReadByte_def NewBytesId_def
          d_def [symmetric] split: result.split)
  next
    case 3
    then obtain a where "drop 32 d = [a]"
      by (cases "drop 32 d") (auto dest: arg_cong [of _ _ length])
    with 3 show ?thesis
      by (simp add: NewSyncMessageReader_def Let_def Next_def ReadByte_def NewBytesId_def
          d_def [symmetric])
  qed (auto simp: NewSyncMessageReader_def Let_def Next_def ReadByte_def NewBytesId_def
        d_def [symmetric])
qed

lemma NewSyncMessageReader_Panic_iff:
  "NewSyncMessageReader m = Panic \<longleftrightarrow> 34 < length (GetData m) \<and> length (GetData m) < 42"
  using BytesToInt64_Panic_iff [of "drop 34 (msg_data m)"]
  by (auto simp: NewSyncMessageReader_cases Let_def split: result.split)

lemma NewPatchMessageReader_not_Panic: "NewPatchMessageReader m \<noteq> Panic"
  by (auto simp: NewPatchMessageReader_def Let_def Next_def ReadByte_def
      split: result.splits list.splits prod.splits)

lemma NewPeerMessageReader_not_Panic: "NewPeerMessageReader m \<noteq> Panic"
  by (auto simp: NewPeerMessageReader_def Let_def Next_def NextAll_def split: result.splits)

section \<open>The handler reads what was sent\<close>

lemma datagram_inj [simp]: "datagram m = datagram m' \<longleftrightarrow> m = m'"
  by (auto simp: datagram_def MessageType_Bytes_def ByteToBytes_def GetData_GetSignature simp del: GetData_eq)

lemma receive_datagram:
  "NewReceiveMessageHandler hail patch sync peer farewell seen hold sender (datagram m) =
     bind (seen (msg_id m)) (\<lambda>b.
       if b then return ()
       else bind (hold (msg_id m) (msg_sender m)) (\<lambda>_. dispatch hail patch sync peer farewell sender m))"
  by (simp add: NewReceiveMessageHandler_def datagram_def MessageType_Bytes_def ByteToBytes_def
      NextAll_def Let_def GetData_GetSignature del: GetData_eq cong: if_cong)

text \<open>Any datagram: too short for its header, or of a message.\<close>

lemma datagram_cases:
  obtains (short) "length data < 17"
  | (headless) i t r where "data = Bytes i @ t # r" "length r < 16"
  | (message) m where "data = datagram m"
proof (cases "length data < 17")
  case False
  then have "length (take 16 data) = 16" "drop 16 data \<noteq> []" by auto
  then obtain i t r where "take 16 data = Bytes i" "drop 16 data = t # r"
    unfolding length_16_iff by (metis list.exhaust)
  then have data: "data = Bytes i @ t # r" by (metis append_take_drop_id)
  show ?thesis
  proof (cases "length r < 16")
    case True
    then show ?thesis using data by (rule headless [rotated])
  next
    case False
    then have "length (take 16 r) = 16" by simp
    then obtain s where "take 16 r = Bytes s" unfolding length_16_iff by blast
    then have "r = Bytes s @ drop 16 r" by (metis append_take_drop_id)
    then have "data = datagram (NewMessage i s t (drop 16 r))"
      using data
      by (simp add: datagram_def MessageType_Bytes_def ByteToBytes_def GetData_GetSignature
          del: GetData_eq)
    then show ?thesis by (rule message)
  qed
qed (rule short)

lemma receive_short:
  assumes "length data < 17"
  shows "\<exists>e. NewReceiveMessageHandler hail patch sync peer farewell seen hold sender data = raise e"
proof (cases "length data < 16")
  case True
  then show ?thesis
    by (auto simp: NewReceiveMessageHandler_def Next_def NewBytesId_def)
next
  case False
  with assms have "length data = 16" by simp
  then obtain i where "data = Bytes i" unfolding length_16_iff by blast
  then show ?thesis
    by (auto simp: NewReceiveMessageHandler_def ReadByte_def)
qed

lemma receive_headless:
  assumes "length r < 16"
  shows "NewReceiveMessageHandler hail patch sync peer farewell seen hold sender (Bytes i @ t # r) =
    bind (seen i) (\<lambda>b. if b then return () else raise ErrUnexpectedLength)"
  using assms
  by (simp add: NewReceiveMessageHandler_def Let_def Next_def [of 16 r] NewBytesId_def [of r] cong: if_cong)

section \<open>Frames\<close>

context state_order
begin

lemma within_NewReceiveMessageHandler:
  assumes "\<And>s m. within R (hail s m)" "\<And>s m. within R (patch s m)" "\<And>s m. within R (sync s m)"
    "\<And>s m. within R (peer s m)" "\<And>s m. within R (farewell s m)" "\<And>i. within R (seen i)"
    "\<And>m p. within R (hold m p)"
  shows "within R (NewReceiveMessageHandler hail patch sync peer farewell seen hold sender data)"
  unfolding NewReceiveMessageHandler_def dispatch_def Let_def by (intro within_rules assms)

lemma within_NewSendMessageHandler:
  assumes "\<And>a d. within R (send a d)" "\<And>m p. within R (hold m p)"
  shows "within R (NewSendMessageHandler send hold p m)"
  unfolding NewSendMessageHandler_def by (intro within_rules assms)

lemma within_message_providers:
  assumes "within R newRandomId" "within R getHostId"
  shows "within R (NewHailMessageProvider newRandomId getHostId)"
    and "within R (NewPatchMessageProvider newRandomId getHostId i s)"
    and "within R (NewSyncMessageProvider newRandomId getHostId d)"
    and "within R (NewPeerMessageProvider newRandomId getHostId p)"
    and "within R (NewFarewellMessageProvider newRandomId getHostId)"
  unfolding NewHailMessageProvider_def NewPatchMessageProvider_def NewSyncMessageProvider_def
    NewPeerMessageProvider_def NewFarewellMessageProvider_def
  by (intro within_rules assms)+

end

section \<open>Properties of the messages\<close>

text \<open>
  C34. What the provider of a message type writes into a message, the reader of that type reads back,
  whatever the other fields of the message are: the device and state of a command, the device of a
  sync event with all its fields, the peer of a peer event.
\<close>

theorem payload_round_trip:
  "NewPatchMessageReader (NewMessage i s t (patchPayload d st)) = Ok (d, st) \<and>
   NewSyncMessageReader (NewMessage i s t (syncPayload c)) = Ok c \<and>
   NewPeerMessageReader (NewMessage i s t (peerPayload p)) = Ok p"
  using patch.decode_sent [of i s t "(d, st)"] sync.decode_sent peer.decode_sent by simp

text \<open>
  C35. The reader of sync events by the length of the payload: it reads a device from 34 bytes and
  from 42 bytes or more, it reports an error for fewer than 34, and for 35 to 41 bytes it panics.
\<close>

theorem sync_reader_by_length:
  "(NewSyncMessageReader m \<in> range Ok \<longleftrightarrow> length (msg_data m) = 34 \<or> 42 \<le> length (msg_data m)) \<and>
   (NewSyncMessageReader m \<in> range Err \<longleftrightarrow> length (msg_data m) < 34) \<and>
   (NewSyncMessageReader m = Panic \<longleftrightarrow> 34 < length (msg_data m) \<and> length (msg_data m) < 42)"
proof -
  have "NewSyncMessageReader m \<in> range Err \<longleftrightarrow> length (msg_data m) < 34"
    by (auto simp: NewSyncMessageReader_cases Let_def split: result.split)
  moreover have "NewSyncMessageReader m = Panic \<longleftrightarrow> 34 < length (msg_data m) \<and> length (msg_data m) < 42"
    using NewSyncMessageReader_Panic_iff [of m] by simp
  moreover have "NewSyncMessageReader m \<in> range Ok \<longleftrightarrow>
      NewSyncMessageReader m \<notin> range Err \<and> NewSyncMessageReader m \<noteq> Panic"
    by (cases "NewSyncMessageReader m") auto
  ultimately show ?thesis by auto
qed

text \<open>
  C40. The receiver takes a datagram apart the way the sender put it together: it asks for the
  message's own identifier, stops when that is in quarantine, and otherwise holds it for its sender
  and hands the very message that was sent to the handler of its type.
\<close>

theorem datagram_round_trip:
  "NewReceiveMessageHandler hail patch sync peer farewell seen hold sender (datagram m) =
     bind (seen (msg_id m)) (\<lambda>b.
       if b then return ()
       else bind (hold (msg_id m) (msg_sender m)) (\<lambda>_. dispatch hail patch sync peer farewell sender m))"
  by (rule receive_datagram)

end
