(* ===== verification/Message_Usecases.thy ===== *)
theory Message_Usecases
  imports Message_Adapters
begin

text \<open>
  \<open>main/message/usecases.go\<close>: what a peer does on each kind of message, and the messages it sends
  when it joins and leaves. A call whose error the code drops is \<open>ignore\<close>, a failing call that the
  code replaces by a default is \<open>if_err\<close>.
\<close>

section \<open>Hail\<close>

text \<open>\<open>getPeers\<close> and \<open>createPeerMessage\<close> are only used by code that is commented out.\<close>

definition NewSaluteOnHailUseCase ::
  "('w, Id list) act \<Rightarrow> (Id \<Rightarrow> ('w, Device) act) \<Rightarrow> ('w, Peer list) act \<Rightarrow> (Peer \<Rightarrow> ('w, unit) act) \<Rightarrow>
   (Device \<Rightarrow> ('w, Message) act) \<Rightarrow> (Peer \<Rightarrow> ('w, Message) act) \<Rightarrow>
   (Peer \<Rightarrow> Message \<Rightarrow> ('w, unit) act) \<Rightarrow> string \<Rightarrow> Message \<Rightarrow> ('w, unit) act" where
  "NewSaluteOnHailUseCase getDeviceIds getDevice getPeers rememberPeer createSyncMessage
     createPeerMessage sendMessage senderAddress message =
     (let peer = NewPeer (msg_sender message) senderAddress
      in bind (rememberPeer peer) (\<lambda>_.
         bind (if_err getDeviceIds (\<lambda>err. return []) return) (\<lambda>deviceIds.
         foreach deviceIds (\<lambda>i.
           if_err (getDevice i) (\<lambda>err. return ()) (\<lambda>device.
           if_err (createSyncMessage device) (\<lambda>err. return ()) (\<lambda>syncMessage.
           ignore (sendMessage peer syncMessage)))))))"

section \<open>Patch\<close>

definition NewSaveStateUseCase ::
  "(Message \<Rightarrow> (Id \<times> DeviceState) result) \<Rightarrow> (Id \<Rightarrow> ('w, bool) act) \<Rightarrow> (Id \<Rightarrow> ('w, Device) act) \<Rightarrow>
   (Id \<Rightarrow> DeviceState \<Rightarrow> int64 \<Rightarrow> ('w, unit) act) \<Rightarrow> (Device \<Rightarrow> ('w, Message) act) \<Rightarrow>
   (Id \<Rightarrow> int64 \<Rightarrow> ('w, Peer list) act) \<Rightarrow> (Peer \<Rightarrow> Message \<Rightarrow> ('w, unit) act) \<Rightarrow>
   string \<Rightarrow> Message \<Rightarrow> ('w, unit) act" where
  "NewSaveStateUseCase readMessage checkIfOwner getDevice saveData createSyncMessage getRandomPeers
     sendMessage senderAddress message =
     bind (pure (readMessage message)) (\<lambda>(deviceId, newState).
     bind
       (if_err (checkIfOwner deviceId)
          (\<lambda>err. return message)
          (\<lambda>isOwner.
             if isOwner then
               bind (getDevice deviceId) (\<lambda>device.
               bind (saveData deviceId newState (dev_version device + 1)) (\<lambda>_.
               bind (getDevice deviceId) (\<lambda>updatedDevice.
               createSyncMessage updatedDevice)))
             else return message))
       (\<lambda>messageToPropagate.
          bind (getRandomPeers ZeroId MinInt) (\<lambda>peers.
          foreach peers (\<lambda>peer. ignore (sendMessage peer messageToPropagate)))))"

section \<open>Sync\<close>

text \<open>
  The message to propagate, or nothing when the handler is done. A device that is not newer than the
  stored one is answered with the stored one; anything else, a failing version check included, is
  saved.
\<close>

definition NewSaveDeviceUseCase ::
  "(Id \<Rightarrow> ('w, bool) act) \<Rightarrow> (Id \<Rightarrow> int64 \<Rightarrow> ('w, bool) act) \<Rightarrow> (Message \<Rightarrow> Device result) \<Rightarrow>
   (Device \<Rightarrow> ('w, unit) act) \<Rightarrow> (Id \<Rightarrow> ('w, Device) act) \<Rightarrow> (Id \<Rightarrow> int64 \<Rightarrow> ('w, Peer list) act) \<Rightarrow>
   (Device \<Rightarrow> ('w, Message) act) \<Rightarrow> (Peer \<Rightarrow> Message \<Rightarrow> ('w, unit) act) \<Rightarrow>
   string \<Rightarrow> Message \<Rightarrow> ('w, unit) act" where
  "NewSaveDeviceUseCase checkIfOwner checkVersion readCandidate saveCandidate getDevice
     getRandomPeers createSyncMessage sendMessage senderAddress message =
     bind (pure (readCandidate message)) (\<lambda>candidate.
     (let deviceId = dev_id candidate
      in bind (if_err (checkIfOwner deviceId) (\<lambda>err. return False) return) (\<lambda>isOwner.
     if isOwner then return ()
     else
       bind
         (bind (if_err (checkVersion deviceId (dev_version candidate)) (\<lambda>err. return True) return) (\<lambda>isNewer.
          if \<not> isNewer then
            if_err (getDevice deviceId) (\<lambda>err. return None) (\<lambda>device.
            if_err (createSyncMessage device) (\<lambda>err. return None) (\<lambda>msg.
            return (Some msg)))
          else bind (saveCandidate candidate) (\<lambda>_. return (Some message))))
         (\<lambda>propagate.
            case propagate of
              None \<Rightarrow> return ()
            | Some messageToPropagate \<Rightarrow>
                bind (getRandomPeers (msg_id messageToPropagate) MinInt) (\<lambda>peers.
                foreach peers (\<lambda>peer. ignore (sendMessage peer messageToPropagate)))))))"

section \<open>Peer and farewell\<close>

definition NewSavePeerUseCase ::
  "(Message \<Rightarrow> Peer result) \<Rightarrow> (Peer \<Rightarrow> ('w, unit) act) \<Rightarrow> string \<Rightarrow> Message \<Rightarrow> ('w, unit) act" where
  "NewSavePeerUseCase readPeer savePeer senderAddress message =
     (let sender = NewPeer (msg_sender message) senderAddress
      in bind (savePeer sender) (\<lambda>_.
         bind (pure (readPeer message)) (\<lambda>peer.
         savePeer peer)))"

definition NewDeletePeerUseCase ::
  "(Id \<Rightarrow> ('w, unit) act) \<Rightarrow> string \<Rightarrow> Message \<Rightarrow> ('w, unit) act" where
  "NewDeletePeerUseCase deletePeer senderAddress message = deletePeer (msg_sender message)"

section \<open>Joining and leaving\<close>

text \<open>The loop that collects a sync message for each device that can be read.\<close>

fun collectSyncMessages ::
  "(Id \<Rightarrow> ('w, Device) act) \<Rightarrow> (Device \<Rightarrow> ('w, Message) act) \<Rightarrow> Id list \<Rightarrow> ('w, Message list) act" where
  "collectSyncMessages getDevice createSyncMessage [] = return []"
| "collectSyncMessages getDevice createSyncMessage (i # rest) =
     bind
       (if_err (getDevice i) (\<lambda>err. return []) (\<lambda>device.
        if_err (createSyncMessage device) (\<lambda>err. return []) (\<lambda>message.
        return [message])))
       (\<lambda>found.
          bind (collectSyncMessages getDevice createSyncMessage rest) (\<lambda>messages.
          return (found @ messages)))"

definition NewSendHailCommandUseCase ::
  "(Id \<Rightarrow> int64 \<Rightarrow> ('w, Peer list) act) \<Rightarrow> ('w, Message) act \<Rightarrow> ('w, Id list) act \<Rightarrow>
   (Id \<Rightarrow> ('w, Device) act) \<Rightarrow> (Device \<Rightarrow> ('w, Message) act) \<Rightarrow>
   (Peer \<Rightarrow> Message \<Rightarrow> ('w, unit) act) \<Rightarrow> ('w, unit) act" where
  "NewSendHailCommandUseCase getRandomPeers createHailMessage getDeviceIds getDevice
     createSyncMessage sendMessage =
     bind createHailMessage (\<lambda>message.
     bind (getRandomPeers (msg_id message) MinInt) (\<lambda>peers.
     bind (if_err getDeviceIds (\<lambda>err. return []) return) (\<lambda>deviceIds.
     bind (collectSyncMessages getDevice createSyncMessage deviceIds) (\<lambda>messages.
     foreach peers (\<lambda>peer.
       bind (ignore (sendMessage peer message)) (\<lambda>_.
       foreach messages (\<lambda>message. ignore (sendMessage peer message))))))))"

definition NewSendFarewellEventUseCase ::
  "(Id \<Rightarrow> int64 \<Rightarrow> ('w, Peer list) act) \<Rightarrow> ('w, Message) act \<Rightarrow>
   (Peer \<Rightarrow> Message \<Rightarrow> ('w, unit) act) \<Rightarrow> ('w, unit) act" where
  "NewSendFarewellEventUseCase getRandomPeers createFarewellMessage sendMessage =
     bind createFarewellMessage (\<lambda>message.
     bind (getRandomPeers (msg_id message) MaxInt) (\<lambda>peers.
     foreach peers (\<lambda>peer. ignore (sendMessage peer message))))"

section \<open>The use cases pass on the frames of what they call\<close>

context state_order
begin

lemma within_NewSaluteOnHailUseCase:
  assumes "within R getDeviceIds" "\<And>i. within R (getDevice i)" "\<And>p. within R (rememberPeer p)"
    "\<And>d. within R (createSync d)" "\<And>p m. within R (sendMessage p m)"
  shows "within R (NewSaluteOnHailUseCase getDeviceIds getDevice getPeers rememberPeer createSync
    createPeer sendMessage s m)"
  unfolding NewSaluteOnHailUseCase_def Let_def by (intro within_rules assms)

lemma within_NewSaveStateUseCase:
  assumes "\<And>i. within R (checkIfOwner i)" "\<And>i. within R (getDevice i)"
    "\<And>i s v. within R (saveData i s v)" "\<And>d. within R (createSync d)"
    "\<And>i n. within R (getRandomPeers i n)" "\<And>p m. within R (sendMessage p m)"
  shows "within R (NewSaveStateUseCase readMessage checkIfOwner getDevice saveData createSync
    getRandomPeers sendMessage s m)"
  unfolding NewSaveStateUseCase_def by (intro within_rules assms)

lemma within_NewSaveDeviceUseCase:
  assumes "\<And>i. within R (checkIfOwner i)" "\<And>i v. within R (checkVersion i v)"
    "\<And>d. within R (saveCandidate d)" "\<And>i. within R (getDevice i)"
    "\<And>i n. within R (getRandomPeers i n)" "\<And>d. within R (createSync d)"
    "\<And>p m. within R (sendMessage p m)"
  shows "within R (NewSaveDeviceUseCase checkIfOwner checkVersion readCandidate saveCandidate
    getDevice getRandomPeers createSync sendMessage s m)"
  unfolding NewSaveDeviceUseCase_def Let_def by (intro within_rules assms)

lemma within_NewSavePeerUseCase:
  "(\<And>p. within R (savePeer p)) \<Longrightarrow> within R (NewSavePeerUseCase readPeer savePeer s m)"
  unfolding NewSavePeerUseCase_def Let_def by (intro within_rules)

lemma within_NewDeletePeerUseCase:
  "(\<And>i. within R (deletePeer i)) \<Longrightarrow> within R (NewDeletePeerUseCase deletePeer s m)"
  unfolding NewDeletePeerUseCase_def .

lemma within_collectSyncMessages:
  "(\<And>i. within R (getDevice i)) \<Longrightarrow> (\<And>d. within R (createSync d)) \<Longrightarrow>
   within R (collectSyncMessages getDevice createSync ids)"
  by (induction ids) (auto intro!: within_rules)

lemma within_NewSendHailCommandUseCase:
  assumes "\<And>i n. within R (getRandomPeers i n)" "within R createHail" "within R getDeviceIds"
    "\<And>i. within R (getDevice i)" "\<And>d. within R (createSync d)" "\<And>p m. within R (sendMessage p m)"
  shows "within R (NewSendHailCommandUseCase getRandomPeers createHail getDeviceIds getDevice
    createSync sendMessage)"
  unfolding NewSendHailCommandUseCase_def
  by (intro within_rules within_collectSyncMessages assms)

lemma within_NewSendFarewellEventUseCase:
  assumes "\<And>i n. within R (getRandomPeers i n)" "within R createFarewell"
    "\<And>p m. within R (sendMessage p m)"
  shows "within R (NewSendFarewellEventUseCase getRandomPeers createFarewell sendMessage)"
  unfolding NewSendFarewellEventUseCase_def by (intro within_rules assms)

lemmas within_message_usecases = within_NewSaluteOnHailUseCase within_NewSaveStateUseCase
  within_NewSaveDeviceUseCase within_NewSavePeerUseCase within_NewDeletePeerUseCase
  within_NewSendHailCommandUseCase within_NewSendFarewellEventUseCase

end

end
