(* ===== verification/Peer_Cache.thy ===== *)
theory Peer_Cache
  imports Entities
begin

text \<open>
  \<open>main/data/peercache.go\<close>: the peers this host knows, by identifier. The methods are functions on
  the record of the struct's fields. \<open>ks\<close> is the order in which a range loop visits the keys.
\<close>

section \<open>The struct and its methods\<close>

record peerCache =
  peers :: "(Id, Peer) gomap"

definition recommendedPeerCount :: int where "recommendedPeerCount = 5"

definition NewPeerCache :: peerCache where
  "NewPeerCache = \<lparr>peers = []\<rparr>"

definition peerCache_AddPeer :: "Peer \<Rightarrow> peerCache \<Rightarrow> peerCache" where
  "peerCache_AddPeer peer r = r\<lparr>peers := AList.update (peer_id peer) peer (peers r)\<rparr>"

definition peerCache_GetPeer :: "Id \<Rightarrow> peerCache \<Rightarrow> Peer result" where
  "peerCache_GetPeer i r =
     (case map_of (peers r) i of None \<Rightarrow> Err ErrNoSuchPeer | Some peer \<Rightarrow> Ok peer)"

definition peerCache_RemovePeer :: "Id \<Rightarrow> peerCache \<Rightarrow> peerCache" where
  "peerCache_RemovePeer i r = r\<lparr>peers := AList.delete i (peers r)\<rparr>"

text \<open>
  The loop of \<open>GetAllPeers\<close>: it writes each peer to the next entry of a slice of nil entries, and panics
  when there is none. An interface value is nil or a peer.
\<close>

fun fillAllPeers :: "Peer list \<Rightarrow> nat \<Rightarrow> Peer option list \<Rightarrow> Peer option list result" where
  "fillAllPeers [] index result = Ok result"
| "fillAllPeers (peer # rest) index result =
     (if index < length result then fillAllPeers rest (index + 1) (result[index := Some peer])
      else Panic)"

definition peerCache_GetAllPeers :: "Id list \<Rightarrow> peerCache \<Rightarrow> Peer option list result" where
  "peerCache_GetAllPeers ks r =
     fillAllPeers (map snd (in_order (peers r) ks)) 0 (replicate (length (peers r)) None)"

text \<open>
  The loop of \<open>GetRandomPeers\<close>: it fills a slice of \<open>resultCount\<close> nil entries from the left and
  stops when the slice is full.
\<close>

fun fillPeers :: "Peer list \<Rightarrow> nat \<Rightarrow> nat \<Rightarrow> Peer option list \<Rightarrow> Peer option list" where
  "fillPeers [] index resultCount result = result"
| "fillPeers (peer # rest) index resultCount result =
     (if index = resultCount then result
      else fillPeers rest (index + 1) resultCount (result[index := Some peer]))"

text \<open>
  The test \<open>peerCount < resultCount\<close> assigns to \<open>count\<close>, which is not read again, so the slice
  keeps its length of \<open>resultCount\<close>.
\<close>

definition peerCache_GetRandomPeers :: "Id list \<Rightarrow> int64 \<Rightarrow> peerCache \<Rightarrow> Peer option list" where
  "peerCache_GetRandomPeers ks n r =
     (let peerCount = int (length (peers r));
          resultCount = (if sint n \<le> 0 then recommendedPeerCount else sint n);
          unused_count = (if peerCount < resultCount then resultCount else sint n)
      in fillPeers (map snd (in_order (peers r) ks)) 0 (nat resultCount)
           (replicate (nat resultCount) None))"

definition peerCache_Reset :: "peerCache \<Rightarrow> peerCache" where
  "peerCache_Reset r = r\<lparr>peers := []\<rparr>"

section \<open>The cache as a map, and its invariant\<close>

text \<open>Each peer is stored under its own identifier, and once.\<close>

definition known_peer :: "peerCache \<Rightarrow> Id \<Rightarrow> Peer option" where
  "known_peer r = map_of (peers r)"

definition peers_ok :: "peerCache \<Rightarrow> bool" where
  "peers_ok r \<longleftrightarrow> wf_map (peers r) \<and> (\<forall>k p. known_peer r k = Some p \<longrightarrow> peer_id p = k)"

lemma known_peer_New [simp]: "known_peer NewPeerCache = Map.empty"
  by (simp add: known_peer_def NewPeerCache_def)

lemma known_peer_Add [simp]: "known_peer (peerCache_AddPeer p r) = (known_peer r)(peer_id p \<mapsto> p)"
  by (simp add: known_peer_def peerCache_AddPeer_def update_conv')

lemma known_peer_Remove [simp]: "known_peer (peerCache_RemovePeer i r) = (known_peer r)(i := None)"
  by (simp add: known_peer_def peerCache_RemovePeer_def delete_conv')

lemma known_peer_Reset [simp]: "known_peer (peerCache_Reset r) = Map.empty"
  by (simp add: known_peer_def peerCache_Reset_def)

lemma peers_ok_New: "peers_ok NewPeerCache"
  by (simp add: peers_ok_def) (simp add: NewPeerCache_def)

lemma peers_ok_Add: "peers_ok r \<Longrightarrow> peers_ok (peerCache_AddPeer p r)"
  unfolding peers_ok_def known_peer_Add by (auto simp: peerCache_AddPeer_def)

lemma peers_ok_Remove: "peers_ok r \<Longrightarrow> peers_ok (peerCache_RemovePeer i r)"
  unfolding peers_ok_def known_peer_Remove by (auto simp: peerCache_RemovePeer_def)

lemma peers_ok_Reset: "peers_ok (peerCache_Reset r)"
  unfolding peers_ok_def known_peer_Reset by (simp add: peerCache_Reset_def)

lemmas peers_ok_intros = peers_ok_New peers_ok_Add peers_ok_Remove peers_ok_Reset

lemma GetPeer_known: "peerCache_GetPeer i r = Ok p \<longleftrightarrow> known_peer r i = Some p"
  by (simp add: peerCache_GetPeer_def known_peer_def split: option.split)

text \<open>\<open>GetAllPeers\<close> lists each known peer once, whatever the order of the iteration.\<close>

lemma fillAllPeers_spec:
  "fillAllPeers ps index result =
     (if index + length ps \<le> length result \<or> ps = []
      then Ok (take index result @ map Some ps @ drop (index + length ps) result) else Panic)"
proof (induction ps arbitrary: index result)
  case (Cons p ps)
  show ?case
  proof (cases "index < length result")
    case True
    then have "take (Suc index) (result[index := Some p]) = take index result @ [Some p]"
      by (simp add: take_Suc_conv_app_nth)
    then show ?thesis using True Cons.IH [of "index + 1" "result[index := Some p]"] by auto
  qed simp
qed simp

text \<open>The peers in the order of the iteration.\<close>

definition peers_in :: "Id list \<Rightarrow> peerCache \<Rightarrow> Peer list" where
  "peers_in ks r = map snd (in_order (peers r) ks)"

lemma peers_in_ids:
  assumes "peers_ok r" and "mset ks = mset (keys (peers r))"
  shows "map peer_id (peers_in ks r) = ks"
proof -
  have sub: "set ks \<subseteq> dom (map_of (peers r))"
    using mset_eq_setD [OF assms(2)] by (simp add: keys_set)
  have "map peer_id (map snd (in_order (peers r) ks)) = map fst (in_order (peers r) ks)"
    using assms(1) by (auto simp: set_in_order peers_ok_def known_peer_def)
  also have "\<dots> = ks" by (rule in_order_keys [OF sub])
  finally show ?thesis by (simp add: peers_in_def)
qed

lemma peers_in_set:
  assumes "peers_ok r" and "mset ks = mset (keys (peers r))"
  shows "set (peers_in ks r) = ran (known_peer r)"
proof -
  have "set ks = dom (map_of (peers r))"
    using mset_eq_setD [OF assms(2)] by (simp add: keys_set)
  then have "set (in_order (peers r) ks) = {(k, v). map_of (peers r) k = Some v}"
    by (auto simp: set_in_order)
  then show ?thesis
    by (force simp: peers_in_def known_peer_def ran_def)
qed

lemma peers_in_distinct:
  assumes "peers_ok r" and "mset ks = mset (keys (peers r))"
  shows "distinct (map peer_id (peers_in ks r))"
  using assms mset_eq_imp_distinct_iff [OF assms(2)]
  by (simp add: peers_in_ids peers_ok_def wf_map_def keys_def)

lemma peers_in_length:
  assumes "peers_ok r" and "mset ks = mset (keys (peers r))"
  shows "length (peers_in ks r) = length (peers r)"
proof -
  have "length (peers_in ks r) = length ks"
    using peers_in_ids [OF assms] by (metis length_map)
  then show ?thesis using mset_eq_length [OF assms(2)] by (simp add: keys_def)
qed

text \<open>The slice is filled up and its end is not passed.\<close>

lemma GetAllPeers_fills:
  assumes "peers_ok r" and "mset ks = mset (keys (peers r))"
  shows "peerCache_GetAllPeers ks r = Ok (map Some (peers_in ks r))"
  using peers_in_length [OF assms] by (simp add: peerCache_GetAllPeers_def fillAllPeers_spec peers_in_def)

text \<open>As many different peers as the map has entries are all the known peers.\<close>

lemma all_known:
  assumes "set qs \<subseteq> ran (known_peer r)" and "distinct qs" and "length (peers r) \<le> length qs"
  shows "set qs = ran (known_peer r)"
proof (rule card_seteq)
  have sub: "ran (known_peer r) \<subseteq> snd ` set (peers r)"
    unfolding known_peer_def by (force simp: ran_def dest: map_of_SomeD)
  then show "finite (ran (known_peer r))" by (rule finite_subset) simp
  have "card (ran (known_peer r)) \<le> card (snd ` set (peers r))" using sub by (intro card_mono) auto
  also have "\<dots> \<le> length (peers r)" using card_image_le [of "set (peers r)" snd] card_length [of "peers r"] by simp
  finally show "card (ran (known_peer r)) \<le> card (set qs)"
    using assms(2,3) by (simp add: distinct_card)
qed (rule assms(1))

section \<open>GetRandomPeers\<close>

lemma fillPeers_spec:
  "index \<le> n \<Longrightarrow> length result = n \<Longrightarrow>
   fillPeers ps index n result =
     take index result @ map Some (take (n - index) ps) @ drop (index + length ps) result"
proof (induction ps arbitrary: index result)
  case (Cons p ps)
  show ?case
  proof (cases "index = n")
    case False
    with Cons.prems have "fillPeers (p # ps) index n result =
        take (Suc index) (result[index := Some p]) @ map Some (take (n - Suc index) ps)
          @ drop (Suc index + length ps) (result[index := Some p])"
      using Cons.IH [of "Suc index" "result[index := Some p]"] by simp
    moreover have "take (Suc index) (result[index := Some p]) = take index result @ [Some p]"
      using Cons.prems False by (simp add: take_Suc_conv_app_nth)
    moreover have "n - index = Suc (n - Suc index)"
      using Cons.prems False by simp
    ultimately show ?thesis by simp
  qed (use Cons.prems in simp)
qed simp

text \<open>
  The slice has the requested length (five for a request of zero or less), with the peers in front
  and nil behind them when there are too few.
\<close>

lemma GetRandomPeers_slice:
  assumes "peers_ok r" and "mset ks = mset (keys (peers r))"
    and "n = nat (if sint c \<le> 0 then 5 else sint c)"
  shows "peerCache_GetRandomPeers ks c r =
    map Some (take n (peers_in ks r)) @ replicate (n - length (peers r)) None"
  using peers_in_length [OF assms(1,2)]
  by (simp add: peerCache_GetRandomPeers_def fillPeers_spec assms(3) recommendedPeerCount_def peers_in_def Let_def)

section \<open>Properties of the peer cache\<close>

text \<open>
  C33. Whatever the order of Go's map iteration, GetAllPeers writes within the bounds of the slice it has
  made and leaves no nil entry in it: it does not panic, and answers each known peer exactly once, in the
  order of the iteration.
\<close>

theorem all_peers_once:
  assumes "peers_ok r" and "mset ks = mset (keys (peers r))"
  shows "\<exists>ps. peerCache_GetAllPeers ks r = Ok (map Some ps) \<and> map peer_id ps = ks \<and> distinct ps \<and>
    set ps = ran (known_peer r) \<and> length ps = length (peers r)"
  using GetAllPeers_fills [OF assms] peers_in_ids [OF assms] distinct_map [THEN iffD1, OF peers_in_distinct [OF assms]]
    peers_in_set [OF assms] peers_in_length [OF assms]
  by blast

theorem all_peers_once_witness:
  "peerCache_GetAllPeers [small_id 1] (peerCache_AddPeer (NewPeer (small_id 1) ''10.0.0.1:80'') NewPeerCache) =
     Ok [Some (NewPeer (small_id 1) ''10.0.0.1:80'')]"
proof -
  let ?p = "NewPeer (small_id 1) ''10.0.0.1:80''" and ?ks = "[small_id 1]"
  let ?r = "peerCache_AddPeer ?p NewPeerCache"
  have "mset ?ks = mset (keys (peers ?r))" by (simp add: keys_def peerCache_AddPeer_def NewPeerCache_def)
  from all_peers_once [OF peers_ok_Add [OF peers_ok_New] this] obtain ps where
    ps: "peerCache_GetAllPeers ?ks ?r = Ok (map Some ps)" "map peer_id ps = ?ks" "set ps = ran (known_peer ?r)"
    by (elim exE conjE) (rule that)
  then obtain q where "ps = [q]" by auto
  then show ?thesis using ps by simp
qed

text \<open>
  GetRandomPeers: the slice has the requested number of entries, five for a request of zero or
  less; the known peers come first, in the order of the iteration, and where there are fewer than
  requested the rest of the slice is nil, since the cut to the number of peers is assigned to the
  wrong variable.
\<close>

lemma random_peers_padded_with_nil:
  assumes "peers_ok r" and "mset ks = mset (keys (peers r))"
    and "n = nat (if sint c \<le> 0 then 5 else sint c)"
  shows "length (peerCache_GetRandomPeers ks c r) = n \<and>
    peerCache_GetRandomPeers ks c r =
      map Some (take n (peers_in ks r)) @ replicate (n - length (peers r)) None"
  using GetRandomPeers_slice [OF assms] peers_in_length [OF assms(1,2)] by simp

lemma random_peers_padded_with_nil_example:
  "peerCache_GetRandomPeers [] 0 NewPeerCache = [None, None, None, None, None]"
  using random_peers_padded_with_nil [OF peers_ok_New, of "[]" 5 0]
  by (simp add: keys_def NewPeerCache_def peers_in_def in_order_def List.map_filter_def numeral_eq_Suc)

end
