(* ===== verification/Message_Cache.thy ===== *)
theory Message_Cache
  imports Entities
begin

text \<open>
  \<open>main/data/messagecache.go\<close>: for each message the peers that have it, each until a deadline. Times
  are nanoseconds; each call of \<open>time.Now()\<close> in the source is an argument of the method, in the order
  of the calls. The contract \<open>quarantine\<close> says what the message handlers rely on.
\<close>

section \<open>The struct and its methods\<close>

record entry =
  receivers :: "(Id, int) gomap"

record messageCache =
  entries :: "(Id, entry) gomap"

definition timeToLive :: int where "timeToLive = 10 * 10 ^ 9"

definition NewMessageCache :: messageCache where
  "NewMessageCache = \<lparr>entries = []\<rparr>"

text \<open>
  The inner loop deletes the receivers whose deadline is before \<open>now\<close>, the outer one the messages
  with no receiver left. Deleting from a map during a range loop over it is defined in Go, and
  neither loop depends on the order of the visits.
\<close>

definition dropReceivers :: "int \<Rightarrow> entry \<Rightarrow> entry" where
  "dropReceivers now e = e\<lparr>receivers := filter (\<lambda>(peerId, deadline). \<not> deadline < now) (receivers e)\<rparr>"

definition messageCache_clearOutdated :: "int \<Rightarrow> messageCache \<Rightarrow> messageCache" where
  "messageCache_clearOutdated now c = c\<lparr>entries :=
     filter (\<lambda>(messageId, e). length (receivers e) \<noteq> 0)
       (map (\<lambda>(messageId, e). (messageId, dropReceivers now e)) (entries c))\<rparr>"

definition messageCache_ContainsMessageForPeer ::
  "int \<Rightarrow> int \<Rightarrow> Id \<Rightarrow> Id \<Rightarrow> messageCache \<Rightarrow> bool \<times> messageCache" where
  "messageCache_ContainsMessageForPeer now now' messageId peerId c =
     (let c' = messageCache_clearOutdated now c
      in (case map_of (entries c') messageId of
            None \<Rightarrow> False
          | Some e \<Rightarrow>
              (case map_of (receivers e) peerId of
                 None \<Rightarrow> False
               | Some deadline \<Rightarrow> now' < deadline),
          c'))"

definition messageCache_ContainsMessage :: "int \<Rightarrow> Id \<Rightarrow> messageCache \<Rightarrow> bool \<times> messageCache" where
  "messageCache_ContainsMessage now messageId c =
     (let c' = messageCache_clearOutdated now c
      in (map_of (entries c') messageId \<noteq> None, c'))"

definition messageCache_Hold :: "int \<Rightarrow> Id \<Rightarrow> Id \<Rightarrow> messageCache \<Rightarrow> messageCache" where
  "messageCache_Hold now messageId peerId c =
     (case map_of (entries c) messageId of
        None \<Rightarrow>
          c\<lparr>entries := AList.update messageId \<lparr>receivers = [(peerId, now + timeToLive)]\<rparr> (entries c)\<rparr>
      | Some item \<Rightarrow>
          (if map_of (receivers item) peerId = None
           then c\<lparr>entries := AList.update messageId
                  (item\<lparr>receivers := AList.update peerId (now + timeToLive) (receivers item)\<rparr>)
                  (entries c)\<rparr>
           else c))"

definition messageCache_Reset :: "messageCache \<Rightarrow> messageCache" where
  "messageCache_Reset c = c\<lparr>entries := []\<rparr>"

section \<open>Deadlines\<close>

text \<open>
  The cache as the deadline of each message and receiver. Every entry has a receiver, so a message
  is held exactly when some receiver has a deadline for it.
\<close>

definition deadline :: "messageCache \<Rightarrow> Id \<Rightarrow> Id \<Rightarrow> int option" where
  "deadline c m p = (case map_of (entries c) m of None \<Rightarrow> None | Some e \<Rightarrow> map_of (receivers e) p)"

definition cache_ok :: "messageCache \<Rightarrow> bool" where
  "cache_ok c \<longleftrightarrow> wf_map (entries c) \<and>
     (\<forall>m e. map_of (entries c) m = Some e \<longrightarrow> wf_map (receivers e) \<and> receivers e \<noteq> [])"

lemma map_of_map_snd: "map_of (map (\<lambda>(k, v). (k, f v)) m) k = map_option f (map_of m k)"
  by (induction m) auto

lemma wf_map_map_snd [simp]: "wf_map (map (\<lambda>(k, v). (k, f v)) m) = wf_map m"
  by (simp add: wf_map_def comp_def case_prod_unfold)

lemma entries_clearOutdated:
  assumes "cache_ok c"
  shows "map_of (entries (messageCache_clearOutdated now c)) m =
    (case map_of (entries c) m of
       None \<Rightarrow> None
     | Some e \<Rightarrow> if receivers (dropReceivers now e) = [] then None else Some (dropReceivers now e))"
  using assms
  by (simp add: messageCache_clearOutdated_def cache_ok_def map_of_filter_eq map_of_map_snd
      split: option.split)

lemma cache_ok_clearOutdated: "cache_ok c \<Longrightarrow> cache_ok (messageCache_clearOutdated now c)"
  using entries_clearOutdated [of c now]
  by (auto simp: cache_ok_def messageCache_clearOutdated_def dropReceivers_def
      intro!: wf_map_filter split: option.splits if_splits)

lemma deadline_clearOutdated:
  assumes "cache_ok c"
  shows "deadline (messageCache_clearOutdated now c) m p =
    (case deadline c m p of None \<Rightarrow> None | Some t \<Rightarrow> if t < now then None else Some t)"
proof (cases "map_of (entries c) m")
  case (Some e)
  then have wf: "wf_map (receivers e)" using assms by (auto simp: cache_ok_def)
  have drop: "map_of (receivers (dropReceivers now e)) p =
      (case map_of (receivers e) p of None \<Rightarrow> None | Some t \<Rightarrow> if t < now then None else Some t)"
    by (simp add: dropReceivers_def map_of_filter_eq [OF wf] split: option.split)
  have empty: "map_of (receivers (dropReceivers now e)) p = None" if "receivers (dropReceivers now e) = []"
    using that by simp
  show ?thesis
  proof (cases "receivers (dropReceivers now e) = []")
    case True
    then show ?thesis
      using Some drop empty by (simp add: deadline_def entries_clearOutdated [OF assms])
  next
    case False
    then show ?thesis
      using Some drop by (simp add: deadline_def entries_clearOutdated [OF assms])
  qed
qed (simp add: deadline_def entries_clearOutdated [OF assms])

lemma cache_ok_Hold: "cache_ok c \<Longrightarrow> cache_ok (messageCache_Hold now m p c)"
  by (auto simp: cache_ok_def messageCache_Hold_def update_conv' wf_map_def [of "[_]"]
      split: option.split)

lemma deadline_Hold:
  "deadline (messageCache_Hold now m p c) m' p' =
     (if m' = m \<and> p' = p \<and> deadline c m p = None then Some (now + timeToLive) else deadline c m' p')"
  by (auto simp: deadline_def messageCache_Hold_def update_conv' split: option.split)

lemma cache_ok_New: "cache_ok NewMessageCache"
  by (simp add: cache_ok_def NewMessageCache_def)

lemma cache_ok_Reset: "cache_ok (messageCache_Reset c)"
  by (simp add: cache_ok_def messageCache_Reset_def)

lemma deadline_Reset [simp]: "deadline (messageCache_Reset c) m p = None"
  by (simp add: deadline_def messageCache_Reset_def)

lemma deadline_New [simp]: "deadline NewMessageCache m p = None"
  by (simp add: deadline_def NewMessageCache_def)

lemma held_iff: "cache_ok c \<Longrightarrow> map_of (entries c) m \<noteq> None \<longleftrightarrow> (\<exists>p. deadline c m p \<noteq> None)"
proof (cases "map_of (entries c) m")
  case (Some e)
  moreover assume "cache_ok c"
  ultimately have "receivers e \<noteq> []"
    by (auto simp: cache_ok_def)
  then obtain x where "x \<in> set (receivers e)"
    by (meson hd_in_set)
  then have "map_of (receivers e) (fst x) \<noteq> None"
    by (metis domIff dom_map_of_conv_image_fst image_eqI)
  with Some show ?thesis by (auto simp: deadline_def)
qed (simp add: deadline_def)

lemma ContainsMessage_iff:
  assumes "cache_ok c"
  shows "fst (messageCache_ContainsMessage now m c) \<longleftrightarrow> (\<exists>p t. deadline c m p = Some t \<and> now \<le> t)"
proof -
  have "fst (messageCache_ContainsMessage now m c) \<longleftrightarrow>
      (\<exists>p. deadline (messageCache_clearOutdated now c) m p \<noteq> None)"
    using held_iff [OF cache_ok_clearOutdated [OF assms], of now m]
    by (simp add: messageCache_ContainsMessage_def Let_def)
  also have "\<dots> \<longleftrightarrow> (\<exists>p t. deadline c m p = Some t \<and> now \<le> t)"
    unfolding deadline_clearOutdated [OF assms]
    by (rule ex_cong1) (auto split: option.split)
  finally show ?thesis .
qed

lemma ContainsMessageForPeer_iff:
  assumes "cache_ok c"
  shows "fst (messageCache_ContainsMessageForPeer now now' m p c) \<longleftrightarrow>
    (\<exists>t. deadline c m p = Some t \<and> now \<le> t \<and> now' < t)"
proof -
  have "fst (messageCache_ContainsMessageForPeer now now' m p c) \<longleftrightarrow>
      (\<exists>t. deadline (messageCache_clearOutdated now c) m p = Some t \<and> now' < t)"
    by (auto simp: messageCache_ContainsMessageForPeer_def Let_def deadline_def split: option.splits)
  then show ?thesis
    by (auto simp: deadline_clearOutdated [OF assms] split: option.splits if_splits)
qed

lemma snd_Contains [simp]:
  "snd (messageCache_ContainsMessage now m c) = messageCache_clearOutdated now c"
  "snd (messageCache_ContainsMessageForPeer now now' m p c) = messageCache_clearOutdated now c"
  by (simp_all add: messageCache_ContainsMessage_def messageCache_ContainsMessageForPeer_def Let_def)

section \<open>The contract of a quarantine\<close>

text \<open>
  What the handlers rely on: a held message is seen until its deadline, a deadline is set once and
  never moves, and queries only forget what is past.
\<close>

locale quarantine =
  fixes containsFor :: "int \<Rightarrow> int \<Rightarrow> Id \<Rightarrow> Id \<Rightarrow> 'c \<Rightarrow> bool \<times> 'c"
    and contains :: "int \<Rightarrow> Id \<Rightarrow> 'c \<Rightarrow> bool \<times> 'c"
    and hold :: "int \<Rightarrow> Id \<Rightarrow> Id \<Rightarrow> 'c \<Rightarrow> 'c"
    and until :: "'c \<Rightarrow> Id \<Rightarrow> Id \<Rightarrow> int option"
    and ok :: "'c \<Rightarrow> bool"
    and ttl :: int
  assumes contains_iff: "ok c \<Longrightarrow> fst (contains now m c) \<longleftrightarrow> (\<exists>p t. until c m p = Some t \<and> now \<le> t)"
    and containsFor_iff: "ok c \<Longrightarrow> fst (containsFor now now' m p c) \<longleftrightarrow>
      (\<exists>t. until c m p = Some t \<and> now \<le> t \<and> now' < t)"
    and contains_until: "ok c \<Longrightarrow> until (snd (contains now m' c)) m p =
      (case until c m p of None \<Rightarrow> None | Some t \<Rightarrow> if t < now then None else Some t)"
    and containsFor_until: "ok c \<Longrightarrow> until (snd (containsFor now now' m' p' c)) m p =
      (case until c m p of None \<Rightarrow> None | Some t \<Rightarrow> if t < now then None else Some t)"
    and hold_until: "ok c \<Longrightarrow> until (hold now m p c) m' p' =
      (if m' = m \<and> p' = p \<and> until c m p = None then Some (now + ttl) else until c m' p')"
    and contains_ok: "ok c \<Longrightarrow> ok (snd (contains now m c))"
    and containsFor_ok: "ok c \<Longrightarrow> ok (snd (containsFor now now' m p c))"
    and hold_ok: "ok c \<Longrightarrow> ok (hold now m p c)"
    and ttl_pos: "0 < ttl"
begin

lemma hold_contains: "ok c \<Longrightarrow> until c m p = None \<Longrightarrow> now \<le> t \<Longrightarrow> t \<le> now + ttl \<Longrightarrow>
    fst (contains t m (hold now m p c))"
  by (auto simp: contains_iff hold_ok hold_until)

lemma hold_twice: "ok c \<Longrightarrow> until (hold t' m p (hold t m p c)) = until (hold t m p c)"
  by (intro ext) (auto simp: hold_until hold_ok)

lemma deadline_kept:
  assumes "ok c" and "until c m p = Some t" and "now \<le> t"
  shows "until (snd (contains now m' c)) m p = Some t"
    and "until (snd (containsFor now now' m' p' c)) m p = Some t"
    and "until (hold now' m' p' c) m p = Some t"
  using assms by (auto simp: contains_until containsFor_until hold_until)

end

interpretation mcache: quarantine
  messageCache_ContainsMessageForPeer messageCache_ContainsMessage messageCache_Hold
  deadline cache_ok timeToLive
  by unfold_locales
    (simp_all add: ContainsMessage_iff ContainsMessageForPeer_iff deadline_clearOutdated deadline_Hold
      cache_ok_clearOutdated cache_ok_Hold timeToLive_def)

section \<open>Properties of the message cache\<close>

text \<open>
  C32. The window of a message: a message that is new to the cache and is put into quarantine for one
  peer is found until ten seconds later and no longer; for that peer it is found as long as the
  deadline lies ahead, and for no other peer. Both queries leave the cache in order.
\<close>

theorem quarantine_window:
  assumes "cache_ok c" and "\<forall>q. deadline c m q = None"
  shows "(fst (messageCache_ContainsMessage t m (messageCache_Hold now m p c)) \<longleftrightarrow> t \<le> now + 10 * 10 ^ 9) \<and>
    (fst (messageCache_ContainsMessageForPeer t t' m q (messageCache_Hold now m p c)) \<longleftrightarrow>
      q = p \<and> t \<le> now + 10 * 10 ^ 9 \<and> t' < now + 10 * 10 ^ 9) \<and>
    cache_ok (snd (messageCache_ContainsMessage t m (messageCache_Hold now m p c)))"
  using assms mcache.contains_ok [OF mcache.hold_ok [OF assms(1)]]
  by (simp add: mcache.contains_iff mcache.containsFor_iff mcache.hold_ok mcache.hold_until timeToLive_def)

theorem quarantine_window_witness:
  "\<not> fst (messageCache_ContainsMessage 10000000001 (small_id 1)
     (messageCache_Hold 0 (small_id 1) (small_id 2) NewMessageCache))"
  using quarantine_window [OF cache_ok_New, of "small_id 1" 10000000001 0 "small_id 2"] by simp

text \<open>
  A deadline is set once: holding a message for a peer that already has a deadline, even one that
  has passed, changes nothing, and no query moves a deadline that lies ahead.
\<close>

lemma deadline_set_once:
  assumes "cache_ok c" and "deadline c m p = Some D"
  shows "messageCache_Hold now m p c = c \<and>
    deadline (messageCache_Hold now m' p' c) m p = Some D \<and>
    (now \<le> D \<longrightarrow> deadline (snd (messageCache_ContainsMessage now m' c)) m p = Some D \<and>
      deadline (snd (messageCache_ContainsMessageForPeer now now' m' p' c)) m p = Some D)"
proof (intro conjI impI)
  show "messageCache_Hold now m p c = c"
    using assms(2) by (auto simp: messageCache_Hold_def deadline_def split: option.splits)
  show "deadline (messageCache_Hold now m' p' c) m p = Some D"
    using assms by (auto simp: mcache.hold_until)
qed (use mcache.deadline_kept [OF assms] in auto)

lemma deadline_set_once_example:
  "deadline (messageCache_Hold 99 (small_id 1) (small_id 2)
     (messageCache_Hold 0 (small_id 1) (small_id 2) NewMessageCache)) (small_id 1) (small_id 2) = Some (10 * 10 ^ 9)"
  using deadline_set_once [OF cache_ok_Hold [OF cache_ok_New], of 0 "small_id 1" "small_id 2" "small_id 1"
      "small_id 2" "10 * 10 ^ 9" 99 "small_id 1" "small_id 2"]
  by (simp add: deadline_Hold timeToLive_def)

end
