(* ===== verification/Udp_Server.thy ===== *)
theory Udp_Server
  imports Entities
begin

text \<open>
  \<open>main/message/updserver.go\<close>: the UDP socket, open or not, and the loop that reads it. What the
  socket calls answer is an argument of the methods. A connection is its handle.
\<close>

section \<open>The struct and its methods\<close>

record udpServer =
  port :: int
  connection :: "nat option"

definition maxPacketSize :: int where "maxPacketSize = 10 * MiB"
definition maxReadTimeout :: int where "maxReadTimeout = 10 * 10 ^ 9"
definition maxWriteTimeout :: int where "maxWriteTimeout = 5 * 10 ^ 9"

definition NewUdpServer :: "int \<Rightarrow> udpServer" where
  "NewUdpServer p = \<lparr>port = p, connection = None\<rparr>"

text \<open>
  \<open>listen\<close> is what \<open>net.ListenPacket\<close> answers. The reader that \<open>Observe\<close> starts runs exactly as
  long as the connection it was given is open.
\<close>

definition udpServer_Observe :: "error + nat \<Rightarrow> udpServer \<Rightarrow> unit result \<times> udpServer" where
  "udpServer_Observe listen s =
     (if connection s \<noteq> None then (Err ErrAlreadyObserving, s)
      else
        (case listen of
           Inl err \<Rightarrow> (Err err, s)
         | Inr conn \<Rightarrow> (Ok (), s\<lparr>connection := Some conn\<rparr>)))"

text \<open>\<open>resolve\<close> and \<open>write\<close> are the errors of \<open>ResolveUDPAddr\<close> and \<open>WriteTo\<close>, if any.\<close>

definition udpServer_Send :: "error option \<Rightarrow> error option \<Rightarrow> udpServer \<Rightarrow> unit result" where
  "udpServer_Send resolve write s =
     (case connection s of
        None \<Rightarrow> Err ErrConnectionClosed
      | Some _ \<Rightarrow>
          (case resolve of
             Some err \<Rightarrow> Err err
           | None \<Rightarrow> (case write of Some err \<Rightarrow> Err err | None \<Rightarrow> Ok ())))"

definition udpServer_Stop :: "error option \<Rightarrow> udpServer \<Rightarrow> unit result \<times> udpServer" where
  "udpServer_Stop close s =
     (case connection s of
        None \<Rightarrow> (Ok (), s)
      | Some _ \<Rightarrow>
          ((case close of Some err \<Rightarrow> Err err | None \<Rightarrow> Ok ()), s\<lparr>connection := None\<rparr>))"

text \<open>
  One answer of \<open>ReadFrom\<close>: a packet, or an error with whether it is a timeout and whether it is a
  failed read on a closed connection.
\<close>

datatype read_event = Packet string bytes | ReadError (timeout: bool) (opRead: bool)

text \<open>The loop over the answers; at the end of the list it is blocked in \<open>ReadFrom\<close>.\<close>

fun readBlocking :: "read_event list \<Rightarrow> (string \<Rightarrow> bytes \<Rightarrow> ('w, unit) act) \<Rightarrow> ('w, unit) act" where
  "readBlocking [] transport = return ()"
| "readBlocking (ReadError isTimeout isRead # rest) transport =
     (if isTimeout then readBlocking rest transport
      else if isRead then return ()
      else readBlocking rest transport)"
| "readBlocking (Packet sender data # rest) transport =
     if_err (transport sender data)
       (\<lambda>err. readBlocking rest transport)
       (\<lambda>_. readBlocking rest transport)"

section \<open>Properties\<close>

lemma Send_closed: "connection s = None \<Longrightarrow> udpServer_Send resolve write s = Err ErrConnectionClosed"
  by (simp add: udpServer_Send_def)

lemma Send_Ok_iff:
  "udpServer_Send resolve write s = Ok () \<longleftrightarrow> connection s \<noteq> None \<and> resolve = None \<and> write = None"
  by (simp add: udpServer_Send_def split: option.split)

lemma Send_not_Panic: "udpServer_Send resolve write s \<noteq> Panic"
  by (simp add: udpServer_Send_def split: option.split)

lemma Observe_open: "connection s = Some c \<Longrightarrow> udpServer_Observe listen s = (Err ErrAlreadyObserving, s)"
  by (simp add: udpServer_Observe_def)

lemma Stop_closes: "connection (snd (udpServer_Stop close s)) = None"
  by (simp add: udpServer_Stop_def split: option.split)

text \<open>The packets that reach the handler: those before the connection is closed.\<close>

fun packets :: "read_event list \<Rightarrow> (string \<times> bytes) list" where
  "packets [] = []"
| "packets (ReadError isTimeout isRead # rest) =
     (if \<not> isTimeout \<and> isRead then [] else packets rest)"
| "packets (Packet sender data # rest) = (sender, data) # packets rest"

text \<open>An error of the handler does not end the loop: each packet is handed on, in order.\<close>

lemma readBlocking_packets:
  "readBlocking events transport = foreach (packets events) (\<lambda>(sender, data). ignore (transport sender data))"
proof (induction events transport rule: readBlocking.induct)
  case (3 sender data rest transport)
  then show ?case
    by (intro ext) (simp add: act_simps split: prod.split result.split)
qed simp_all

text \<open>What every packet keeps, the loop keeps.\<close>

lemma readBlocking_invariant:
  assumes "I w" and "\<And>s d w. I w \<Longrightarrow> wp (transport s d) (\<lambda>_. I) w"
  shows "wp (readBlocking events transport) (\<lambda>_. I) w"
  using assms
proof (induction events transport arbitrary: w rule: readBlocking.induct)
  case (3 sender data rest transport)
  have "wp (transport sender data) (\<lambda>_. I) w" by (rule "3.prems"(2) [OF "3.prems"(1)])
  then show ?case
    unfolding readBlocking.simps wp_if_err
    by (rule wp_weaken) (auto split: result.split intro: "3.IH" "3.prems"(2))
qed (auto simp: wp_simps)

text \<open>
  C36. The loop that reads the socket hands each packet that arrives before the connection is closed
  to the handler, in the order of arrival; an error of the handler, a timeout, or a read error that is
  not one of a closed connection does not end it.
\<close>

theorem read_loop_hands_on_packets:
  "readBlocking events transport = foreach (packets events) (\<lambda>(sender, data). ignore (transport sender data))"
  by (rule readBlocking_packets)

end
