(* ===== verification/Json.thy ===== *)
theory Json
  imports Preferences "HOL-Library.Char_ord"
begin

text \<open>
  What the request handlers use of Go's \<open>encoding/json\<close> and \<open>strconv\<close>: \<open>json.Marshal\<close> on strings,
  integers, slices and maps with string keys, and \<open>strconv.Atoi\<close>. Text is the string of its bytes.
\<close>

section \<open>strconv.Atoi\<close>

definition isDigit :: "char \<Rightarrow> bool" where
  "isDigit c \<longleftrightarrow> 48 \<le> (of_char c :: nat) \<and> (of_char c :: nat) \<le> 57"

definition digitsValue :: "string \<Rightarrow> int" where
  "digitsValue ds = foldl (\<lambda>n c. n * 10 + (of_char c - 48)) 0 ds"

text \<open>An optional sign and one or more digits, in the range of a 64-bit \<open>int\<close>.\<close>

definition Atoi :: "string \<Rightarrow> int result" where
  "Atoi s =
     (let neg = (s \<noteq> [] \<and> hd s = CHR ''-'');
          ds = (if s \<noteq> [] \<and> (hd s = CHR ''-'' \<or> hd s = CHR ''+'') then tl s else s)
      in if ds = [] \<or> \<not> list_all isDigit ds then Err ErrSyntax
         else
           (let v = (if neg then - digitsValue ds else digitsValue ds)
            in if - (2 ^ 63) \<le> v \<and> v < 2 ^ 63 then Ok v else Err ErrRange))"

lemma Atoi_not_Panic [simp]: "Atoi s \<noteq> Panic"
  by (simp add: Atoi_def Let_def)

lemma Atoi_range: "Atoi s = Ok v \<Longrightarrow> - (2 ^ 63) \<le> v \<and> v < 2 ^ 63"
  by (auto simp: Atoi_def Let_def split: if_splits)

lemma digit_char: "n < 10 \<Longrightarrow> of_char (char_of (48 + n) :: char) = (48 + n :: nat)"
  by simp

lemma decimal_digits: "list_all isDigit (decimal n) \<and> decimal n \<noteq> []"
proof (induction n rule: decimal.induct)
  case (1 n)
  have "isDigit (char_of (48 + n mod 10))"
    by (simp add: isDigit_def)
  moreover have "n < 10 \<Longrightarrow> isDigit (char_of (48 + n))"
    by (simp add: isDigit_def)
  ultimately show ?case
    using 1 by (subst (1 2) decimal.simps) simp
qed

lemma digitsValue_snoc: "digitsValue (ds @ [c]) = digitsValue ds * 10 + (of_char c - 48)"
  by (simp add: digitsValue_def)

lemma digitsValue_decimal: "digitsValue (decimal n) = int n"
proof (induction n rule: decimal.induct)
  case (1 n)
  show ?case
  proof (cases "n < 10")
    case True
    have "of_char (char_of (48 + n) :: char) = (int (48 + n))"
      using digit_char [OF True] by (metis of_nat_of_char)
    then show ?thesis
      using True by (subst decimal.simps) (simp add: digitsValue_def)
  next
    case False
    have d: "of_char (char_of (48 + n mod 10) :: char) = (int (48 + n mod 10))"
      using digit_char [of "n mod 10"] by (metis mod_less_divisor of_nat_of_char zero_less_numeral)
    have "digitsValue (decimal n) = digitsValue (decimal (n div 10)) * 10 + int (n mod 10)"
      using False d by (subst decimal.simps) (simp add: digitsValue_snoc)
    also have "\<dots> = int (n div 10) * 10 + int (n mod 10)"
      using "1.IH" False by simp
    also have "\<dots> = int (n div 10 * 10 + n mod 10)"
      by (simp only: of_nat_add of_nat_mult of_nat_numeral)
    also have "n div 10 * 10 + n mod 10 = n"
      by (rule div_mult_mod_eq)
    finally show ?thesis .
  qed
qed

text \<open>\<open>Atoi\<close> reads back what \<open>%d\<close> prints, for every 64-bit integer.\<close>

lemma decimal_no_sign: "hd (decimal n) \<noteq> CHR ''-''" "hd (decimal n) \<noteq> CHR ''+''"
  using decimal_digits [of n] by (cases "decimal n"; auto simp: isDigit_def)+

lemma Atoi_formatInt: "- (2 ^ 63) \<le> v \<Longrightarrow> v < 2 ^ 63 \<Longrightarrow> Atoi (formatInt v) = Ok v"
  using decimal_digits [of "nat v"] decimal_digits [of "nat (- v)"]
  by (auto simp: Atoi_def formatInt_def Let_def decimal_no_sign digitsValue_decimal)

lemma Atoi_formatInt_range: "\<not> (- (2 ^ 63) \<le> v \<and> v < 2 ^ 63) \<Longrightarrow> Atoi (formatInt v) = Err ErrRange"
  using decimal_digits [of "nat v"] decimal_digits [of "nat (- v)"]
  by (auto simp: Atoi_def formatInt_def Let_def decimal_no_sign digitsValue_decimal)

text \<open>
  What \<open>Atoi\<close> accepts, by itself: a text is that of an integer when it is an optional sign and decimal
  digits, at least one, which count by their places.
\<close>

definition place_value :: "string \<Rightarrow> int" where
  "place_value ds = (\<Sum>i<length ds. (of_char (ds ! i) - 48) * 10 ^ (length ds - 1 - i))"

definition integer_text :: "string \<Rightarrow> int \<Rightarrow> bool" where
  "integer_text t v \<longleftrightarrow> (\<exists>sign ds. t = sign @ ds \<and> sign \<in> {'''', ''+'', ''-''} \<and> ds \<noteq> [] \<and> set ds \<subseteq> set ''0123456789'' \<and>
     v = (if sign = ''-'' then - place_value ds else place_value ds))"

lemma digitsValue_place: "digitsValue ds = place_value ds"
proof (induction ds rule: rev_induct)
  case (snoc c ds)
  have "(\<Sum>i<length ds. (of_char (ds ! i) - 48) * 10 ^ (length ds - i)) = 10 * place_value ds"
    unfolding place_value_def sum_distrib_left
    by (rule sum.cong) (auto simp flip: power_Suc simp: Suc_diff_Suc)
  then have "place_value (ds @ [c]) = 10 * place_value ds + (of_char c - 48)"
    by (simp add: place_value_def nth_append)
  then show ?case using snoc.IH by (simp add: digitsValue_def)
qed (simp add: digitsValue_def place_value_def)

lemma isDigit_iff: "isDigit c \<longleftrightarrow> c \<in> set ''0123456789''"
proof
  assume c: "isDigit c"
  define n :: nat where "n = of_char c"
  then have "48 \<le> n \<and> n < 58" using c by (simp add: isDigit_def)
  then have "n \<in> set [48..<58]" unfolding set_upt atLeastLessThan_iff .
  moreover have "set ''0123456789'' = char_of ` set [48..<58 :: nat]" by (simp add: char_of_def bit_0)
  moreover have "c = char_of n" by (simp add: n_def)
  ultimately show "c \<in> set ''0123456789''" by blast
qed (auto simp: isDigit_def)

lemma integer_text_cases:
  "integer_text t v \<longleftrightarrow> t \<noteq> [] \<and> list_all isDigit t \<and> v = digitsValue t \<or>
     (\<exists>ds. t = CHR ''+'' # ds \<and> ds \<noteq> [] \<and> list_all isDigit ds \<and> v = digitsValue ds) \<or>
     (\<exists>ds. t = CHR ''-'' # ds \<and> ds \<noteq> [] \<and> list_all isDigit ds \<and> v = - digitsValue ds)"
proof -
  have split: "(\<exists>sign ds. t = sign @ ds \<and> sign \<in> {'''', ''+'', ''-''} \<and> P sign ds) \<longleftrightarrow>
      P '''' t \<or> (\<exists>ds. t = CHR ''+'' # ds \<and> P ''+'' ds) \<or> (\<exists>ds. t = CHR ''-'' # ds \<and> P ''-'' ds)" for P
    by (simp add: conj_disj_distribL conj_disj_distribR ex_disj_distrib)
  have digits: "set ds \<subseteq> set ''0123456789'' \<longleftrightarrow> list_all isDigit ds" for ds
    unfolding list_all_iff isDigit_iff by blast
  show ?thesis
    unfolding integer_text_def split digits digitsValue_place by simp
qed

lemma Atoi_iff: "Atoi t = Ok v \<longleftrightarrow> integer_text t v \<and> - (2 ^ 63) \<le> v \<and> v < 2 ^ 63"
proof (cases t)
  case (Cons c cs)
  have signs: "\<not> isDigit CHR ''-''" "\<not> isDigit CHR ''+''" by (simp_all add: isDigit_def)
  consider "c = CHR ''-''" | "c = CHR ''+''" | "c \<noteq> CHR ''-''" "c \<noteq> CHR ''+''" by blast
  then show ?thesis
  proof cases
    case 1
    then show ?thesis using signs unfolding integer_text_cases Cons by (auto simp: Atoi_def Let_def split: if_splits)
  next
    case 2
    then show ?thesis using signs unfolding integer_text_cases Cons by (auto simp: Atoi_def Let_def split: if_splits)
  next
    case 3
    then show ?thesis unfolding integer_text_cases Cons by (auto simp: Atoi_def Let_def split: if_splits)
  qed
qed (simp add: integer_text_cases Atoi_def)

section \<open>json.Marshal\<close>

datatype json = JStr string | JInt int | JArr "json list" | JObj "(string \<times> json) list"

definition hexDigit :: "nat \<Rightarrow> char" where
  "hexDigit n = (if n < 10 then char_of (48 + n) else char_of (87 + n))"

text \<open>A byte below 128: quotes, backslashes, control and HTML characters are escaped.\<close>

definition escapeChar :: "char \<Rightarrow> string" where
  "escapeChar c =
     (let n = of_char c :: nat
      in if c = CHR 0x5C \<or> n = 34 then [CHR 0x5C, c]
         else if n = 8 then [CHR 0x5C, CHR ''b'']
         else if n = 12 then [CHR 0x5C, CHR ''f'']
         else if n = 10 then [CHR 0x5C, CHR ''n'']
         else if n = 13 then [CHR 0x5C, CHR ''r'']
         else if n = 9 then [CHR 0x5C, CHR ''t'']
         else if n < 32 \<or> n = 60 \<or> n = 62 \<or> n = 38
         then [CHR 0x5C, CHR ''u'', CHR ''0'', CHR ''0'', hexDigit (n div 16), hexDigit (n mod 16)]
         else [c])"

text \<open>
  The length of the UTF-8 sequence that a string of bytes starts with, when its first byte is 128 or
  more; 0 when it is not one (\<open>utf8.DecodeRune\<close> gives \<open>RuneError\<close> of size 1).
\<close>

definition continuation :: "nat \<Rightarrow> nat \<Rightarrow> nat list \<Rightarrow> nat \<Rightarrow> bool" where
  "continuation lo hi bs k \<longleftrightarrow>
     length bs > k \<and> lo \<le> bs ! 1 \<and> bs ! 1 \<le> hi \<and> (\<forall>i \<in> {2..k}. 128 \<le> bs ! i \<and> bs ! i \<le> 191)"

definition runeSize :: "nat list \<Rightarrow> nat" where
  "runeSize bs =
     (let b = hd bs
      in if 0xC2 \<le> b \<and> b \<le> 0xDF then (if continuation 0x80 0xBF bs 1 then 2 else 0)
         else if b = 0xE0 then (if continuation 0xA0 0xBF bs 2 then 3 else 0)
         else if 0xE1 \<le> b \<and> b \<le> 0xEF \<and> b \<noteq> 0xED then (if continuation 0x80 0xBF bs 2 then 3 else 0)
         else if b = 0xED then (if continuation 0x80 0x9F bs 2 then 3 else 0)
         else if b = 0xF0 then (if continuation 0x90 0xBF bs 3 then 4 else 0)
         else if 0xF1 \<le> b \<and> b \<le> 0xF3 then (if continuation 0x80 0xBF bs 3 then 4 else 0)
         else if b = 0xF4 then (if continuation 0x80 0x8F bs 3 then 4 else 0)
         else 0)"

text \<open>Bytes that are not UTF-8 become U+FFFD; U+2028 and U+2029 are escaped.\<close>

function escape :: "string \<Rightarrow> string" where
  "escape [] = []"
| "escape (c # cs) =
     (if (of_char c :: nat) < 128 then escapeChar c @ escape cs
      else
        (let bs = map of_char (c # cs); k = runeSize bs
         in if k = 0 then CHR 0x5C # ''ufffd'' @ escape cs
            else if take 3 bs = [0xE2, 0x80, 0xA8] then CHR 0x5C # ''u2028'' @ escape (drop 2 cs)
            else if take 3 bs = [0xE2, 0x80, 0xA9] then CHR 0x5C # ''u2029'' @ escape (drop 2 cs)
            else take k (c # cs) @ escape (drop (k - 1) cs)))"
  by pat_completeness auto
termination
  by (relation "measure length") auto

definition quote :: "string \<Rightarrow> string" where
  "quote s = [CHR 0x22] @ escape s @ [CHR 0x22]"

fun commaSep :: "string list \<Rightarrow> string" where
  "commaSep [] = ''''"
| "commaSep [s] = s"
| "commaSep (s # ss) = s @ '','' @ commaSep ss"

text \<open>A map is printed in the order of its keys.\<close>

fun render :: "json \<Rightarrow> string" where
  "render (JStr s) = quote s"
| "render (JInt i) = formatInt i"
| "render (JArr js) = ''['' @ commaSep (map render js) @ '']''"
| "render (JObj kvs) =
     ''{'' @ commaSep (map snd (sort_key fst (map (\<lambda>(k, j). (k, quote k @ '':'' @ render j)) kvs))) @ ''}''"

definition Marshal :: "json \<Rightarrow> string result" where
  "Marshal j = Ok (render j)"

end
