(* ===== verification/Handlers.thy ===== *)
theory Handlers
  imports Json
begin

text \<open>
  \<open>main/request/handlers.go\<close> and \<open>main/request/usecases.go\<close>: the handlers of the REST API, from the
  arguments of a request to a body and a status. A nil body is the empty string. Indexing an empty
  slice with 0 panics.
\<close>

type_synonym args = "(string, string list) gomap"
type_synonym ('w) handler = "args \<Rightarrow> string \<Rightarrow> ('w, string \<times> int) act"

section \<open>JSON bodies\<close>

definition idToJson :: "uuid_pkg \<Rightarrow> Id \<Rightarrow> string result" where
  "idToJson U i = Marshal (JObj (AList.update ''id'' (JStr (Id_String U i)) []))"

definition idsToJson :: "uuid_pkg \<Rightarrow> Id list \<Rightarrow> string result" where
  "idsToJson U ids = Marshal (JArr (map (\<lambda>i. JStr (Id_String U i)) ids))"

definition docToJson :: "(string, string) gomap \<Rightarrow> string result" where
  "docToJson doc = Marshal (JObj (map (\<lambda>(k, v). (k, JStr v)) doc))"

definition hostToJson :: "uuid_pkg \<Rightarrow> Host \<Rightarrow> string result" where
  "hostToJson U host =
     Marshal (JObj
       (AList.update ''address'' (JStr (host_address host))
       (AList.update ''id'' (JStr (Id_String U (host_id host))) [])))"

definition deviceToJson :: "uuid_pkg \<Rightarrow> Device \<Rightarrow> string result" where
  "deviceToJson U device =
     Marshal (JObj
       (AList.update ''version'' (JInt (sint (dev_version device)))
       (AList.update ''state'' (JInt (uint (dev_state device)))
       (AList.update ''type'' (JInt (uint (dev_type device)))
       (AList.update ''owner'' (JStr (Id_String U (dev_owner device)))
       (AList.update ''id'' (JStr (Id_String U (dev_id device))) []))))))"

fun peersLoop :: "uuid_pkg \<Rightarrow> Peer list \<Rightarrow> (string, string) gomap \<Rightarrow> (string, string) gomap" where
  "peersLoop U [] data = data"
| "peersLoop U (peer # rest) data =
     peersLoop U rest (AList.update (Id_String U (peer_id peer)) (peer_address peer) data)"

definition peersToJson :: "uuid_pkg \<Rightarrow> Peer list \<Rightarrow> string result" where
  "peersToJson U ps = Marshal (JObj (map (\<lambda>(k, v). (k, JStr v)) (peersLoop U ps [])))"

section \<open>The handlers\<close>

definition status :: "int \<Rightarrow> ('w, string \<times> int) act" where
  "status code = return ('''', code)"

definition first :: "'a list \<Rightarrow> 'a result" where
  "first xs = (case xs of [] \<Rightarrow> Panic | x # _ \<Rightarrow> Ok x)"

definition NewGetHostInfoRequestHandler :: "uuid_pkg \<Rightarrow> ('w, Host) act \<Rightarrow> 'w handler" where
  "NewGetHostInfoRequestHandler U getHostInfo args content =
     if_err getHostInfo (\<lambda>err. status 500) (\<lambda>host.
     if_err (pure (hostToJson U host)) (\<lambda>err. status 500) (\<lambda>body.
     return (body, 200)))"

definition NewGetApiRequestHandler :: "('w, (string, string) gomap) act \<Rightarrow> 'w handler" where
  "NewGetApiRequestHandler getApiDocumentation args content =
     if_err getApiDocumentation (\<lambda>err. status 500) (\<lambda>doc.
     if_err (pure (docToJson doc)) (\<lambda>err. status 500) (\<lambda>body.
     return (body, 200)))"

definition NewGetDeviceIdsRequestHandler :: "uuid_pkg \<Rightarrow> ('w, Id list) act \<Rightarrow> 'w handler" where
  "NewGetDeviceIdsRequestHandler U getDeviceIds args content =
     if_err getDeviceIds (\<lambda>err. status 500) (\<lambda>ids.
     if_err (pure (idsToJson U ids)) (\<lambda>err. status 500) (\<lambda>body.
     return (body, 200)))"

definition NewGetDeviceRequestHandler :: "uuid_pkg \<Rightarrow> (Id \<Rightarrow> ('w, Device) act) \<Rightarrow> 'w handler" where
  "NewGetDeviceRequestHandler U getDevice args content =
     (case map_of args ''id'' of
        None \<Rightarrow> status 400
      | Some ids \<Rightarrow>
          bind (pure (first ids)) (\<lambda>text.
          if_err (getDevice (NewStringId U text)) (\<lambda>err. status 404) (\<lambda>device.
          if_err (pure (deviceToJson U device)) (\<lambda>err. status 500) (\<lambda>body.
          return (body, 200)))))"

text \<open>The state argument of a request: off when it is missing, a 400 when it is not a number.\<close>

definition stateArgument :: "args \<Rightarrow> DeviceState option" where
  "stateArgument args =
     (case map_of args ''state'' of
        None \<Rightarrow> Some DeviceStateOff
      | Some [] \<Rightarrow> Some DeviceStateOff
      | Some (v # _) \<Rightarrow> (case Atoi v of Ok value \<Rightarrow> Some (word_of_int value) | _ \<Rightarrow> None))"

definition NewPatchStateRequestHandler ::
  "uuid_pkg \<Rightarrow> (Id \<Rightarrow> DeviceState \<Rightarrow> ('w, unit) act) \<Rightarrow> 'w handler" where
  "NewPatchStateRequestHandler U updateState args content =
     (case map_of args ''id'' of
        None \<Rightarrow> status 400
      | Some ids \<Rightarrow>
          bind (pure (first ids)) (\<lambda>text.
          (let deviceId = NewStringId U text
           in case stateArgument args of
                None \<Rightarrow> status 400
              | Some deviceState \<Rightarrow>
                  if_err (updateState deviceId deviceState) (\<lambda>err. status 500) (\<lambda>_. status 200))))"

definition NewCreateDeviceRequestHandler ::
  "uuid_pkg \<Rightarrow> (DeviceType \<Rightarrow> DeviceState \<Rightarrow> ('w, Id) act) \<Rightarrow> 'w handler" where
  "NewCreateDeviceRequestHandler U createDevice args content =
     (case map_of args ''type'' of
        None \<Rightarrow> status 400
      | Some [] \<Rightarrow> status 400
      | Some (v # _) \<Rightarrow>
          (case Atoi v of
             Ok value \<Rightarrow>
               (let deviceType = word_of_int value
                in case stateArgument args of
                     None \<Rightarrow> status 400
                   | Some deviceState \<Rightarrow>
                       if_err (createDevice deviceType deviceState) (\<lambda>err. status 500) (\<lambda>i.
                       if_err (pure (idToJson U i)) (\<lambda>err. status 500) (\<lambda>body.
                       return (body, 200))))
           | _ \<Rightarrow> status 400))"

definition NewDeleteDeviceRequestHandler :: "uuid_pkg \<Rightarrow> (Id \<Rightarrow> ('w, bool) act) \<Rightarrow> 'w handler" where
  "NewDeleteDeviceRequestHandler U deleteDevice args content =
     (case map_of args ''id'' of
        None \<Rightarrow> status 400
      | Some [] \<Rightarrow> status 400
      | Some (v # _) \<Rightarrow>
          if_err (deleteDevice (NewStringId U v)) (\<lambda>err. status 404) (\<lambda>deleted.
          if \<not> deleted then status 403 else status 200))"

definition NewGetPeersRequestHandler :: "uuid_pkg \<Rightarrow> ('w, Peer list) act \<Rightarrow> 'w handler" where
  "NewGetPeersRequestHandler U getPeers args content =
     bind getPeers (\<lambda>ps.
     if_err (pure (peersToJson U ps)) (\<lambda>err. status 500) (\<lambda>body.
     return (body, 200)))"

definition NewAddPeerRequestHandler :: "uuid_pkg \<Rightarrow> (Peer \<Rightarrow> ('w, unit) act) \<Rightarrow> 'w handler" where
  "NewAddPeerRequestHandler U addPeer args content =
     (case map_of args ''id'' of
        None \<Rightarrow> status 400
      | Some [] \<Rightarrow> status 400
      | Some (i # _) \<Rightarrow>
          (case map_of args ''address'' of
             None \<Rightarrow> status 400
           | Some [] \<Rightarrow> status 400
           | Some (address # _) \<Rightarrow>
               bind (addPeer (NewPeer (NewStringId U i) address)) (\<lambda>_. status 200)))"

definition NewJoinNetworkRequestHandler :: "('w, unit) act \<Rightarrow> 'w handler" where
  "NewJoinNetworkRequestHandler joinNetwork args content =
     if_err joinNetwork (\<lambda>err. status 500) (\<lambda>_. status 202)"

definition NewLeaveNetworkRequestHandler :: "('w, unit) act \<Rightarrow> 'w handler" where
  "NewLeaveNetworkRequestHandler leaveNetwork args content =
     if_err leaveNetwork (\<lambda>err. status 500) (\<lambda>_. status 202)"

definition NewShutdownRequestHandler :: "('w, unit) act \<Rightarrow> 'w handler" where
  "NewShutdownRequestHandler shutdown args content =
     if_err shutdown (\<lambda>err. status 500) (\<lambda>_. status 200)"

section \<open>The use cases of the package request\<close>

definition NewGetApiDocUseCase :: "('w, (string, string) gomap) act" where
  "NewGetApiDocUseCase = return
     [(''DELETE /device/{id}'', ''Delete a device previously created by you.''),
      (''DELETE /network'', ''Leave the network, stop syncing state.''),
      (''GET /'', ''This resource''),
      (''GET /device'', ''Get all devices your peer currently knows about.''),
      (''GET /device/{id}'', ''Get the last synched state for the given device.''),
      (''GET /info'', ''Display your peer info.''),
      (''GET /peer'', ''Get all peers you currently see.''),
      (''POST /device'', ''Create a new device, params: '' @ [CHR 0x22] @ ''type'' @ [CHR 0x22] @
         ''=1 (light), '' @ [CHR 0x22] @ ''state'' @ [CHR 0x22] @ ''=[0|1] (off/on)''),
      (''POST /network'', ''Join the network, start syncing state.''),
      (''POST /peer'', ''Manually add a new peer (needed in networks not supporting multicast).''),
      (''POST /shutdown'', ''Shut down and exit the application.'')]"

definition NewShutdownUseCase :: "('w, unit) act \<Rightarrow> ('w, unit) act \<Rightarrow> ('w, unit) act \<Rightarrow> ('w, unit) act" where
  "NewShutdownUseCase clearPeerCache clearMessageCache shutDownServices =
     bind clearPeerCache (\<lambda>_. bind clearMessageCache (\<lambda>_. shutDownServices))"

definition NewDeleteDeviceUseCase ::
  "(Id \<Rightarrow> ('w, bool) act) \<Rightarrow> (Id \<Rightarrow> ('w, unit) act) \<Rightarrow> Id \<Rightarrow> ('w, bool) act" where
  "NewDeleteDeviceUseCase checkIfOwner deleteDevice deviceId =
     bind (checkIfOwner deviceId) (\<lambda>isOwner.
     if isOwner then return False
     else bind (deleteDevice deviceId) (\<lambda>_. return True))"

section \<open>Frames\<close>

context state_order
begin

lemma within_status: "within R (status c)"
  unfolding status_def by (rule within_return)

lemma within_handlers:
  shows "within R m1 \<Longrightarrow> within R (NewGetHostInfoRequestHandler U m1 args content)"
    and "within R m2 \<Longrightarrow> within R (NewGetApiRequestHandler m2 args content)"
    and "within R m3 \<Longrightarrow> within R (NewGetDeviceIdsRequestHandler U m3 args content)"
    and "(\<And>i. within R (f1 i)) \<Longrightarrow> within R (NewGetDeviceRequestHandler U f1 args content)"
    and "(\<And>i s. within R (f2 i s)) \<Longrightarrow> within R (NewPatchStateRequestHandler U f2 args content)"
    and "(\<And>t s. within R (f3 t s)) \<Longrightarrow> within R (NewCreateDeviceRequestHandler U f3 args content)"
    and "(\<And>i. within R (f4 i)) \<Longrightarrow> within R (NewDeleteDeviceRequestHandler U f4 args content)"
    and "within R m4 \<Longrightarrow> within R (NewGetPeersRequestHandler U m4 args content)"
    and "(\<And>p. within R (f5 p)) \<Longrightarrow> within R (NewAddPeerRequestHandler U f5 args content)"
    and "within R m5 \<Longrightarrow> within R (NewJoinNetworkRequestHandler m5 args content)"
    and "within R m5 \<Longrightarrow> within R (NewLeaveNetworkRequestHandler m5 args content)"
    and "within R m5 \<Longrightarrow> within R (NewShutdownRequestHandler m5 args content)"
  unfolding NewGetHostInfoRequestHandler_def NewGetApiRequestHandler_def
    NewGetDeviceIdsRequestHandler_def NewGetDeviceRequestHandler_def
    NewPatchStateRequestHandler_def NewCreateDeviceRequestHandler_def
    NewDeleteDeviceRequestHandler_def NewGetPeersRequestHandler_def NewAddPeerRequestHandler_def
    NewJoinNetworkRequestHandler_def NewLeaveNetworkRequestHandler_def NewShutdownRequestHandler_def
    Let_def
  by (auto intro!: within_rules within_status split: option.split list.split result.split)

lemma within_request_usecases:
  shows "within R NewGetApiDocUseCase"
    and "within R a \<Longrightarrow> within R b \<Longrightarrow> within R c \<Longrightarrow> within R (NewShutdownUseCase a b c)"
    and "(\<And>i. within R (f i)) \<Longrightarrow> (\<And>i. within R (g i)) \<Longrightarrow> within R (NewDeleteDeviceUseCase f g i)"
  unfolding NewGetApiDocUseCase_def NewShutdownUseCase_def NewDeleteDeviceUseCase_def
  by (intro within_rules; simp)+

end

section \<open>Properties of the arguments\<close>

text \<open>
  C37. The state argument of a request, for all arguments: no value means off. Otherwise the first value
  counts, and the request is refused unless it is the text of an integer (an optional sign and decimal
  digits, nothing else) in the range of a 64-bit int; that integer is taken modulo 256, without a check of
  its size.
\<close>

theorem state_argument:
  "stateArgument args = Some st \<longleftrightarrow>
     map_of args ''state'' \<in> {None, Some []} \<and> st = DeviceStateOff \<or>
     (\<exists>t ts v. map_of args ''state'' = Some (t # ts) \<and> integer_text t v \<and> - (2 ^ 63) \<le> v \<and> v < 2 ^ 63 \<and>
        st = word_of_int v)"
proof (cases "map_of args ''state''")
  case (Some texts)
  show ?thesis
  proof (cases texts)
    case (Cons t ts)
    have "stateArgument args = Some st \<longleftrightarrow> (\<exists>v. Atoi t = Ok v \<and> st = word_of_int v)"
      using Some Cons by (auto simp: stateArgument_def split: result.split)
    then show ?thesis using Some Cons by (auto simp: Atoi_iff)
  qed (use Some in \<open>auto simp: stateArgument_def\<close>)
qed (auto simp: stateArgument_def)

theorem state_argument_witness:
  "stateArgument [(''state'', [''abc''])] = None \<and> stateArgument [(''state'', [''+256''])] = Some 0"
proof -
  have "\<not> integer_text ''abc'' v" for v by (auto simp: integer_text_def Cons_eq_append_conv)
  then have "stateArgument [(''state'', [''abc''])] \<noteq> Some st" for st
    using state_argument [of "[(''state'', [''abc''])]" st] by simp
  then have "stateArgument [(''state'', [''abc''])] = None" by (cases "stateArgument [(''state'', [''abc''])]") auto
  moreover have "integer_text ''+256'' 256"
    unfolding integer_text_def by (rule exI [of _ "''+''"], rule exI [of _ "''256''"]) (simp add: place_value_def)
  then have "stateArgument [(''state'', [''+256''])] = Some 0"
    using state_argument [of "[(''state'', [''+256''])]" 0] by (auto intro!: exI [of _ "256 :: int"])
  ultimately show ?thesis by blast
qed

end
