(* ===== verification/Http_Server.thy ===== *)
theory Http_Server
  imports Handlers
begin

text \<open>
  \<open>main/request/httpserver.go\<close>: the server from its start to its shutdown, how the arguments of a request
  are collected for a handler, and the response made of its result. The parts of Go's \<open>http.Request\<close> that
  the code reads are the fields of a record; routing and the sockets are left to \<open>net/http\<close>.
\<close>

section \<open>The server\<close>

text \<open>
  What the code uses of the packages \<open>context\<close> and \<open>os/signal\<close>: a context that is cancelled by signals, and
  one that carries a value under the key \<open>KeyServerAddress\<close>, which is of the empty struct type.
\<close>

datatype signal = SIGINT | SIGTERM | OtherSignal nat

datatype Context = Background | NotifyContext Context "signal list" | WithValue Context unit string

fun cancels :: "Context \<Rightarrow> signal \<Rightarrow> bool" where
  "cancels Background sig = False"
| "cancels (NotifyContext ctx sigs) sig = (sig \<in> set sigs \<or> cancels ctx sig)"
| "cancels (WithValue ctx key v) sig = cancels ctx sig"

fun contextValue :: "Context \<Rightarrow> unit \<Rightarrow> string option" where
  "contextValue Background key = None"
| "contextValue (NotifyContext ctx sigs) key = contextValue ctx key"
| "contextValue (WithValue ctx key v) key' = (if key = key' then Some v else contextValue ctx key')"

definition KeyServerAddress :: unit where "KeyServerAddress = ()"

text \<open>
  The fields of \<open>http.Server\<close> that the code sets, and the state of the server: it is started once, then serves
  or has failed to listen, until it is shut down. The multiplexer holds the routes; its handlers work on
  the state of the process, so that they are kept apart (\<open>routes\<close> in \<open>Controller\<close>).
\<close>

datatype serverState = NotStarted | Serving | ListenFailed | ShutDown

record httpServer =
  Addr :: string
  BaseContext :: "string \<Rightarrow> Context"
  serverState :: serverState

definition NewHttpServer :: "Context \<Rightarrow> int \<Rightarrow> httpServer" where
  "NewHttpServer baseContext serverPort =
     \<lparr>Addr = withPort ''localhost'' serverPort,
      BaseContext = (\<lambda>serverAddressValue. WithValue baseContext KeyServerAddress serverAddressValue),
      serverState = NotStarted\<rparr>"

definition ErrServerClosed :: error where "ErrServerClosed = ErrExternal ''http: Server closed''"

text \<open>
  \<open>ListenAndServe\<close> answers an error at once when the server was shut down before, or when it cannot listen;
  otherwise it blocks (\<open>None\<close>) and serves. \<open>listen\<close> is the error of opening the port, if any.
\<close>

definition ListenAndServe :: "error option \<Rightarrow> httpServer \<Rightarrow> error option \<times> httpServer" where
  "ListenAndServe listen s =
     (if serverState s = ShutDown then (Some ErrServerClosed, s)
      else
        (case listen of
           Some err \<Rightarrow> (Some err, s\<lparr>serverState := ListenFailed\<rparr>)
         | None \<Rightarrow> (None, s\<lparr>serverState := Serving\<rparr>)))"

text \<open>What \<open>Serve\<close> returns, if it does; a serving one returns when the server is shut down, without error.\<close>

definition server_Serve :: "error option \<Rightarrow> httpServer \<Rightarrow> unit result option \<times> httpServer" where
  "server_Serve listen s =
     (case ListenAndServe listen s of
        (None, s') \<Rightarrow> (None, s')
      | (Some err, s') \<Rightarrow> (Some (if err \<noteq> ErrServerClosed then Err err else Ok ()), s'))"

definition shutdownTimeout :: int where "shutdownTimeout = 10 * 10 ^ 9"

text \<open>
  \<open>Shutdown\<close> closes the port at once and then waits for the open connections, no longer than
  \<open>shutdownTimeout\<close>; \<open>shutdown\<close> gives its error, if any, for the time that it may take.
\<close>

definition server_Stop :: "(int \<Rightarrow> error option) \<Rightarrow> httpServer \<Rightarrow> unit result \<times> httpServer" where
  "server_Stop shutdown s =
     ((case shutdown shutdownTimeout of Some err \<Rightarrow> Err err | None \<Rightarrow> Ok ()), s\<lparr>serverState := ShutDown\<rparr>)"

lemma NewHttpServer_context:
  "contextValue (BaseContext (NewHttpServer ctx p) address) KeyServerAddress = Some address"
  "cancels (BaseContext (NewHttpServer ctx p) address) = cancels ctx"
  by (auto simp: NewHttpServer_def)

text \<open>A server that was shut down stays so, and a later call of \<open>Serve\<close> returns without an error.\<close>

lemma Serve_shut_down:
  "server_Serve listen (snd (server_Stop shutdown s)) = (Some (Ok ()), snd (server_Stop shutdown s))"
  by (simp add: server_Serve_def ListenAndServe_def server_Stop_def)

lemma Serve_blocks_iff:
  "fst (server_Serve listen s) = None \<longleftrightarrow> serverState s \<noteq> ShutDown \<and> listen = None"
  "fst (server_Serve listen s) = None \<longleftrightarrow> serverState s \<noteq> ShutDown \<and> serverState (snd (server_Serve listen s)) = Serving"
  by (auto simp: server_Serve_def ListenAndServe_def split: option.split)

section \<open>Requests and responses\<close>

text \<open>
  \<open>PathValue\<close> is the text a wildcard of the route matched; \<open>ParseForm\<close> the values of the query and
  the form, in the order of the iteration over \<open>request.Form\<close>, or the error of parsing them;
  \<open>ReadAll\<close> the body as far as it could be read.
\<close>

record request =
  PathValue :: "string \<Rightarrow> string"
  ParseForm :: "error + (string \<times> string list) list"
  ReadAll :: string

record response =
  Content_Type :: string
  Content_Length :: string
  response_status :: int
  response_body :: string

section \<open>Route patterns\<close>

definition keyChar :: "char \<Rightarrow> bool" where
  "keyChar c \<longleftrightarrow> (let n = of_char c :: nat in (97 \<le> n \<and> n \<le> 122) \<or> (48 \<le> n \<and> n \<le> 57))"

text \<open>
  The first groups of all matches of the pattern: a brace, one or more lower-case letters or digits,
  a closing brace. The class does not hold the closing brace, so the longest run decides.
\<close>

function pathKeys :: "string \<Rightarrow> string list" where
  "pathKeys [] = []"
| "pathKeys (c # cs) =
     (let key = takeWhile keyChar cs; rest = dropWhile keyChar cs
      in if c = CHR ''{'' \<and> key \<noteq> [] \<and> rest \<noteq> [] \<and> hd rest = CHR ''}''
         then key # pathKeys (tl rest)
         else pathKeys cs)"
  by pat_completeness auto
termination
  by (relation "measure length")
    (auto simp: less_Suc_eq_le intro: le_trans [OF diff_le_self length_dropWhile_le])

section \<open>Arguments\<close>

fun parsePathSegments :: "string list \<Rightarrow> request \<Rightarrow> args \<Rightarrow> args" where
  "parsePathSegments [] request params = params"
| "parsePathSegments (key # ks) request params =
     (let v = PathValue request key
      in parsePathSegments ks request
           (case map_of params key of
              None \<Rightarrow> AList.update key [v] params
            | Some values \<Rightarrow>
                (if length values = 0 then AList.update key [v] params
                 else AList.update key (values @ [v]) params)))"

fun formLoop :: "(string \<times> string list) list \<Rightarrow> args \<Rightarrow> args" where
  "formLoop [] params = params"
| "formLoop ((key, values) # rest) params =
     (if length values = 0 then formLoop rest params
      else
        formLoop rest
          (case map_of params key of
             None \<Rightarrow> AList.update key values params
           | Some existingValues \<Rightarrow>
               (if length existingValues = 0 then AList.update key values params
                else AList.update key (existingValues @ values) params)))"

definition parseQueryAndFormValues :: "request \<Rightarrow> args \<Rightarrow> args" where
  "parseQueryAndFormValues request params =
     (case ParseForm request of Inl err \<Rightarrow> params | Inr form \<Rightarrow> formLoop form params)"

definition requestArgs :: "string \<Rightarrow> request \<Rightarrow> args" where
  "requestArgs path request =
     parseQueryAndFormValues request (parsePathSegments (pathKeys path) request [])"

text \<open>The function that \<open>Handle\<close> registers for a route.\<close>

definition server_Handle :: "string \<Rightarrow> 'w handler \<Rightarrow> request \<Rightarrow> ('w, response) act" where
  "server_Handle path handler request =
     bind (handler (requestArgs path request) (ReadAll request)) (\<lambda>(body, code).
     return
       \<lparr>Content_Type = ''application/json'', Content_Length = formatInt (int (length body)),
        response_status = code, response_body = body\<rparr>)"

section \<open>A path value comes first\<close>

definition firstArg :: "args \<Rightarrow> string \<Rightarrow> string option" where
  "firstArg params key =
     (case map_of params key of None \<Rightarrow> None | Some values \<Rightarrow> (case values of [] \<Rightarrow> None | v # _ \<Rightarrow> Some v))"

lemma formLoop_keeps_first: "firstArg params k = Some v \<Longrightarrow> firstArg (formLoop form params) k = Some v"
proof (induction form params rule: formLoop.induct)
  case (2 key vs rest params)
  show ?case
  proof (cases "length vs = 0")
    case True
    then show ?thesis using 2 by simp
  next
    case False
    show ?thesis
      unfolding formLoop.simps if_not_P [OF False]
      by (rule "2.IH"(2) [OF False])
        (use "2.prems" in \<open>auto simp: firstArg_def update_conv' split: option.splits list.splits\<close>)
  qed
qed simp

lemma parsePathSegments_keeps_first:
  "firstArg params k = Some v \<Longrightarrow> firstArg (parsePathSegments ks request params) k = Some v"
proof (induction ks request params rule: parsePathSegments.induct)
  case (2 key ks request params)
  show ?case
    unfolding parsePathSegments.simps Let_def
    by (rule "2.IH" [OF refl])
      (use "2.prems" in \<open>auto simp: firstArg_def update_conv' split: option.splits list.splits\<close>)
qed simp

lemma parsePathSegments_first:
  "k \<in> set ks \<Longrightarrow> firstArg params k = None \<Longrightarrow>
   firstArg (parsePathSegments ks request params) k = Some (PathValue request k)"
proof (induction ks arbitrary: params)
  case (Cons key ks)
  show ?case
  proof (cases "key = k")
    case True
    show ?thesis
      unfolding parsePathSegments.simps Let_def
      by (rule parsePathSegments_keeps_first)
        (use True Cons.prems(2) in \<open>auto simp: firstArg_def update_conv' split: option.splits list.splits\<close>)
  next
    case False
    show ?thesis
      unfolding parsePathSegments.simps Let_def
      by (rule Cons.IH)
        (use False Cons.prems in \<open>auto simp: firstArg_def update_conv' split: option.splits list.splits\<close>)
  qed
qed simp

lemma requestArgs_path_value:
  "k \<in> set (pathKeys path) \<Longrightarrow> firstArg (requestArgs path request) k = Some (PathValue request k)"
  unfolding requestArgs_def parseQueryAndFormValues_def
  by (auto split: sum.split intro!: formLoop_keeps_first parsePathSegments_first)
    (simp_all add: firstArg_def)

text \<open>The same as an equation that rewrites the lookup of the handlers.\<close>

lemma requestArgs_key:
  assumes "k \<in> set (pathKeys path)"
  shows "map_of (requestArgs path request) k =
    Some (PathValue request k # tl (the (map_of (requestArgs path request) k)))"
  using requestArgs_path_value [OF assms, of request]
  by (auto simp: firstArg_def split: option.splits list.splits)

lemma id_keys:
  "''id'' \<in> set (pathKeys ''GET /device/{id}'')" "''id'' \<in> set (pathKeys ''PATCH /device/{id}'')"
  "''id'' \<in> set (pathKeys ''DELETE /device/{id}'')"
  by (simp_all add: Let_def keyChar_def)

lemmas id_argument = id_keys [THEN requestArgs_key]

text \<open>
  The value a handler reads for a wildcard of its route is the one of the path, whatever values of
  the same name the query and the form of the request carry.
\<close>

lemma path_value_wins:
  assumes "k \<in> set (pathKeys path)"
  shows "\<exists>vs. map_of (requestArgs path request) k = Some (PathValue request k # vs)"
  using requestArgs_key [OF assms, of request] by blast

lemma path_value_wins_example:
  "\<exists>vs. map_of (requestArgs ''PATCH /device/{id}''
     \<lparr>PathValue = (\<lambda>k. ''a''), ParseForm = Inr [(''id'', [''b''])], ReadAll = ''''\<rparr>) ''id'' = Some (''a'' # vs)"
  using path_value_wins [of "''id''" "''PATCH /device/{id}''"
      "\<lparr>PathValue = (\<lambda>k. ''a''), ParseForm = Inr [(''id'', [''b''])], ReadAll = ''''\<rparr>"]
  by (simp add: Let_def keyChar_def)

end
