(* ===== verification/World.thy ===== *)
theory World
  imports Data_Usecases Message_Usecases Peer_Cache Message_Cache Udp_Server Http_Server
begin

text \<open>
  The state of a running process, which \<open>main/lib.go\<close> keeps in the struct \<open>controller\<close>, and the methods
  of its components on that state. The record \<open>external\<close> holds everything the process asks of the
  world outside: the packages \<open>uuid\<close>, \<open>badger\<close> and \<open>machineid\<close>, the clock, the random order of Go's map
  iteration, the network. What an outside call answers depends on the moment of the call; each call
  advances the moment, so that two calls may be answered differently.
\<close>

section \<open>State\<close>

record 'd external =
  uuid :: uuid_pkg
  badger_db :: "'d badger"
  clock :: "nat \<Rightarrow> int"
  key_order :: "nat \<Rightarrow> Id list \<Rightarrow> Id list"
  peer_order :: "nat \<Rightarrow> Peer list \<Rightarrow> Peer list"
  machine_ID :: "nat \<Rightarrow> error + string"
  InterfaceAddrs :: "nat \<Rightarrow> error + netAddr list"
  ListenPacket :: "nat \<Rightarrow> error + nat"
  ResolveUDPAddr :: "nat \<Rightarrow> string \<Rightarrow> error option"
  WriteTo :: "nat \<Rightarrow> string \<Rightarrow> bytes \<Rightarrow> error option"
  CloseConn :: "nat \<Rightarrow> error option"
  ListenTCP :: "nat \<Rightarrow> string \<Rightarrow> error option"
  Shutdown :: "nat \<Rightarrow> int \<Rightarrow> error option"

text \<open>
  \<open>sent\<close> is the history of the datagrams that were handed to the socket, with their addresses;
  \<open>cancelled\<close> says that the main context was cancelled.
\<close>

record 'd world =
  properties :: preferences
  disk :: 'd
  peer_cache :: peerCache
  message_cache :: messageCache
  udp :: udpServer
  cancelled :: bool
  moment :: nat
  sent :: "(string \<times> bytes) list"
  api :: httpServer

text \<open>The context of \<open>NewController\<close>, which two signals cancel; \<open>NewWorld\<close> is what \<open>SetupInfrastructure\<close> makes of it.\<close>

definition NewController :: Context where
  "NewController = NotifyContext Background [SIGINT, SIGTERM]"

definition NewWorld :: "int \<Rightarrow> int \<Rightarrow> 'd \<Rightarrow> 'd world" where
  "NewWorld apiServerPort messageServerPort d =
     \<lparr>properties = NewPreferences apiServerPort messageServerPort, disk = d,
      peer_cache = NewPeerCache, message_cache = NewMessageCache, udp = NewUdpServer messageServerPort,
      cancelled = False, moment = 0, sent = [], api = NewHttpServer NewController apiServerPort\<rparr>"

section \<open>The methods of the components on the state\<close>

definition draw :: "(nat \<Rightarrow> 'a result) \<Rightarrow> ('d world, 'a) act" where
  "draw f w = (f (moment w), w\<lparr>moment := Suc (moment w)\<rparr>)"

definition on_properties :: "(nat \<Rightarrow> preferences \<Rightarrow> 'a result \<times> preferences) \<Rightarrow> ('d world, 'a) act" where
  "on_properties f w =
     (case f (moment w) (properties w) of (r, p) \<Rightarrow> (r, w\<lparr>properties := p, moment := Suc (moment w)\<rparr>))"

definition on_disk :: "(nat \<Rightarrow> 'd \<Rightarrow> 'a result \<times> 'd) \<Rightarrow> ('d world, 'a) act" where
  "on_disk f w = (case f (moment w) (disk w) of (r, d) \<Rightarrow> (r, w\<lparr>disk := d, moment := Suc (moment w)\<rparr>))"

definition on_peers :: "(nat \<Rightarrow> peerCache \<Rightarrow> 'a \<times> peerCache) \<Rightarrow> ('d world, 'a) act" where
  "on_peers f w =
     (case f (moment w) (peer_cache w) of (a, c) \<Rightarrow> (Ok a, w\<lparr>peer_cache := c, moment := Suc (moment w)\<rparr>))"

definition on_cache :: "(nat \<Rightarrow> messageCache \<Rightarrow> 'a \<times> messageCache) \<Rightarrow> ('d world, 'a) act" where
  "on_cache f w =
     (case f (moment w) (message_cache w) of (a, c) \<Rightarrow>
        (Ok a, w\<lparr>message_cache := c, moment := moment w + 2\<rparr>))"

definition on_udp :: "(nat \<Rightarrow> udpServer \<Rightarrow> 'a result \<times> udpServer) \<Rightarrow> ('d world, 'a) act" where
  "on_udp f w = (case f (moment w) (udp w) of (r, s) \<Rightarrow> (r, w\<lparr>udp := s, moment := Suc (moment w)\<rparr>))"

definition on_api :: "(nat \<Rightarrow> httpServer \<Rightarrow> 'a result \<times> httpServer) \<Rightarrow> ('d world, 'a) act" where
  "on_api f w = (case f (moment w) (api w) of (r, s) \<Rightarrow> (r, w\<lparr>api := s, moment := Suc (moment w)\<rparr>))"

definition map_order :: "'d external \<Rightarrow> Id list \<Rightarrow> ('d world, Id list) act" where
  "map_order E ks = draw (\<lambda>t. Ok (key_order E t ks))"

definition peers_order :: "'d external \<Rightarrow> Peer list \<Rightarrow> ('d world, Peer list) act" where
  "peers_order E ps = draw (\<lambda>t. Ok (peer_order E t ps))"

definition new_random_id :: "'d external \<Rightarrow> ('d world, Id) act" where
  "new_random_id E = draw (NewRandomId (uuid E))"

definition prefs_GetHostId :: "'d external \<Rightarrow> ('d world, Id) act" where
  "prefs_GetHostId E = on_properties (\<lambda>t. preferences_GetHostId (uuid E) (machine_ID E t))"

definition prefs_GetBroadcastAddress :: "'d external \<Rightarrow> ('d world, string) act" where
  "prefs_GetBroadcastAddress E = on_properties (\<lambda>t. preferences_GetBroadcastAddress (InterfaceAddrs E t))"

definition prefs_GetLocalAddress :: "'d external \<Rightarrow> ('d world, string) act" where
  "prefs_GetLocalAddress E = on_properties (\<lambda>t. preferences_GetLocalAddress (InterfaceAddrs E t))"

definition db_Get :: "'d external \<Rightarrow> Id \<Rightarrow> Id \<Rightarrow> ('d world, (Id, bytes) gomap) act" where
  "db_Get E i attribute = on_disk (\<lambda>t. database_Get (badger_db E) t i attribute)"

definition db_Set :: "'d external \<Rightarrow> Id \<Rightarrow> (Id, bytes) gomap \<Rightarrow> ('d world, unit) act" where
  "db_Set E i data = on_disk (\<lambda>t. database_Set (badger_db E) t (key_order E t (keys data)) i data)"

definition db_Delete :: "'d external \<Rightarrow> Id \<Rightarrow> ('d world, unit) act" where
  "db_Delete E i = on_disk (\<lambda>t. database_Delete (badger_db E) t i)"

definition peers_AddPeer :: "Peer \<Rightarrow> ('d world, unit) act" where
  "peers_AddPeer peer = on_peers (\<lambda>t c. ((), peerCache_AddPeer peer c))"

definition peers_RemovePeer :: "Id \<Rightarrow> ('d world, unit) act" where
  "peers_RemovePeer i = on_peers (\<lambda>t c. ((), peerCache_RemovePeer i c))"

text \<open>
  The callers of \<open>GetAllPeers\<close> work on peers: a nil entry, on which the first call of a method panics, is a
  panic here already. (There is none: \<open>GetAllPeers_fills\<close>.)
\<close>

definition peers_GetAllPeers :: "'d external \<Rightarrow> ('d world, Peer list) act" where
  "peers_GetAllPeers E w =
     ((case peerCache_GetAllPeers (key_order E (moment w) (keys (peers (peer_cache w)))) (peer_cache w) of
         Ok ps \<Rightarrow> if None \<in> set ps then Panic else Ok (map the ps)
       | Err e \<Rightarrow> Err e
       | Panic \<Rightarrow> Panic),
      w\<lparr>moment := Suc (moment w)\<rparr>)"

definition peers_Reset :: "('d world, unit) act" where
  "peers_Reset = on_peers (\<lambda>t c. ((), peerCache_Reset c))"

definition cache_ContainsMessageForPeer :: "'d external \<Rightarrow> Id \<Rightarrow> Id \<Rightarrow> ('d world, bool) act" where
  "cache_ContainsMessageForPeer E m p =
     on_cache (\<lambda>t. messageCache_ContainsMessageForPeer (clock E t) (clock E (Suc t)) m p)"

definition cache_ContainsMessage :: "'d external \<Rightarrow> Id \<Rightarrow> ('d world, bool) act" where
  "cache_ContainsMessage E m = on_cache (\<lambda>t. messageCache_ContainsMessage (clock E t) m)"

definition cache_Hold :: "'d external \<Rightarrow> Id \<Rightarrow> Id \<Rightarrow> ('d world, unit) act" where
  "cache_Hold E m p = on_cache (\<lambda>t c. ((), messageCache_Hold (clock E t) m p c))"

definition cache_Reset :: "('d world, unit) act" where
  "cache_Reset = on_cache (\<lambda>t c. ((), messageCache_Reset c))"

definition udp_Observe :: "'d external \<Rightarrow> ('d world, unit) act" where
  "udp_Observe E = on_udp (\<lambda>t. udpServer_Observe (ListenPacket E t))"

definition udp_Stop :: "'d external \<Rightarrow> ('d world, unit) act" where
  "udp_Stop E = on_udp (\<lambda>t. udpServer_Stop (CloseConn E t))"

text \<open>A datagram that was written to the socket joins the history.\<close>

definition udp_Send :: "'d external \<Rightarrow> string \<Rightarrow> bytes \<Rightarrow> ('d world, unit) act" where
  "udp_Send E address data w =
     (let t = moment w;
          r = udpServer_Send (ResolveUDPAddr E t address) (WriteTo E t address data) (udp w)
      in (r, w\<lparr>moment := Suc t, sent := (if r = Ok () then sent w @ [(address, data)] else sent w)\<rparr>))"

text \<open>The call of \<open>Serve\<close> in a goroutine: as long as it blocks, there is no result; it is \<open>Ok\<close> here.\<close>

definition api_Serve :: "'d external \<Rightarrow> ('d world, unit) act" where
  "api_Serve E =
     on_api (\<lambda>t s. case server_Serve (ListenTCP E t (Addr s)) s of
       (None, s') \<Rightarrow> (Ok (), s')
     | (Some r, s') \<Rightarrow> (r, s'))"

definition api_Stop :: "'d external \<Rightarrow> ('d world, unit) act" where
  "api_Stop E = on_api (\<lambda>t. server_Stop (Shutdown E t))"

definition context_cancel :: "('d world, unit) act" where
  "context_cancel = modify (\<lambda>w. w\<lparr>cancelled := True\<rparr>)"

lemmas world_methods = map_order_def peers_order_def new_random_id_def prefs_GetHostId_def
  prefs_GetBroadcastAddress_def prefs_GetLocalAddress_def db_Get_def db_Set_def db_Delete_def
  peers_AddPeer_def peers_RemovePeer_def peers_GetAllPeers_def peers_Reset_def
  cache_ContainsMessageForPeer_def cache_ContainsMessage_def cache_Hold_def cache_Reset_def
  udp_Observe_def udp_Stop_def udp_Send_def context_cancel_def

lemmas world_ons = draw_def on_properties_def on_disk_def on_peers_def on_cache_def on_udp_def

section \<open>What the outside promises\<close>

text \<open>
  \<open>badger\<close> keeps its contract, the attribute names have distinct ids, drawing a random id does not
  panic, a map iteration visits every key once, and the clock does not run backwards (\<open>time.Now\<close> is
  monotonic within a process).
\<close>

definition env_ok :: "'d external \<Rightarrow> bool" where
  "env_ok E \<longleftrightarrow>
     badger_ok (badger_db E) \<and> attribute_ids_ok (uuid E) \<and> (\<forall>t. NewRandom (uuid E) t \<noteq> Panic) \<and>
     (\<forall>t ks. mset (key_order E t ks) = mset ks) \<and> (\<forall>t ps. mset (peer_order E t ps) = mset ps) \<and>
     mono (clock E)"

lemma env_okD:
  assumes "env_ok E"
  shows "badger_ok (badger_db E)" "attribute_ids_ok (uuid E)" "NewRandom (uuid E) t \<noteq> Panic" "mset (key_order E t ks) = mset ks"
    "mset (peer_order E t ps) = mset ps" "s \<le> t \<Longrightarrow> clock E s \<le> clock E t"
  using assms by (auto simp: env_ok_def monoD)

definition world_table :: "'d external \<Rightarrow> 'd world \<Rightarrow> table" where
  "world_table E w = store (badger_db E) (disk w)"

definition disk_ok :: "'d external \<Rightarrow> 'd world \<Rightarrow> bool" where
  "disk_ok E w \<longleftrightarrow> env_ok E \<and> keys_ok (badger_db E) (disk w)"

lemma on_disk_eq:
  "on_disk f w = (r, w') \<longleftrightarrow>
     f (moment w) (disk w) = (r, disk w') \<and> w' = w\<lparr>disk := disk w', moment := Suc (moment w)\<rparr>"
  by (auto simp: on_disk_def split: prod.splits)

text \<open>The database of the process provides the contract that the data adapters rely on.\<close>

interpretation db: attribute_store "db_Get E" "db_Set E" "map_order E" "world_table E" "disk_ok E"
  for E :: "'d external"
proof
  fix w w' :: "'d world" and i a :: Id and r q res m data ks
  let ?B = "badger_db E"
  show "world_table E w' = world_table E w \<and> disk_ok E w' \<and> r \<noteq> Panic"
    if "disk_ok E w" "db_Get E i a w = (r, w')"
    using that database_Get_disk [of ?B "moment w" i a "disk w"] database_Get_not_Panic
    by (fastforce simp: db_Get_def on_disk_eq world_table_def disk_ok_def)
  show "map_of m = world_table E w i \<and> wf_map m" if "disk_ok E w" "db_Get E i ZeroId w = (Ok m, w')"
    using that database_Get_row [of ?B "moment w" i "disk w" m "disk w'"]
    by (simp add: db_Get_def on_disk_eq world_table_def disk_ok_def env_ok_def)
  show "map_of m a = world_table E w i a \<and> world_table E w i a \<noteq> None"
    if "disk_ok E w" "i \<noteq> ZeroId" "a \<noteq> ZeroId" "db_Get E i a w = (Ok m, w')"
    using that database_Get_one [of i a ?B "moment w" "disk w" m "disk w'"]
    by (simp add: db_Get_def on_disk_eq world_table_def)
  show "m = []" if "disk_ok E w" "a \<noteq> ZeroId" "db_Get E ZeroId a w = (Ok m, w')"
    using that database_Get_zero_row [of ?B "disk w" a "moment w" m "disk w'"]
    by (simp add: db_Get_def on_disk_eq disk_ok_def env_ok_def)
  show "world_table E w' = table_set i (map_of data) (world_table E w) \<and> disk_ok E w'"
    if "disk_ok E w" "wf_map data" "ZeroId \<notin> set (keys data)" "db_Set E i data w = (Ok (), w')"
    using that database_Set_Ok [of ?B data "key_order E (moment w) (keys data)" "moment w" i "disk w" "disk w'"]
    by (auto simp: db_Set_def on_disk_eq world_table_def disk_ok_def env_ok_def)
  show "world_table E w' = world_table E w \<and> disk_ok E w' \<and> q \<noteq> Panic"
    if "disk_ok E w" "db_Set E i data w = (q, w')" "q \<noteq> Ok ()"
    using that database_Set_Err [of ?B "moment w" "key_order E (moment w) (keys data)" i data "disk w" q "disk w'"]
      database_Set_not_Panic
    by (fastforce simp: db_Set_def on_disk_eq world_table_def disk_ok_def)
  show "(\<exists>ks'. res = Ok ks' \<and> mset ks' = mset ks) \<and> world_table E w' = world_table E w \<and> disk_ok E w'"
    if "disk_ok E w" "map_order E ks w = (res, w')"
    using that by (auto simp: map_order_def draw_def world_table_def disk_ok_def env_ok_def)
qed

end
