(* ===== verification/Controller.thy ===== *)
theory Controller
  imports World
begin

text \<open>
  \<open>main/lib.go\<close>: \<open>SetupInfrastructure\<close> wires the components together. Each of its local variables is a
  definition of the same name over the outside world \<open>E\<close>, with the arguments in the order of the call
  there. The table \<open>routes\<close> holds the registered handlers, and \<open>process_step\<close> the steps of the running
  process: a request is served, a datagram is handled, time passes, a signal arrives, or the process
  ends.
\<close>

section \<open>Adapters and message handlers\<close>

definition deviceProvider :: "'d external \<Rightarrow> Id \<Rightarrow> ('d world, Device) act" where
  "deviceProvider E = NewGetDeviceDataAdapter (uuid E) (map_order E) (db_Get E)"

definition deviceOwnerProvider :: "'d external \<Rightarrow> Id \<Rightarrow> ('d world, Id) act" where
  "deviceOwnerProvider E = NewGetDeviceOwnerAttributeAdapter (uuid E) (db_Get E)"

definition stateVersionProvider :: "'d external \<Rightarrow> Id \<Rightarrow> ('d world, int64) act" where
  "stateVersionProvider E = NewGetStateVersionAttributeAdapter (uuid E) (db_Get E)"

definition deviceIdsProvider :: "'d external \<Rightarrow> ('d world, Id list) act" where
  "deviceIdsProvider E = NewGetDeviceIdsDataAdapter (map_order E) (db_Get E)"

definition devicePersister :: "'d external \<Rightarrow> Device \<Rightarrow> ('d world, unit) act" where
  "devicePersister E = NewCreateDeviceDataAdapter (uuid E) (db_Set E)"

definition statePersister :: "'d external \<Rightarrow> Id \<Rightarrow> DeviceState \<Rightarrow> int64 \<Rightarrow> ('d world, unit) act" where
  "statePersister E = NewPatchStateDataAdapter (uuid E) (db_Set E)"

definition patchMessageProvider :: "'d external \<Rightarrow> Id \<Rightarrow> DeviceState \<Rightarrow> ('d world, Message) act" where
  "patchMessageProvider E = NewPatchMessageProvider (new_random_id E) (prefs_GetHostId E)"

definition syncMessageProvider :: "'d external \<Rightarrow> Device \<Rightarrow> ('d world, Message) act" where
  "syncMessageProvider E = NewSyncMessageProvider (new_random_id E) (prefs_GetHostId E)"

definition peerMessageProvider :: "'d external \<Rightarrow> Peer \<Rightarrow> ('d world, Message) act" where
  "peerMessageProvider E = NewPeerMessageProvider (new_random_id E) (prefs_GetHostId E)"

definition hailMessageProvider :: "'d external \<Rightarrow> ('d world, Message) act" where
  "hailMessageProvider E = NewHailMessageProvider (new_random_id E) (prefs_GetHostId E)"

definition farewellMessageProvider :: "'d external \<Rightarrow> ('d world, Message) act" where
  "farewellMessageProvider E = NewFarewellMessageProvider (new_random_id E) (prefs_GetHostId E)"

definition sendMessageHandler :: "'d external \<Rightarrow> Peer \<Rightarrow> Message \<Rightarrow> ('d world, unit) act" where
  "sendMessageHandler E = NewSendMessageHandler (udp_Send E) (cache_Hold E)"

section \<open>Use cases\<close>

definition createDeviceUseCase :: "'d external \<Rightarrow> DeviceType \<Rightarrow> DeviceState \<Rightarrow> ('d world, Id) act" where
  "createDeviceUseCase E =
     NewCreateDeviceUseCase (new_random_id E) (prefs_GetHostId E) (devicePersister E)"

definition checkIfOwnerUseCase :: "'d external \<Rightarrow> Id \<Rightarrow> ('d world, bool) act" where
  "checkIfOwnerUseCase E = NewCheckIfOwnerUseCase (prefs_GetHostId E) (deviceOwnerProvider E)"

definition checkIfNewerUseCase :: "'d external \<Rightarrow> Id \<Rightarrow> int64 \<Rightarrow> ('d world, bool) act" where
  "checkIfNewerUseCase E = NewCheckIfNewerUseCase (stateVersionProvider E)"

definition composeInfoUseCase :: "'d external \<Rightarrow> ('d world, Host) act" where
  "composeInfoUseCase E =
     NewGetHostInfoUseCase (prefs_GetHostId E) (prefs_GetLocalAddress E) (prefs_GetBroadcastAddress E)"

definition getRandomPeersUseCase :: "'d external \<Rightarrow> Id \<Rightarrow> int64 \<Rightarrow> ('d world, Peer list) act" where
  "getRandomPeersUseCase E =
     NewRandomSafePeersForMessageUseCase (peers_order E) (prefs_GetHostId E)
       (prefs_GetBroadcastAddress E) (peers_GetAllPeers E) (cache_ContainsMessageForPeer E)"

definition patchStateUseCase :: "'d external \<Rightarrow> Id \<Rightarrow> DeviceState \<Rightarrow> ('d world, unit) act" where
  "patchStateUseCase E =
     NewPatchStateUseCase (checkIfOwnerUseCase E) (deviceProvider E) (statePersister E)
       (syncMessageProvider E) (patchMessageProvider E) (getRandomPeersUseCase E)
       (sendMessageHandler E)"

definition updateStateUseCase :: "'d external \<Rightarrow> string \<Rightarrow> Message \<Rightarrow> ('d world, unit) act" where
  "updateStateUseCase E =
     NewSaveStateUseCase NewPatchMessageReader (checkIfOwnerUseCase E) (deviceProvider E)
       (statePersister E) (syncMessageProvider E) (getRandomPeersUseCase E) (sendMessageHandler E)"

definition updateDeviceUseCase :: "'d external \<Rightarrow> string \<Rightarrow> Message \<Rightarrow> ('d world, unit) act" where
  "updateDeviceUseCase E =
     NewSaveDeviceUseCase (checkIfOwnerUseCase E) (checkIfNewerUseCase E) NewSyncMessageReader
       (devicePersister E) (deviceProvider E) (getRandomPeersUseCase E) (syncMessageProvider E)
       (sendMessageHandler E)"

definition updatePeerUseCase :: "'d external \<Rightarrow> string \<Rightarrow> Message \<Rightarrow> ('d world, unit) act" where
  "updatePeerUseCase E = NewSavePeerUseCase NewPeerMessageReader peers_AddPeer"

definition deletePeerUseCase :: "'d external \<Rightarrow> string \<Rightarrow> Message \<Rightarrow> ('d world, unit) act" where
  "deletePeerUseCase E = NewDeletePeerUseCase peers_RemovePeer"

definition saluteOnHailUseCase :: "'d external \<Rightarrow> string \<Rightarrow> Message \<Rightarrow> ('d world, unit) act" where
  "saluteOnHailUseCase E =
     NewSaluteOnHailUseCase (deviceIdsProvider E) (deviceProvider E) (peers_GetAllPeers E)
       peers_AddPeer (syncMessageProvider E) (peerMessageProvider E) (sendMessageHandler E)"

definition sendHailMessage :: "'d external \<Rightarrow> ('d world, unit) act" where
  "sendHailMessage E =
     NewSendHailCommandUseCase (getRandomPeersUseCase E) (hailMessageProvider E)
       (deviceIdsProvider E) (deviceProvider E) (syncMessageProvider E) (sendMessageHandler E)"

definition sendFarewellMessage :: "'d external \<Rightarrow> ('d world, unit) act" where
  "sendFarewellMessage E =
     NewSendFarewellEventUseCase (getRandomPeersUseCase E) (farewellMessageProvider E)
       (sendMessageHandler E)"

definition receivedMessageHandler :: "'d external \<Rightarrow> string \<Rightarrow> bytes \<Rightarrow> ('d world, unit) act" where
  "receivedMessageHandler E =
     NewReceiveMessageHandler (saluteOnHailUseCase E) (updateStateUseCase E) (updateDeviceUseCase E)
       (updatePeerUseCase E) (deletePeerUseCase E) (cache_ContainsMessage E) (cache_Hold E)"

section \<open>The REST API\<close>

definition shutdownHandler :: "'d external \<Rightarrow> ('d world, unit) act" where
  "shutdownHandler E = NewShutdownUseCase peers_Reset cache_Reset context_cancel"

definition deleteDeviceUseCase :: "'d external \<Rightarrow> Id \<Rightarrow> ('d world, bool) act" where
  "deleteDeviceUseCase E = NewDeleteDeviceUseCase (checkIfOwnerUseCase E) (db_Delete E)"

definition joinNetwork :: "'d external \<Rightarrow> ('d world, unit) act" where
  "joinNetwork E =
     bind (ignore (udp_Observe E)) (\<lambda>_. bind (ignore (sendHailMessage E)) (\<lambda>_. return ()))"

definition leaveNetwork :: "'d external \<Rightarrow> ('d world, unit) act" where
  "leaveNetwork E =
     bind (ignore (sendFarewellMessage E)) (\<lambda>_. bind (ignore (udp_Stop E)) (\<lambda>_. return ()))"

definition routes :: "'d external \<Rightarrow> (string \<times> 'd world handler) list" where
  "routes E =
     [(''GET /{$}'', NewGetApiRequestHandler NewGetApiDocUseCase),
      (''GET /info'', NewGetHostInfoRequestHandler (uuid E) (composeInfoUseCase E)),
      (''GET /device'', NewGetDeviceIdsRequestHandler (uuid E) (deviceIdsProvider E)),
      (''GET /device/{id}'', NewGetDeviceRequestHandler (uuid E) (deviceProvider E)),
      (''PATCH /device/{id}'', NewPatchStateRequestHandler (uuid E) (patchStateUseCase E)),
      (''POST /device'', NewCreateDeviceRequestHandler (uuid E) (createDeviceUseCase E)),
      (''DELETE /device/{id}'', NewDeleteDeviceRequestHandler (uuid E) (deleteDeviceUseCase E)),
      (''GET /peer'', NewGetPeersRequestHandler (uuid E) (peers_GetAllPeers E)),
      (''POST /peer'', NewAddPeerRequestHandler (uuid E) peers_AddPeer),
      (''POST /network'', NewJoinNetworkRequestHandler (joinNetwork E)),
      (''DELETE /network'', NewLeaveNetworkRequestHandler (leaveNetwork E)),
      (''POST /shutdown'', NewShutdownRequestHandler (shutdownHandler E))]"

lemmas wiring = deviceProvider_def deviceOwnerProvider_def stateVersionProvider_def
  deviceIdsProvider_def devicePersister_def statePersister_def patchMessageProvider_def
  syncMessageProvider_def peerMessageProvider_def hailMessageProvider_def
  farewellMessageProvider_def sendMessageHandler_def createDeviceUseCase_def
  checkIfOwnerUseCase_def checkIfNewerUseCase_def composeInfoUseCase_def getRandomPeersUseCase_def
  patchStateUseCase_def updateStateUseCase_def updateDeviceUseCase_def updatePeerUseCase_def
  deletePeerUseCase_def saluteOnHailUseCase_def sendHailMessage_def sendFarewellMessage_def
  receivedMessageHandler_def shutdownHandler_def deleteDeviceUseCase_def joinNetwork_def
  leaveNetwork_def

section \<open>Runs of the process\<close>

text \<open>
  \<open>StartApiServer\<close> starts the server of the API, which serves requests from then on, if it can listen. A panic
  in the reader of the socket ends the process; a panic in a request handler is caught by \<open>net/http\<close>,
  which keeps the state as the handler left it. Handlers run one after the other here: the code takes no
  locks, and its data races are not modelled. One of two signals cancels the main context (\<open>NewController\<close>),
  as the request to shut down does; when it is cancelled, \<open>StartApiServer\<close> closes the socket, shuts the
  server down and returns, and requests that came in the meantime may have been served.
\<close>

text \<open>The deferred calls of \<open>StartApiServer\<close>, the last one first; their errors are dropped.\<close>

definition stopServers :: "'d external \<Rightarrow> ('d world, unit) act" where
  "stopServers E = bind (ignore (udp_Stop E)) (\<lambda>_. ignore (api_Stop E))"

datatype 'd process = Running "'d world" | Crashed "'d world" | Ended "'d world"

inductive process_step :: "'d external \<Rightarrow> 'd process \<Rightarrow> 'd process \<Rightarrow> bool" for E where
  serve: "serverState (api w) = NotStarted \<Longrightarrow> api_Serve E w = (r, w') \<Longrightarrow>
    process_step E (Running w) (Running w')"
| request: "serverState (api w) = Serving \<Longrightarrow> (path, handler) \<in> set (routes E) \<Longrightarrow>
    server_Handle path handler req w = (r, w') \<Longrightarrow> process_step E (Running w) (Running w')"
| packet: "connection (udp w) = Some c \<Longrightarrow> receivedMessageHandler E sender data w = (r, w') \<Longrightarrow>
    r \<noteq> Panic \<Longrightarrow> process_step E (Running w) (Running w')"
| crash: "connection (udp w) = Some c \<Longrightarrow> receivedMessageHandler E sender data w = (Panic, w') \<Longrightarrow>
    process_step E (Running w) (Crashed w')"
| idle: "process_step E (Running w) (Running (w\<lparr>moment := moment w + n\<rparr>))"
| interrupt: "cancels NewController sig \<Longrightarrow> process_step E (Running w) (Running (w\<lparr>cancelled := True\<rparr>))"
| finish: "cancelled w \<Longrightarrow> stopServers E w = (r, w') \<Longrightarrow> process_step E (Running w) (Ended w')"

inductive_cases process_stepE: "process_step E (Running w) p"

inductive reachable :: "'d external \<Rightarrow> int \<Rightarrow> int \<Rightarrow> 'd \<Rightarrow> 'd process \<Rightarrow> bool"
  for E httpPort' udpPort' d where
  start: "reachable E httpPort' udpPort' d (Running (NewWorld httpPort' udpPort' d))"
| step: "reachable E httpPort' udpPort' d p \<Longrightarrow> process_step E p q \<Longrightarrow>
    reachable E httpPort' udpPort' d q"

end
