(* ===== verification/Device_Repository.thy ===== *)
theory Device_Repository
  imports Data_Usecases Message_Usecases Handlers
begin

text \<open>
  The devices as the use cases see them. The locale \<open>device_repository\<close> states what the functions
  that read and write devices promise on a map \<open>dev w\<close> from identifiers to devices; a read may fail
  at any time. \<open>steady_repository\<close> adds that a read of a stored device does not fail. Inside them
  each use case of \<open>data/usecases.go\<close> and \<open>message/usecases.go\<close> that changes devices is shown to
  refine a function on the map.
\<close>

section \<open>What the use cases mean on the map of devices\<close>

type_synonym devices = "Id \<Rightarrow> Device option"

text \<open>A device that is saved under its identifier; \<open>ZeroId\<close> is the row of the index.\<close>

definition save_devices :: "Device \<Rightarrow> devices \<Rightarrow> devices" where
  "save_devices c D = D(dev_id c := if dev_id c = ZeroId then None else Some c)"

text \<open>A sync event for the device \<open>c\<close>, on a host with the identifier \<open>h\<close>.\<close>

definition sync_devices :: "Id \<Rightarrow> Device \<Rightarrow> devices \<Rightarrow> devices" where
  "sync_devices h c D =
     (case D (dev_id c) of
        None \<Rightarrow> save_devices c D
      | Some d \<Rightarrow>
          if dev_owner d = h \<or> sint (dev_version c) \<le> sint (dev_version d) then D
          else save_devices c D)"

text \<open>A command to set the state of the device \<open>i\<close>.\<close>

definition patch_devices :: "Id \<Rightarrow> Id \<Rightarrow> DeviceState \<Rightarrow> devices \<Rightarrow> devices" where
  "patch_devices h i s D =
     (case D i of
        None \<Rightarrow> D
      | Some d \<Rightarrow>
          if dev_owner d = h then D(i \<mapsto> d\<lparr>dev_state := s, dev_version := dev_version d + 1\<rparr>) else D)"

section \<open>The contract\<close>

locale device_repository =
  fixes dev :: "'w \<Rightarrow> devices"
    and inv :: "'w \<Rightarrow> bool"
    and host :: Id
    and getHostId :: "('w, Id) act"
    and getOwner :: "Id \<Rightarrow> ('w, Id) act"
    and getVersion :: "Id \<Rightarrow> ('w, int64) act"
    and getDevice :: "Id \<Rightarrow> ('w, Device) act"
    and saveDevice :: "Device \<Rightarrow> ('w, unit) act"
    and saveState :: "Id \<Rightarrow> DeviceState \<Rightarrow> int64 \<Rightarrow> ('w, unit) act"
  assumes dev_id_law: "inv w \<Longrightarrow> dev w i = Some d \<Longrightarrow> dev_id d = i \<and> i \<noteq> ZeroId"
    and host_quiet: "quiet inv dev getHostId"
    and host_law: "inv w \<Longrightarrow> wp getHostId (\<lambda>r _. \<forall>h. r = Ok h \<longrightarrow> h = host) w"
    and owner_quiet: "quiet inv dev (getOwner i)"
    and owner_law: "inv w \<Longrightarrow>
      wp (getOwner i) (\<lambda>r _. \<forall>ow. r = Ok ow \<longrightarrow> (\<exists>d. dev w i = Some d \<and> ow = dev_owner d)) w"
    and version_quiet: "quiet inv dev (getVersion i)"
    and version_law: "inv w \<Longrightarrow> i \<noteq> ZeroId \<Longrightarrow>
      wp (getVersion i) (\<lambda>r _. \<forall>v. r = Ok v \<longrightarrow> (\<exists>d. dev w i = Some d \<and> v = dev_version d)) w"
    and device_quiet: "quiet inv dev (getDevice i)"
    and device_law: "inv w \<Longrightarrow> i \<noteq> ZeroId \<Longrightarrow>
      wp (getDevice i) (\<lambda>r _. \<forall>d. r = Ok d \<longrightarrow> dev w i = Some d) w"
    and saveDevice_law: "inv w \<Longrightarrow>
      wp (saveDevice d) (\<lambda>r w'. inv w' \<and> r \<noteq> Panic \<and>
        dev w' = (if r = Ok () then save_devices d (dev w) else dev w)) w"
    and saveState_law: "inv w \<Longrightarrow> dev w i = Some d \<Longrightarrow>
      wp (saveState i s v) (\<lambda>r w'. inv w' \<and> r \<noteq> Panic \<and>
        dev w' = (if r = Ok () then (dev w)(i \<mapsto> d\<lparr>dev_state := s, dev_version := v\<rparr>) else dev w)) w"

text \<open>Nothing is read wrongly, and what is stored can be read.\<close>

locale steady_repository = device_repository +
  assumes host_steady: "inv w \<Longrightarrow> wp getHostId (\<lambda>r _. r = Ok host) w"
    and owner_steady: "inv w \<Longrightarrow> dev w i = Some d \<Longrightarrow> wp (getOwner i) (\<lambda>r _. r = Ok (dev_owner d)) w"
    and version_steady: "inv w \<Longrightarrow> dev w i = Some d \<Longrightarrow> wp (getVersion i) (\<lambda>r _. r = Ok (dev_version d)) w"

section \<open>Ownership and versions\<close>

context device_repository
begin

lemma checkIfOwner_quiet: "quiet inv dev (NewCheckIfOwnerUseCase getHostId getOwner i)"
  unfolding NewCheckIfOwnerUseCase_def by (intro quiet_rules host_quiet owner_quiet)

lemma checkIfOwner_law:
  assumes "inv w"
  shows "wp (NewCheckIfOwnerUseCase getHostId getOwner i)
    (\<lambda>r _. \<forall>b. r = Ok b \<longrightarrow> (\<exists>d. dev w i = Some d \<and> (b \<longleftrightarrow> dev_owner d = host))) w"
  unfolding NewCheckIfOwnerUseCase_def wp_simps
  by (rule wp_weaken [OF wp_both_hold [OF quiet_wp [OF host_quiet assms] host_law [OF assms]]])
    (auto simp: after_def split: result.split elim!: wp_weaken [OF owner_law])

lemma checkIfNewer_quiet: "quiet inv dev (NewCheckIfNewerUseCase getVersion i v)"
  unfolding NewCheckIfNewerUseCase_def by (intro quiet_rules version_quiet)

lemma checkIfNewer_law:
  assumes "inv w" and "i \<noteq> ZeroId"
  shows "wp (NewCheckIfNewerUseCase getVersion i v)
    (\<lambda>r _. \<forall>b. r = Ok b \<longrightarrow> (\<exists>d. dev w i = Some d \<and> (b \<longleftrightarrow> sint (dev_version d) < sint v))) w"
  unfolding NewCheckIfNewerUseCase_def wp_simps
  by (rule wp_weaken [OF version_law [OF assms]]) (auto simp: after_def split: result.split)

lemmas checkIfOwner_wpI = quiet_law_wpI [OF checkIfOwner_quiet _ checkIfOwner_law]
lemmas checkIfNewer_wpI = quiet_law_wpI [OF checkIfNewer_quiet _ checkIfNewer_law]
lemmas getDevice_wpI = quiet_law_wpI [OF device_quiet _ device_law]

end

context steady_repository
begin

lemma checkIfOwner_steady:
  assumes "inv w" and "dev w i = Some d"
  shows "wp (NewCheckIfOwnerUseCase getHostId getOwner i) (\<lambda>r _. r = Ok (dev_owner d = host)) w"
  unfolding NewCheckIfOwnerUseCase_def wp_simps
  by (rule quiet_law_wpI [OF host_quiet assms(1) host_steady [OF assms(1)]])
    (auto simp: assms(2) intro: wp_weaken [OF owner_steady])

lemma checkIfNewer_steady:
  assumes "inv w" and "dev w i = Some d"
  shows "wp (NewCheckIfNewerUseCase getVersion i v) (\<lambda>r _. r = Ok (sint v > sint (dev_version d))) w"
  unfolding NewCheckIfNewerUseCase_def wp_simps
  by (rule wp_weaken [OF version_steady [OF assms]]) simp

end

section \<open>The use cases that change devices\<close>

text \<open>Making a message leaves the devices alone, and its reader gives back what it was made of.\<close>

locale device_messages = device_repository +
  fixes createSyncMessage :: "Device \<Rightarrow> ('a, Message) act"
    and createPatchMessage :: "Id \<Rightarrow> DeviceState \<Rightarrow> ('a, Message) act"
  assumes sync_quiet: "quiet inv dev (createSyncMessage d)"
    and sync_law: "inv w \<Longrightarrow> wp (createSyncMessage d) (\<lambda>r _. \<forall>m. r = Ok m \<longrightarrow> NewSyncMessageReader m = Ok d) w"
    and patch_quiet: "quiet inv dev (createPatchMessage i s)"
    and patch_law: "inv w \<Longrightarrow>
      wp (createPatchMessage i s) (\<lambda>r _. \<forall>m. r = Ok m \<longrightarrow> NewPatchMessageReader m = Ok (i, s)) w"
begin

lemmas createSync_wpI = quiet_law_wpI [OF sync_quiet _ sync_law]
lemmas createPatch_wpI = quiet_law_wpI [OF patch_quiet _ patch_law]

text \<open>The answer to a sync event that is not newer: the stored device, in a message of its own.\<close>

lemma answer_wp:
  assumes v: "inv v"
  shows "wp (if_err (getDevice i) (\<lambda>err. return None) (\<lambda>device.
      if_err (createSyncMessage device) (\<lambda>err. return None) (\<lambda>msg. return (Some msg))))
    (\<lambda>r u. r \<noteq> Panic \<and> inv u \<and> dev u = dev v \<and> r \<notin> range Err \<and>
      (\<forall>m'. r = Ok (Some m') \<longrightarrow> (\<exists>d. NewSyncMessageReader m' = Ok d \<and> (i \<noteq> ZeroId \<longrightarrow> dev v i = Some d)))) v"
    (is "wp _ ?Q v")
proof -
  have "wp (getDevice i) (\<lambda>r u. r \<noteq> Panic \<and> inv u \<and> dev u = dev v \<and>
      (\<forall>d. r = Ok d \<longrightarrow> i \<noteq> ZeroId \<longrightarrow> dev v i = Some d)) v"
    by (cases "i = ZeroId") (auto intro: quiet_wpI [OF device_quiet v] getDevice_wpI [OF v v])
  then show ?thesis
    unfolding wp_if_err wp_return
  proof (rule wp_weaken, goal_cases)
    case (1 r u)
    have "wp (createSyncMessage d) (\<lambda>r u. case r of Ok m' \<Rightarrow> ?Q (Ok (Some m')) u
        | Err e \<Rightarrow> ?Q (Ok None) u | Panic \<Rightarrow> ?Q Panic u) u" if "i \<noteq> ZeroId \<longrightarrow> dev v i = Some d" for d
      by (rule createSync_wpI) (use 1 that in \<open>auto split: result.split\<close>)
    then show ?case using 1 by (cases r) (simp_all add: image_iff)
  qed
qed

text \<open>
  The steps of a sync event. \<open>keep\<close>, \<open>contest\<close> and \<open>save\<close> are what is known after the answers of
  the checks that make the code keep what is stored, go on, or save the candidate. What is left to
  show is the condition \<open>Q\<close> where the use case ends, or from where it propagates a message: the
  stored device in answer, or the event itself when its device was saved.
\<close>

lemma saveDevice_steps:
  assumes "inv w" and reader: "NewSyncMessageReader m = Ok c"
    and owner: "wp (NewCheckIfOwnerUseCase getHostId getOwner (dev_id c))
      (\<lambda>r _. (r = Ok True \<longrightarrow> keep) \<and> (r \<noteq> Ok True \<longrightarrow> contest)) w"
    and newer: "\<And>v. inv v \<Longrightarrow> dev v = dev w \<Longrightarrow> contest \<Longrightarrow>
      wp (NewCheckIfNewerUseCase getVersion (dev_id c) (dev_version c))
        (\<lambda>r _. (r = Ok False \<longrightarrow> keep) \<and> (r \<noteq> Ok False \<longrightarrow> save)) v"
    and ignored: "\<And>v. inv v \<Longrightarrow> dev v = dev w \<Longrightarrow> keep \<Longrightarrow> Q (Ok ()) v"
    and failed: "\<And>v e. inv v \<Longrightarrow> dev v = dev w \<Longrightarrow> Q (Err e) v"
    and answered: "\<And>v m' d. inv v \<Longrightarrow> dev v = dev w \<Longrightarrow> keep \<Longrightarrow> contest \<Longrightarrow>
      NewSyncMessageReader m' = Ok d \<Longrightarrow> (dev_id c \<noteq> ZeroId \<longrightarrow> dev w (dev_id c) = Some d) \<Longrightarrow>
      wp (bind (getRandomPeers (msg_id m') MinInt) (\<lambda>ps. foreach ps (\<lambda>p. ignore (sendMessage p m')))) Q v"
    and saved: "\<And>v. inv v \<Longrightarrow> dev v = save_devices c (dev w) \<Longrightarrow> save \<Longrightarrow> contest \<Longrightarrow>
      wp (bind (getRandomPeers (msg_id m) MinInt) (\<lambda>ps. foreach ps (\<lambda>p. ignore (sendMessage p m)))) Q v"
  shows "wp (NewSaveDeviceUseCase (NewCheckIfOwnerUseCase getHostId getOwner)
     (NewCheckIfNewerUseCase getVersion) NewSyncMessageReader saveDevice getDevice getRandomPeers
     createSyncMessage sendMessage s m) Q w"
proof -
  let ?keep = "\<lambda>v. inv v \<and> dev v = dev w"
  let ?answer = "if_err (getDevice (dev_id c)) (\<lambda>err. return None) (\<lambda>device.
      if_err (createSyncMessage device) (\<lambda>err. return None) (\<lambda>msg. return (Some msg)))"
  let ?owner = "if_err (NewCheckIfOwnerUseCase getHostId getOwner (dev_id c)) (\<lambda>err. return False) return"
  let ?newer = "if_err (NewCheckIfNewerUseCase getVersion (dev_id c) (dev_version c)) (\<lambda>err. return True) return"
  let ?decide = "bind ?newer (\<lambda>isNewer. if \<not> isNewer then ?answer else bind (saveDevice c) (\<lambda>_. return (Some m)))"
  let ?send = "\<lambda>x. case x of None \<Rightarrow> return () | Some m' \<Rightarrow>
      bind (getRandomPeers (msg_id m') MinInt) (\<lambda>ps. foreach ps (\<lambda>p. ignore (sendMessage p m')))"
  define decided where "decided r v \<longleftrightarrow> r \<noteq> Panic \<and> inv v \<and>
    (\<forall>e. r = Err e \<longrightarrow> dev v = dev w) \<and> (r = Ok None \<longrightarrow> dev v = dev w \<and> keep) \<and>
    (\<forall>m'. r = Ok (Some m') \<longrightarrow>
       dev v = dev w \<and> keep \<and> (\<exists>d. NewSyncMessageReader m' = Ok d \<and> (dev_id c \<noteq> ZeroId \<longrightarrow> dev w (dev_id c) = Some d)) \<or>
       m' = m \<and> dev v = save_devices c (dev w) \<and> save)" for r v
  have answer: "wp ?answer decided v" if "?keep v" keep for v
  proof -
    have iv: "inv v" using that(1) by simp
    show ?thesis by (rule wp_weaken [OF answer_wp [OF iv]]) (use that in \<open>auto simp: decided_def\<close>)
  qed
  have saving: "wp (bind (saveDevice c) (\<lambda>_. return (Some m))) decided v" if "?keep v" "save" for v
    unfolding wp_bind wp_return
    by (rule wp_weaken [OF saveDevice_law])
      (use that in \<open>auto simp: decided_def after_def split: result.split\<close>)
  have decide: "wp ?decide decided v" if "?keep v" "contest" for v
    by (rule wp_seqI [where P = "\<lambda>r v. ?keep v \<and> (r = Ok False \<and> keep \<or> r = Ok True \<and> save)"],
        unfold wp_if_err wp_return, rule quiet_law_wpI [OF checkIfNewer_quiet _ newer])
      (use that in \<open>auto split: result.split simp: decided_def [of "Err _"] intro: answer saving\<close>)
  have contested: "wp (bind ?decide ?send) Q v" if "?keep v" "contest" for v
  proof (rule wp_seqI [OF decide [OF that]])
    fix x u assume d: "decided (Ok x) u"
    show "wp (?send x) Q u"
    proof (cases x)
      case None
      with d show ?thesis by (simp add: wp_return decided_def ignored)
    next
      case (Some m')
      with d have "wp (?send (Some m')) Q u"
        unfolding option.case decided_def using answered saved that(2) by blast
      with Some show ?thesis by simp
    qed
  qed (auto simp: decided_def failed)
  have owned: "wp ?owner (\<lambda>r v. ?keep v \<and> (r = Ok True \<and> keep \<or> r = Ok False \<and> contest)) w"
    unfolding wp_if_err wp_return
    by (rule quiet_law_wpI [OF checkIfOwner_quiet assms(1) owner]) (auto split: result.split)
  show ?thesis
    unfolding NewSaveDeviceUseCase_def reader pure_Ok return_bind Let_def
    by (rule wp_seqI [OF owned]) (auto simp: wp_return ignored intro: contested)
qed

text \<open>The branch of an owner in both use cases that set a state: the device it had, then updated.\<close>

lemma update_wp:
  assumes "inv w" and d: "dev w i = Some d" "dev_owner d = host"
  shows "wp (bind (getDevice i) (\<lambda>device. bind (saveState i s (dev_version device + 1)) (\<lambda>_.
      bind (getDevice i) createSyncMessage)))
    (\<lambda>r w'. inv w' \<and> r \<noteq> Panic \<and> (dev w' = patch_devices host i s (dev w) \<or> dev w' = dev w \<and> r \<notin> range Ok) \<and>
      (\<forall>m. r = Ok m \<longrightarrow> NewSyncMessageReader m = Ok (d\<lparr>dev_state := s, dev_version := dev_version d + 1\<rparr>))) w"
    (is "wp _ ?Q w")
proof (rule wp_seqI [where P = "\<lambda>r v. inv v \<and> dev v = dev w \<and> r \<noteq> Panic \<and> (\<forall>d'. r = Ok d' \<longrightarrow> d' = d)"])
  let ?d = "d\<lparr>dev_state := s, dev_version := dev_version d + 1\<rparr>"
  have zero: "i \<noteq> ZeroId" using dev_id_law [OF assms(1) d(1)] by simp
  show "wp (getDevice i) (\<lambda>r v. inv v \<and> dev v = dev w \<and> r \<noteq> Panic \<and> (\<forall>d'. r = Ok d' \<longrightarrow> d' = d)) w"
    by (rule getDevice_wpI [OF assms(1) assms(1) zero]) (simp add: d)
  fix device v
  assume v: "inv v \<and> dev v = dev w \<and> Ok device \<noteq> Panic \<and> (\<forall>d'. Ok device = Ok d' \<longrightarrow> d' = d)"
  then have device: "device = d" by simp
  have saved: "wp (saveState i s (dev_version d + 1)) (\<lambda>r u. inv u \<and> r \<noteq> Panic \<and>
      (r = Ok () \<longrightarrow> dev u = patch_devices host i s (dev w)) \<and> (r \<noteq> Ok () \<longrightarrow> dev u = dev w)) v"
    by (rule wp_weaken [OF saveState_law]) (use v d in \<open>auto simp: patch_devices_def\<close>)
  have reread: "wp (bind (getDevice i) createSyncMessage) ?Q u"
    if u: "inv u" "dev u = patch_devices host i s (dev w)" for u
  proof (rule wp_seqI [where P = "\<lambda>r v. inv v \<and> dev v = dev u \<and> r \<noteq> Panic \<and> (\<forall>d'. r = Ok d' \<longrightarrow> d' = ?d)"])
    show "wp (getDevice i) (\<lambda>r v. inv v \<and> dev v = dev u \<and> r \<noteq> Panic \<and> (\<forall>d'. r = Ok d' \<longrightarrow> d' = ?d)) u"
      by (rule getDevice_wpI [OF u(1) u(1) zero]) (use d u(2) in \<open>simp add: patch_devices_def\<close>)
    fix d' v assume "inv v \<and> dev v = dev u \<and> Ok d' \<noteq> Panic \<and> (\<forall>d''. Ok d' = Ok d'' \<longrightarrow> d'' = ?d)"
    then show "wp (createSyncMessage d') ?Q v"
      by (intro createSync_wpI) (use u(2) in auto)
  qed (use u(2) in auto)
  show "wp (bind (saveState i s (dev_version device + 1))
      (\<lambda>_. bind (getDevice i) createSyncMessage)) ?Q v"
    unfolding device by (rule wp_seqI [OF saved]) (auto intro: reread)
qed auto

text \<open>
  The steps of both use cases that set a state, on a device of this host or not. \<open>relay\<close> is what is
  known when the ownership check does not say yes, and \<open>P\<close> of the message that is then relayed.
\<close>

lemma update_or_relay_steps:
  assumes "inv w" and relay: "wp (NewCheckIfOwnerUseCase getHostId getOwner i) (\<lambda>r _. r \<noteq> Ok True \<longrightarrow> relay) w"
    and other: "quiet inv dev other" "\<And>v. inv v \<Longrightarrow> wp other (\<lambda>r _. \<forall>m. r = Ok m \<longrightarrow> P m) v"
    and failed: "\<And>v e. inv v \<Longrightarrow> dev v \<in> {dev w, patch_devices host i s (dev w)} \<Longrightarrow> Q (Err e) v"
    and updated: "\<And>v m d. inv v \<Longrightarrow> dev v = patch_devices host i s (dev w) \<Longrightarrow> dev w i = Some d \<Longrightarrow>
      dev_owner d = host \<Longrightarrow> NewSyncMessageReader m = Ok (d\<lparr>dev_state := s, dev_version := dev_version d + 1\<rparr>) \<Longrightarrow>
      wp (propagate m) Q v"
    and relayed: "\<And>v m. inv v \<Longrightarrow> dev v = dev w \<Longrightarrow> relay \<Longrightarrow> P m \<Longrightarrow> wp (propagate m) Q v"
  shows "wp (bind (if_err (NewCheckIfOwnerUseCase getHostId getOwner i) (\<lambda>err. other) (\<lambda>isOwner.
        if isOwner then bind (getDevice i) (\<lambda>device. bind (saveState i s (dev_version device + 1)) (\<lambda>_.
          bind (getDevice i) createSyncMessage)) else other)) propagate) Q w"
    (is "wp (bind ?first _) _ _")
proof -
  let ?update = "bind (getDevice i) (\<lambda>device. bind (saveState i s (dev_version device + 1)) (\<lambda>_.
          bind (getDevice i) createSyncMessage))"
  let ?fresh = "\<lambda>m. \<exists>d. dev w i = Some d \<and> dev_owner d = host \<and>
      NewSyncMessageReader m = Ok (d\<lparr>dev_state := s, dev_version := dev_version d + 1\<rparr>)"
  define R where "R r v \<longleftrightarrow> inv v \<and> r \<noteq> Panic \<and>
      (\<forall>e. r = Err e \<longrightarrow> dev v \<in> {dev w, patch_devices host i s (dev w)}) \<and>
      (\<forall>m. r = Ok m \<longrightarrow> dev v = patch_devices host i s (dev w) \<and> ?fresh m \<or> dev v = dev w \<and> relay \<and> P m)" for r v
  have others: "wp other R v" if "inv v" "dev v = dev w" relay for v
    by (rule quiet_law_wpI [OF other(1) that(1) other(2) [OF that(1)]]) (use that in \<open>auto simp: R_def\<close>)
  have changed: "wp ?update R v" if "inv v" "dev v = dev w" "dev w i = Some d" "dev_owner d = host" for v d
    by (rule wp_weaken [OF update_wp]) (use that in \<open>auto simp: R_def\<close>)
  have check: "wp (NewCheckIfOwnerUseCase getHostId getOwner i)
      (\<lambda>r _. (r \<noteq> Ok True \<longrightarrow> relay) \<and> (r = Ok True \<longrightarrow> (\<exists>d. dev w i = Some d \<and> dev_owner d = host))) w"
    by (rule wp_weaken [OF wp_both_hold [OF relay checkIfOwner_law [OF assms(1)]]]) auto
  have "wp ?first R w"
    unfolding wp_if_err wp_If
    by (rule quiet_law_wpI [OF checkIfOwner_quiet assms(1) check])
      (auto split: result.split intro: others changed)
  then show ?thesis
    by (rule wp_seqI) (auto simp: R_def intro: updated relayed failed)
qed

text \<open>A new device of this host.\<close>

lemma createDevice_wp:
  assumes "inv w" and "quiet inv dev newId"
  shows "wp (NewCreateDeviceUseCase newId getHostId saveDevice t s) (\<lambda>r w'. inv w' \<and> r \<noteq> Panic \<and>
    (\<forall>i. r = Ok i \<longrightarrow> dev w' = save_devices (NewDevice i host t s 0) (dev w)) \<and>
    (r \<notin> range Ok \<longrightarrow> dev w' = dev w)) w"
  unfolding NewCreateDeviceUseCase_def wp_bind wp_return Let_def
  by (rule quiet_law_wpI [OF host_quiet assms(1) host_law [OF assms(1)]])
    (auto simp: after_def split: result.split
      intro!: quiet_wpI [OF assms(2)] wp_weaken [OF saveDevice_law])

end

lemma if_swap: "(if \<not> b then m else n) = (if b then n else m)"
  by simp

text \<open>Addressing and sending messages leaves the devices alone.\<close>

locale device_network = device_messages +
  fixes getRandomPeers :: "Id \<Rightarrow> int64 \<Rightarrow> ('a, Peer list) act"
    and sendMessage :: "Peer \<Rightarrow> Message \<Rightarrow> ('a, unit) act"
  assumes peers_quiet: "quiet inv dev (getRandomPeers i n)"
    and send_quiet: "quiet inv dev (sendMessage p m)"
begin

lemma propagate_quiet:
  "quiet inv dev (bind (getRandomPeers i n) (\<lambda>ps. foreach ps (\<lambda>p. ignore (sendMessage p m))))"
  by (intro quiet_rules peers_quiet send_quiet)

abbreviation saveDeviceUseCase :: "string \<Rightarrow> Message \<Rightarrow> ('a, unit) act" where
  "saveDeviceUseCase \<equiv> NewSaveDeviceUseCase (NewCheckIfOwnerUseCase getHostId getOwner)
     (NewCheckIfNewerUseCase getVersion) NewSyncMessageReader saveDevice getDevice getRandomPeers
     createSyncMessage sendMessage"

abbreviation saveStateUseCase :: "string \<Rightarrow> Message \<Rightarrow> ('a, unit) act" where
  "saveStateUseCase \<equiv> NewSaveStateUseCase NewPatchMessageReader (NewCheckIfOwnerUseCase getHostId getOwner)
     getDevice saveState createSyncMessage getRandomPeers sendMessage"

abbreviation patchStateUseCase :: "Id \<Rightarrow> DeviceState \<Rightarrow> ('a, unit) act" where
  "patchStateUseCase \<equiv> NewPatchStateUseCase (NewCheckIfOwnerUseCase getHostId getOwner) getDevice
     saveState createSyncMessage createPatchMessage getRandomPeers sendMessage"

lemma saveDevice_wp:
  assumes "inv w" and "NewSyncMessageReader m = Ok c"
    and "wp (NewCheckIfOwnerUseCase getHostId getOwner (dev_id c))
      (\<lambda>r _. (r = Ok True \<longrightarrow> keep) \<and> (r \<noteq> Ok True \<longrightarrow> contest)) w"
    and "\<And>v. inv v \<Longrightarrow> dev v = dev w \<Longrightarrow> contest \<Longrightarrow>
      wp (NewCheckIfNewerUseCase getVersion (dev_id c) (dev_version c))
        (\<lambda>r _. (r = Ok False \<longrightarrow> keep) \<and> (r \<noteq> Ok False \<longrightarrow> save)) v"
  shows "wp (saveDeviceUseCase s m) (\<lambda>r w'. inv w' \<and> r \<noteq> Panic \<and>
    (dev w' = dev w \<and> (keep \<or> (\<exists>e. r = Err e)) \<or> dev w' = save_devices c (dev w) \<and> save)) w"
  by (rule saveDevice_steps [OF assms]) (auto intro: quiet_wpI [OF propagate_quiet])

text \<open>Whatever reads fail: a sync event leaves the devices as they are or saves the one it carries.\<close>

lemma saveDevice_any:
  assumes "inv w" and "NewSyncMessageReader m = Ok c"
  shows "wp (saveDeviceUseCase s m) (\<lambda>r w'. inv w' \<and> r \<noteq> Panic \<and>
    (dev w' = dev w \<or> dev w' = save_devices c (dev w))) w"
  by (rule wp_weaken [OF saveDevice_wp [OF assms, where keep = True and contest = True and save = True]])
    (auto simp: wp_iff)

text \<open>A state is only set on a device of this host.\<close>

lemma patchState_wp:
  assumes "inv w" and "wp (NewCheckIfOwnerUseCase getHostId getOwner i) (\<lambda>r _. r \<noteq> Ok True \<longrightarrow> relay) w"
  shows "wp (patchStateUseCase i s) (\<lambda>r w'. inv w' \<and> r \<noteq> Panic \<and>
    (dev w' = patch_devices host i s (dev w) \<or> dev w' = dev w \<and> (relay \<or> (\<exists>e. r = Err e)))) w"
  unfolding NewPatchStateUseCase_def if_swap
  by (rule update_or_relay_steps [OF assms patch_quiet patch_law])
    (auto intro: quiet_wpI [OF propagate_quiet])

lemma saveState_wp:
  assumes "inv w" and "NewPatchMessageReader m = Ok (i, s)"
    and "wp (NewCheckIfOwnerUseCase getHostId getOwner i) (\<lambda>r _. r \<noteq> Ok True \<longrightarrow> relay) w"
  shows "wp (saveStateUseCase a m) (\<lambda>r w'. inv w' \<and> r \<noteq> Panic \<and>
    (dev w' = patch_devices host i s (dev w) \<or> dev w' = dev w \<and> (relay \<or> (\<exists>e. r = Err e)))) w"
  unfolding NewSaveStateUseCase_def assms(2) pure_Ok return_bind prod.case
  by (rule update_or_relay_steps [OF assms(1,3) quiet_return, where P = "\<lambda>_. True"])
    (auto simp: wp_iff [of "return _"] intro: quiet_wpI [OF propagate_quiet])

end

section \<open>The use cases refine the functions on the map\<close>

locale steady_messages = steady_repository + device_messages
begin

text \<open>What the answers of the checks of a sync event mean.\<close>

lemma sync_owner:
  assumes "inv w"
  shows "wp (NewCheckIfOwnerUseCase getHostId getOwner (dev_id c))
    (\<lambda>r _. (r = Ok True \<longrightarrow> (\<exists>d. dev w (dev_id c) = Some d \<and> dev_owner d = host)) \<and>
      (r \<noteq> Ok True \<longrightarrow> (\<forall>d. dev w (dev_id c) = Some d \<longrightarrow> dev_owner d \<noteq> host))) w"
proof (cases "dev w (dev_id c)")
  case None
  then show ?thesis by (intro wp_weaken [OF checkIfOwner_law [OF assms(1)]]) auto
next
  case (Some d)
  then show ?thesis by (intro wp_weaken [OF checkIfOwner_steady [OF assms(1) Some]]) simp
qed

lemma sync_newer:
  assumes v: "inv v" and contest: "\<forall>d. dev v (dev_id c) = Some d \<longrightarrow> dev_owner d \<noteq> host"
  shows "wp (NewCheckIfNewerUseCase getVersion (dev_id c) (dev_version c))
    (\<lambda>r _. (r = Ok False \<longrightarrow> sync_devices host c (dev v) = dev v \<and>
        (\<forall>d. dev v (dev_id c) = Some d \<longrightarrow> sint (dev_version c) \<le> sint (dev_version d))) \<and>
      (r \<noteq> Ok False \<longrightarrow> sync_devices host c (dev v) = save_devices c (dev v) \<and>
        (\<forall>d. dev v (dev_id c) = Some d \<longrightarrow> sint (dev_version d) < sint (dev_version c)))) v"
proof (cases "dev v (dev_id c)")
  case None
  then have save: "sync_devices host c (dev v) = save_devices c (dev v)" by (simp add: sync_devices_def)
  moreover have "dev_id c = ZeroId \<Longrightarrow> save_devices c (dev v) = dev v"
    using None by (auto simp: save_devices_def)
  moreover have "dev_id c \<noteq> ZeroId \<Longrightarrow> wp (NewCheckIfNewerUseCase getVersion (dev_id c) (dev_version c))
      (\<lambda>r _. \<forall>b. r \<noteq> Ok b) v"
    by (rule wp_weaken [OF checkIfNewer_law [OF v]]) (use None in auto)
  ultimately show ?thesis using None by (cases "dev_id c = ZeroId") (auto simp: wp_iff)
next
  case (Some d)
  show ?thesis
    by (rule wp_weaken [OF checkIfNewer_steady [OF v Some]])
      (use Some contest in \<open>auto simp: sync_devices_def not_less\<close>)
qed

lemma relay_steady:
  assumes "inv w"
  shows "wp (NewCheckIfOwnerUseCase getHostId getOwner i)
    (\<lambda>r _. r \<noteq> Ok True \<longrightarrow> (\<forall>d. dev w i = Some d \<longrightarrow> dev_owner d \<noteq> host)) w"
proof (cases "dev w i")
  case None
  then show ?thesis by (simp add: wp_iff)
next
  case (Some d)
  then show ?thesis
    by (intro wp_weaken [OF checkIfOwner_steady [OF assms Some]]) simp
qed

text \<open>
  The steps of a sync event when reads succeed: the host's own device is kept, a device that is not
  newer is answered with the stored one, any other is saved and passed on.
\<close>

lemma saveDevice_steady:
  assumes w: "inv w" and reader: "NewSyncMessageReader m = Ok c"
    and owned: "\<And>v. inv v \<Longrightarrow> dev v = dev w \<Longrightarrow> sync_devices host c (dev w) = dev w \<Longrightarrow> Q (Ok ()) v"
    and failed: "\<And>v e. inv v \<Longrightarrow> dev v = dev w \<Longrightarrow> Q (Err e) v"
    and answered: "\<And>v m' d. inv v \<Longrightarrow> dev v = dev w \<Longrightarrow> sync_devices host c (dev w) = dev w \<Longrightarrow>
      (\<forall>d'. dev w (dev_id c) = Some d' \<longrightarrow>
        dev_owner d' \<noteq> host \<and> sint (dev_version c) \<le> sint (dev_version d') \<and> d = d') \<Longrightarrow>
      (dev w (dev_id c) = None \<longrightarrow> dev_id c = ZeroId) \<Longrightarrow> NewSyncMessageReader m' = Ok d \<Longrightarrow>
      wp (bind (getRandomPeers (msg_id m') MinInt) (\<lambda>ps. foreach ps (\<lambda>p. ignore (sendMessage p m')))) Q v"
    and saved: "\<And>v. inv v \<Longrightarrow> dev v = sync_devices host c (dev w) \<Longrightarrow>
      (\<forall>d'. dev w (dev_id c) = Some d' \<longrightarrow> dev_owner d' \<noteq> host \<and> sint (dev_version d') < sint (dev_version c)) \<Longrightarrow>
      wp (bind (getRandomPeers (msg_id m) MinInt) (\<lambda>ps. foreach ps (\<lambda>p. ignore (sendMessage p m)))) Q v"
  shows "wp (NewSaveDeviceUseCase (NewCheckIfOwnerUseCase getHostId getOwner)
     (NewCheckIfNewerUseCase getVersion) NewSyncMessageReader saveDevice getDevice getRandomPeers
     createSyncMessage sendMessage s m) Q w"
proof -
  let ?D = "dev w" and ?i = "dev_id c"
  let ?contest = "\<forall>d. ?D ?i = Some d \<longrightarrow> dev_owner d \<noteq> host"
  let ?old = "\<forall>d. ?D ?i = Some d \<longrightarrow> dev_owner d \<noteq> host \<longrightarrow> sint (dev_version c) \<le> sint (dev_version d)"
  let ?new = "\<forall>d. ?D ?i = Some d \<longrightarrow> sint (dev_version d) < sint (dev_version c)"
  let ?keep = "sync_devices host c ?D = ?D \<and> ?old"
  let ?save = "sync_devices host c ?D = save_devices c ?D \<and> ?new"
  have owner: "wp (NewCheckIfOwnerUseCase getHostId getOwner ?i)
      (\<lambda>r _. (r = Ok True \<longrightarrow> ?keep) \<and> (r \<noteq> Ok True \<longrightarrow> ?contest)) w"
    by (rule wp_weaken [OF sync_owner [OF w]]) (auto simp: sync_devices_def)
  have newer: "wp (NewCheckIfNewerUseCase getVersion ?i (dev_version c))
      (\<lambda>r _. (r = Ok False \<longrightarrow> ?keep) \<and> (r \<noteq> Ok False \<longrightarrow> ?save)) v"
    if "inv v" "dev v = ?D" ?contest for v
    by (rule wp_weaken [OF sync_newer [OF that(1), of c]]) (use that(2,3) in auto)
  show ?thesis
  proof (rule saveDevice_steps [OF w reader owner newer])
    fix v m' d
    assume v: "inv v" "dev v = ?D" and keep: ?keep and contest: ?contest
      and m': "NewSyncMessageReader m' = Ok d" "?i \<noteq> ZeroId \<longrightarrow> ?D ?i = Some d"
    show "wp (bind (getRandomPeers (msg_id m') MinInt) (\<lambda>ps. foreach ps (\<lambda>p. ignore (sendMessage p m')))) Q v"
      by (rule answered [OF v, of d]) (use keep contest m' dev_id_law [OF w] in auto)
  qed (use owned failed saved in auto)
qed

text \<open>The contract also holds with a part of the state fixed that none of the operations changes.\<close>

lemma framed:
  assumes "within (same f) getHostId" "\<And>i. within (same f) (getOwner i)" "\<And>i. within (same f) (getVersion i)"
    "\<And>i. within (same f) (getDevice i)" "\<And>d. within (same f) (saveDevice d)"
    "\<And>i s v. within (same f) (saveState i s v)" "\<And>d. within (same f) (createSyncMessage d)"
    "\<And>i s. within (same f) (createPatchMessage i s)"
  shows "steady_messages dev (\<lambda>w. inv w \<and> f w = S) host getHostId getOwner getVersion getDevice saveDevice
    saveState createSyncMessage createPatchMessage"
proof -
  have q: "quiet (\<lambda>w. inv w \<and> f w = S) dev m" if "quiet inv dev m" "within (same f) m" for m :: "('a, 'z) act"
    using that by (auto simp: quiet_def within_def wp_iff)
  show ?thesis
    by unfold_locales
      (auto intro!: q host_quiet owner_quiet version_quiet device_quiet sync_quiet patch_quiet assms
        dest: dev_id_law intro: host_law owner_law version_law device_law sync_law patch_law
        host_steady owner_steady version_steady
        wp_weaken [OF wp_both_hold [OF saveDevice_law wp_within [OF assms(5)]]]
        wp_weaken [OF wp_both_hold [OF saveState_law wp_within [OF assms(6)]]])
qed

end

locale steady_network = steady_messages + device_network
begin

lemma saveDevice_refines:
  assumes "inv w" and "NewSyncMessageReader m = Ok c"
  shows "wp (saveDeviceUseCase a m) (\<lambda>r w'. inv w' \<and> r \<noteq> Panic \<and>
    (dev w' = sync_devices host c (dev w) \<or> dev w' = dev w \<and> (\<exists>e. r = Err e))) w"
  by (rule saveDevice_steady [OF assms]) (auto intro: quiet_wpI [OF propagate_quiet])

lemma patchState_refines:
  assumes "inv w"
  shows "wp (patchStateUseCase i s) (\<lambda>r w'. inv w' \<and> r \<noteq> Panic \<and>
    (dev w' = patch_devices host i s (dev w) \<or> dev w' = dev w \<and> (\<exists>e. r = Err e))) w"
  by (rule wp_weaken [OF patchState_wp [OF assms relay_steady [OF assms, of i]]])
    (auto simp: patch_devices_def split: option.splits if_splits)

lemma saveState_refines:
  assumes "inv w" and "NewPatchMessageReader m = Ok (i, s)"
  shows "wp (saveStateUseCase a m) (\<lambda>r w'. inv w' \<and> r \<noteq> Panic \<and>
    (dev w' = patch_devices host i s (dev w) \<or> dev w' = dev w \<and> (\<exists>e. r = Err e))) w"
  by (rule wp_weaken [OF saveState_wp [OF assms relay_steady [OF assms(1), of i]]])
    (auto simp: patch_devices_def split: option.splits if_splits)

end

section \<open>What the functions on the map guarantee\<close>

lemma sync_devices_other: "i \<noteq> dev_id c \<Longrightarrow> sync_devices h c D i = D i"
  by (simp add: sync_devices_def save_devices_def split: option.split)

lemma patch_devices_other: "j \<noteq> i \<Longrightarrow> patch_devices h i s D j = D j"
  by (simp add: patch_devices_def split: option.split)

lemma sync_devices_owned: "D i = Some d \<Longrightarrow> dev_owner d = h \<Longrightarrow> sync_devices h c D i = Some d"
  by (cases "i = dev_id c") (simp_all add: sync_devices_other, simp add: sync_devices_def)

lemma patch_devices_owned:
  "D i = Some d \<Longrightarrow> dev_owner d = h \<Longrightarrow> patch_devices h j s D i =
     Some (if j = i then d\<lparr>dev_state := s, dev_version := dev_version d + 1\<rparr> else d)"
  by (cases "i = j") (simp_all add: patch_devices_other, simp add: patch_devices_def)

lemma sync_devices_version:
  assumes "D i = Some d" and "i \<noteq> ZeroId"
  shows "\<exists>d'. sync_devices h c D i = Some d' \<and> sint (dev_version d) \<le> sint (dev_version d')"
  using assms
  by (cases "i = dev_id c") (auto simp: sync_devices_other, auto simp: sync_devices_def save_devices_def)

lemma sint_plus_1: "v \<noteq> MaxInt \<Longrightarrow> sint (v + 1 :: int64) = sint v + 1"
proof -
  assume "v \<noteq> MaxInt"
  then have "sint v \<noteq> sint MaxInt" by (auto dest: signed_word_eqI)
  then have "sint v < 2 ^ 63 - 1"
    using sint_lt [of v] by (simp add: sint_MaxInt)
  moreover have "- (2 ^ 63) \<le> sint v" using sint_ge [of v] by simp
  ultimately show ?thesis by (simp add: sint_word_ariths signed_take_bit_int_eq_self)
qed

lemma patch_devices_version:
  assumes "D i = Some d" and "dev_version d \<noteq> MaxInt"
  shows "\<exists>d'. patch_devices h j s D i = Some d' \<and> dev_owner d' = dev_owner d \<and>
    sint (dev_version d) \<le> sint (dev_version d')"
  using assms
  by (cases "i = j") (auto simp: patch_devices_other, auto simp: patch_devices_def sint_plus_1)

end
