(* ===== verification/Wiring.thy ===== *)
theory Wiring
  imports Controller Device_Repository
begin

text \<open>
  The wiring of \<open>lib.go\<close> provides the contracts of the use cases: the invariant \<open>world_ok\<close> of the
  state, what each primitive operation leaves alone, and the interpretation of the locales
  \<open>device_repository\<close>, \<open>device_network\<close> and their steady versions on the definitions of \<open>Controller\<close>.
\<close>

section \<open>The invariant\<close>

text \<open>The host identifies itself as \<open>h\<close>, whenever it is asked.\<close>

definition host_is :: "'d external \<Rightarrow> Id \<Rightarrow> 'd world \<Rightarrow> bool" where
  "host_is E h w \<longleftrightarrow> (\<forall>t. fst (preferences_GetHostId (uuid E) (machine_ID E t) (properties w)) = Ok h)"

definition world_ok :: "'d external \<Rightarrow> Id \<Rightarrow> 'd world \<Rightarrow> bool" where
  "world_ok E h w \<longleftrightarrow>
     disk_ok E w \<and> table_ok (uuid E) (world_table E w) \<and> host_is E h w \<and>
     peers_ok (peer_cache w) \<and> cache_ok (message_cache w)"

definition devices_of :: "'d external \<Rightarrow> 'd world \<Rightarrow> devices" where
  "devices_of E w = stored_device (uuid E) (world_table E w)"

lemma world_okD:
  assumes "world_ok E h w"
  shows "disk_ok E w" "table_ok (uuid E) (world_table E w)" "rows_ok (uuid E) (world_table E w)"
    "host_is E h w" "peers_ok (peer_cache w)" "cache_ok (message_cache w)" "env_ok E"
    "attribute_ids_ok (uuid E)"
  using assms by (auto simp: world_ok_def table_ok_def disk_ok_def env_ok_def)

lemma world_ok_update [simp]:
  "world_ok E h (w\<lparr>moment := n\<rparr>) = world_ok E h w"
  "world_ok E h (w\<lparr>sent := s\<rparr>) = world_ok E h w"
  "world_ok E h (w\<lparr>udp := u\<rparr>) = world_ok E h w"
  "world_ok E h (w\<lparr>cancelled := b\<rparr>) = world_ok E h w"
  "world_ok E h (w\<lparr>api := a\<rparr>) = world_ok E h w"
  by (simp_all add: world_ok_def disk_ok_def world_table_def host_is_def)

lemma world_ok_peers: "world_ok E h w \<Longrightarrow> peers_ok c \<Longrightarrow> world_ok E h (w\<lparr>peer_cache := c\<rparr>)"
  by (simp add: world_ok_def disk_ok_def world_table_def host_is_def)

lemma world_ok_cache: "world_ok E h w \<Longrightarrow> cache_ok c \<Longrightarrow> world_ok E h (w\<lparr>message_cache := c\<rparr>)"
  by (simp add: world_ok_def disk_ok_def world_table_def host_is_def)

lemma world_ok_properties:
  "world_ok E h w \<Longrightarrow> (\<And>t. fst (preferences_GetHostId (uuid E) (machine_ID E t) p) = Ok h) \<Longrightarrow>
   world_ok E h (w\<lparr>properties := p\<rparr>)"
  by (simp add: world_ok_def disk_ok_def world_table_def host_is_def)

lemma world_ok_disk:
  "world_ok E h w \<Longrightarrow> disk_ok E w' \<Longrightarrow> table_ok (uuid E) (world_table E w') \<Longrightarrow>
   properties w' = properties w \<Longrightarrow> peer_cache w' = peer_cache w \<Longrightarrow>
   message_cache w' = message_cache w \<Longrightarrow> world_ok E h w'"
  by (simp add: world_ok_def host_is_def)

section \<open>The identity\<close>

lemma GetHostId_same_id:
  "cachedMachineId p' = cachedMachineId p \<Longrightarrow>
   fst (preferences_GetHostId U m p') = fst (preferences_GetHostId U m p)"
  by (simp add: preferences_GetHostId_def Let_def split: sum.split option.split)

lemma GetBroadcastAddress_id: "cachedMachineId (snd (preferences_GetBroadcastAddress ifs p)) = cachedMachineId p"
  by (simp add: preferences_GetBroadcastAddress_def cacheAddresses_def Let_def split: result.split prod.split)

lemma GetLocalAddress_id: "cachedMachineId (snd (preferences_GetLocalAddress ifs p)) = cachedMachineId p"
  by (simp add: preferences_GetLocalAddress_def cacheAddresses_def Let_def split: result.split prod.split)

lemma GetHostId_again:
  assumes "\<And>m. m \<in> M \<Longrightarrow> fst (preferences_GetHostId U m p) = Ok h" and "m \<in> M" and "m' \<in> M"
  shows "fst (preferences_GetHostId U m' (snd (preferences_GetHostId U m p))) = Ok h"
proof (cases "h = ZeroId \<or> cachedMachineId p \<noteq> ZeroId")
  case False
  obtain p' where "preferences_GetHostId U m p = (Ok h, p')"
    using assms(1) [OF assms(2)] by (cases "preferences_GetHostId U m p") auto
  then show ?thesis using GetHostId_stable [of U m p h p' m'] False by simp
next
  case True
  have "cachedMachineId (snd (preferences_GetHostId U m p)) = cachedMachineId p"
    using True assms(1) [OF assms(2)]
    by (auto simp: preferences_GetHostId_def Let_def split: if_splits sum.splits option.splits)
  from GetHostId_same_id [OF this, of U m'] show ?thesis
    using assms(1) [OF assms(3)] by simp
qed

section \<open>Primitive operations that keep the disk\<close>

lemma quiet_draw:
  "(\<And>t. f t \<noteq> Panic) \<Longrightarrow> quiet (world_ok E h) (\<lambda>w. (disk w, peer_cache w)) (draw f)"
  by (rule quietI) (simp add: wp_def draw_def)

lemma quiet_random: "quiet (world_ok E h) (\<lambda>w. (disk w, peer_cache w)) (new_random_id E)"
proof (rule quietI)
  fix w assume "world_ok E h w"
  moreover from this have "NewRandomId (uuid E) t \<noteq> Panic" for t
    using env_okD(3) [OF world_okD(7)] by (auto simp: NewRandomId_def split: result.split)
  ultimately show "wp (new_random_id E) (\<lambda>r w'. world_ok E h w' \<and>
      (disk w', peer_cache w') = (disk w, peer_cache w) \<and> r \<noteq> Panic) w"
    by (simp add: wp_def new_random_id_def draw_def)
qed

lemma quiet_map_order: "quiet (world_ok E h) (\<lambda>w. (disk w, peer_cache w)) (map_order E ks)"
  unfolding map_order_def by (rule quiet_draw) simp

lemma quiet_peers_order: "quiet (world_ok E h) (\<lambda>w. (disk w, peer_cache w)) (peers_order E ps)"
  unfolding peers_order_def by (rule quiet_draw) simp

lemma quiet_properties:
  assumes "\<And>t p t'. (\<And>t. fst (preferences_GetHostId (uuid E) (machine_ID E t) p) = Ok h) \<Longrightarrow>
      fst (preferences_GetHostId (uuid E) (machine_ID E t') (snd (f t p))) = Ok h"
    and "\<And>t p. fst (f t p) \<noteq> Panic"
  shows "quiet (world_ok E h) (\<lambda>w. (disk w, peer_cache w)) (on_properties f)"
proof (rule quietI)
  fix w assume w: "world_ok E h w"
  then have "world_ok E h (w\<lparr>properties := snd (f (moment w) (properties w))\<rparr>)"
    by (intro world_ok_properties assms(1)) (auto simp: world_ok_def host_is_def)
  then show "wp (on_properties f) (\<lambda>r w'. world_ok E h w' \<and>
      (disk w', peer_cache w') = (disk w, peer_cache w) \<and> r \<noteq> Panic) w"
    using assms(2) [of "moment w" "properties w"]
    by (simp add: wp_def on_properties_def case_prod_unfold)
qed

lemma quiet_GetHostId: "quiet (world_ok E h) (\<lambda>w. (disk w, peer_cache w)) (prefs_GetHostId E)"
  unfolding prefs_GetHostId_def
  by (rule quiet_properties)
    (auto simp: GetHostId_not_Panic intro: GetHostId_again [where M = "range (machine_ID E)"])

lemma addresses_not_Panic:
  "fst (preferences_GetBroadcastAddress ifs p) \<noteq> Panic" "fst (preferences_GetLocalAddress ifs p) \<noteq> Panic"
  by (simp_all add: preferences_GetBroadcastAddress_def preferences_GetLocalAddress_def
      findLocalUdpAddresses_def Let_def split: prod.split sum.split)

lemma quiet_GetBroadcastAddress:
  "quiet (world_ok E h) (\<lambda>w. (disk w, peer_cache w)) (prefs_GetBroadcastAddress E)"
  unfolding prefs_GetBroadcastAddress_def
  by (rule quiet_properties) (simp_all add: GetHostId_same_id [OF GetBroadcastAddress_id] addresses_not_Panic)

lemma quiet_GetLocalAddress:
  "quiet (world_ok E h) (\<lambda>w. (disk w, peer_cache w)) (prefs_GetLocalAddress E)"
  unfolding prefs_GetLocalAddress_def
  by (rule quiet_properties) (simp_all add: GetHostId_same_id [OF GetLocalAddress_id] addresses_not_Panic)

lemma quiet_Get: "quiet (world_ok E h) (\<lambda>w. (disk w, peer_cache w)) (db_Get E i a)"
proof (rule quietI)
  fix w assume "world_ok E h w"
  moreover have "snd (database_Get (badger_db E) t i a d) = d" for t d
    by (rule database_Get_disk)
  moreover have "fst (database_Get (badger_db E) t i a d) \<noteq> Panic" for t d
    using database_Get_not_Panic by (metis prod.collapse)
  ultimately show "wp (db_Get E i a) (\<lambda>r w'. world_ok E h w' \<and>
      (disk w', peer_cache w') = (disk w, peer_cache w) \<and> r \<noteq> Panic) w"
    by (simp add: wp_def db_Get_def on_disk_def case_prod_unfold)
qed

lemma quiet_cache:
  assumes "\<And>t c. cache_ok c \<Longrightarrow> cache_ok (snd (f t c))"
  shows "quiet (world_ok E h) (\<lambda>w. (disk w, peer_cache w)) (on_cache f)"
proof (rule quietI)
  fix w assume "world_ok E h w"
  then have "world_ok E h (w\<lparr>message_cache := snd (f (moment w) (message_cache w))\<rparr>)"
    by (intro world_ok_cache assms world_okD)
  then show "wp (on_cache f) (\<lambda>r w'. world_ok E h w' \<and>
      (disk w', peer_cache w') = (disk w, peer_cache w) \<and> r \<noteq> Panic) w"
    by (simp add: wp_def on_cache_def case_prod_unfold)
qed

lemma quiet_cache_methods:
  "quiet (world_ok E h) (\<lambda>w. (disk w, peer_cache w)) (cache_ContainsMessageForPeer E m p)"
  "quiet (world_ok E h) (\<lambda>w. (disk w, peer_cache w)) (cache_ContainsMessage E m)"
  "quiet (world_ok E h) (\<lambda>w. (disk w, peer_cache w)) (cache_Hold E m p)"
  "quiet (world_ok E h) (\<lambda>w. (disk w, peer_cache w)) cache_Reset"
  unfolding cache_ContainsMessageForPeer_def cache_ContainsMessage_def cache_Hold_def cache_Reset_def
  by (rule quiet_cache; simp add: cache_ok_clearOutdated cache_ok_Hold cache_ok_Reset)+

lemma GetAllPeers_known:
  assumes "world_ok E h w"
  shows "peers_GetAllPeers E w =
    (Ok (peers_in (key_order E (moment w) (keys (peers (peer_cache w)))) (peer_cache w)), w\<lparr>moment := Suc (moment w)\<rparr>)"
proof -
  have "peers_ok (peer_cache w)" "mset (key_order E (moment w) (keys (peers (peer_cache w)))) = mset (keys (peers (peer_cache w)))"
    using world_okD(5,7) [OF assms] by (auto simp: env_ok_def)
  from GetAllPeers_fills [OF this] show ?thesis by (simp add: peers_GetAllPeers_def Let_def)
qed

lemma quiet_GetAllPeers: "quiet (world_ok E h) (\<lambda>w. (disk w, peer_cache w)) (peers_GetAllPeers E)"
  by (rule quietI) (simp add: wp_def GetAllPeers_known)

lemma quiet_Send: "quiet (world_ok E h) (\<lambda>w. (disk w, peer_cache w)) (udp_Send E a d)"
  by (rule quietI) (simp add: wp_def udp_Send_def Let_def Send_not_Panic)

lemmas quiet_primitives = quiet_random quiet_map_order quiet_peers_order quiet_GetHostId
  quiet_GetBroadcastAddress quiet_GetLocalAddress quiet_Get quiet_cache_methods quiet_GetAllPeers
  quiet_Send

section \<open>The wiring that keeps the disk\<close>

lemma quiet_messages:
  "quiet (world_ok E h) (\<lambda>w. (disk w, peer_cache w)) (patchMessageProvider E i s)"
  "quiet (world_ok E h) (\<lambda>w. (disk w, peer_cache w)) (syncMessageProvider E d)"
  "quiet (world_ok E h) (\<lambda>w. (disk w, peer_cache w)) (peerMessageProvider E p)"
  "quiet (world_ok E h) (\<lambda>w. (disk w, peer_cache w)) (hailMessageProvider E)"
  "quiet (world_ok E h) (\<lambda>w. (disk w, peer_cache w)) (farewellMessageProvider E)"
  unfolding patchMessageProvider_def syncMessageProvider_def peerMessageProvider_def
    hailMessageProvider_def farewellMessageProvider_def NewPatchMessageProvider_def
    NewSyncMessageProvider_def NewPeerMessageProvider_def NewHailMessageProvider_def
    NewFarewellMessageProvider_def
  by (intro quiet_rules quiet_primitives)+

lemma quiet_send: "quiet (world_ok E h) (\<lambda>w. (disk w, peer_cache w)) (sendMessageHandler E p m)"
  unfolding sendMessageHandler_def NewSendMessageHandler_def by (intro quiet_rules quiet_primitives)

lemma quiet_safePeersLoop:
  "quiet (world_ok E h) (\<lambda>w. (disk w, peer_cache w)) (safePeersLoop (cache_ContainsMessageForPeer E) m ps)"
  by (induction ps) (auto intro!: quiet_rules quiet_primitives)

lemma quiet_random_peers: "quiet (world_ok E h) (\<lambda>w. (disk w, peer_cache w)) (getRandomPeersUseCase E m n)"
  unfolding getRandomPeersUseCase_def NewRandomSafePeersForMessageUseCase_def
  by (intro quiet_rules quiet_primitives quiet_safePeersLoop)

lemma quiet_devices:
  "quiet (world_ok E h) (\<lambda>w. (disk w, peer_cache w)) m \<Longrightarrow> quiet (world_ok E h) (devices_of E) m"
  by (auto simp: quiet_def devices_of_def world_table_def elim!: wp_weaken)

section \<open>Reading and writing devices\<close>

lemma world_ok_row:
  assumes "world_ok E h w"
  obtains (zero) "i = ZeroId" | (none) "i \<noteq> ZeroId" "world_table E w i = Map.empty" "devices_of E w i = None"
  | (some) d where "i \<noteq> ZeroId" "dev_id d = i" "world_table E w i = device_row (uuid E) d"
      "devices_of E w i = Some d"
  using rows_cases [OF world_okD(8) [OF assms] world_okD(3) [OF assms], of i]
  unfolding devices_of_def by metis

lemma quiet_readers:
  assumes "\<And>w. world_ok E h w \<Longrightarrow> wp m (\<lambda>r _. r \<noteq> Panic) w"
    and "\<And>f. (\<And>w. f w = (disk w, peer_cache w, message_cache w, properties w)) \<Longrightarrow> within (same f) m"
  shows "quiet (world_ok E h) (\<lambda>w. (disk w, peer_cache w)) m"
proof (rule quietI)
  fix w assume w: "world_ok E h w"
  have "wp m (\<lambda>r w'. (disk w', peer_cache w', message_cache w', properties w') =
      (disk w, peer_cache w, message_cache w, properties w)) w"
    by (rule wp_within [OF assms(2)]) simp
  with assms(1) [OF w] show "wp m (\<lambda>r w'. world_ok E h w' \<and>
      (disk w', peer_cache w') = (disk w, peer_cache w) \<and> r \<noteq> Panic) w"
    using w by (auto simp: wp_iff world_ok_def disk_ok_def world_table_def host_is_def)
qed

lemma within_reads:
  assumes "\<And>w. f w = (disk w, peer_cache w, message_cache w, properties w)"
  shows "within (same f) (db_Get E i a)" "within (same f) (map_order E ks)"
  by (rule withinI, simp add: assms db_Get_def map_order_def on_disk_def draw_def case_prod_unfold
      database_Get_disk)+

lemma version_not_panic:
  assumes w: "world_ok E h w" and b: "world_table E w i (NewStringId (uuid E) ''version'') = Some b"
  shows "BytesToInt64 b \<noteq> Panic"
  using w
proof (cases rule: world_ok_row [where i = i])
  case zero
  then show ?thesis using world_okD(2) [OF w] b by (simp add: table_ok_def index_ok_def)
next
  case (some d)
  then show ?thesis
    using b device_row_lookup(4) [OF world_okD(8) [OF w], of d] by auto
qed (use b in simp)

lemma quiet_owner: "quiet (world_ok E h) (\<lambda>w. (disk w, peer_cache w)) (deviceOwnerProvider E i)"
proof (rule quiet_readers)
  fix w assume w: "world_ok E h w"
  show "wp (deviceOwnerProvider E i) (\<lambda>r _. r \<noteq> Panic) w"
    using db.NewGetDeviceOwnerAttributeAdapter_spec(3) [OF world_okD(8) [OF w] world_okD(1) [OF w], where i = i]
    unfolding deviceOwnerProvider_def by (auto intro: wpI)
qed (unfold deviceOwnerProvider_def NewGetDeviceOwnerAttributeAdapter_def Let_def,
    intro same.within_rules within_reads)

lemma quiet_version: "quiet (world_ok E h) (\<lambda>w. (disk w, peer_cache w)) (stateVersionProvider E i)"
proof (rule quiet_readers)
  fix w assume w: "world_ok E h w"
  show "wp (stateVersionProvider E i) (\<lambda>r _. r \<noteq> Panic) w"
    using db.NewGetStateVersionAttributeAdapter_spec(5) [OF world_okD(8) [OF w] world_okD(1) [OF w], where i = i]
      version_not_panic [OF w]
    unfolding stateVersionProvider_def by (blast intro: wpI)
qed (unfold stateVersionProvider_def NewGetStateVersionAttributeAdapter_def Let_def,
    intro same.within_rules within_reads)

lemma row_device_not_panic:
  assumes "world_ok E h w"
  shows "row_device (uuid E) i (world_table E w i) \<noteq> Panic"
  using version_not_panic [OF assms]
  by (auto simp: row_device_def row_attributes_def split: option.splits result.splits prod.splits if_splits)

lemma quiet_device: "quiet (world_ok E h) (\<lambda>w. (disk w, peer_cache w)) (deviceProvider E i)"
proof (rule quiet_readers)
  fix w assume w: "world_ok E h w"
  show "wp (deviceProvider E i) (\<lambda>r _. r \<noteq> Panic) w"
    using db.NewGetDeviceDataAdapter_spec(3) [OF world_okD(8) [OF w] world_okD(1) [OF w], where i = i]
      row_device_not_panic [OF w, of i]
    unfolding deviceProvider_def by (fastforce intro: wpI)
qed (unfold deviceProvider_def NewGetDeviceDataAdapter_def,
    intro same.within_rules within_reads)

lemma quiet_ids: "quiet (world_ok E h) (\<lambda>w. (disk w, peer_cache w)) (deviceIdsProvider E)"
  unfolding deviceIdsProvider_def NewGetDeviceIdsDataAdapter_def
  by (intro quiet_rules quiet_primitives)

lemma within_db_Set:
  "(\<And>w. f w = (peer_cache w, message_cache w, properties w)) \<Longrightarrow> within (same f) (db_Set E i data)"
  by (rule withinI) (simp add: db_Set_def on_disk_def case_prod_unfold)

lemma persist_law:
  assumes w: "world_ok E h w"
    and writes: "wp m (\<lambda>r w'. disk_ok E w' \<and> r \<noteq> Panic \<and>
      world_table E w' = (if r = Ok () then table_set i row (world_table E w) else world_table E w)) w"
    and frame: "within (same (\<lambda>w. (peer_cache w, message_cache w, properties w))) m"
    and ok: "table_ok (uuid E) (table_set i row (world_table E w))"
    and devices: "stored_device (uuid E) (table_set i row (world_table E w)) = D"
  shows "wp m (\<lambda>r w'. world_ok E h w' \<and> r \<noteq> Panic \<and>
    devices_of E w' = (if r = Ok () then D else devices_of E w)) w"
  using writes wp_within [OF frame, of w]
  by (auto simp: wp_iff devices_of_def devices ok world_okD(2) [OF w] intro!: world_ok_disk [OF w]
      split: if_splits)

lemma devicePersister_law:
  assumes "world_ok E h w"
  shows "wp (devicePersister E d) (\<lambda>r w'. world_ok E h w' \<and> r \<noteq> Panic \<and>
    devices_of E w' = (if r = Ok () then save_devices d (devices_of E w) else devices_of E w)) w"
proof (rule persist_law [OF assms])
  show "wp (devicePersister E d) (\<lambda>r w'. disk_ok E w' \<and> r \<noteq> Panic \<and> world_table E w' =
      (if r = Ok () then table_set (dev_id d) (device_row (uuid E) d) (world_table E w) else world_table E w)) w"
    unfolding devicePersister_def
    by (rule db.NewCreateDeviceDataAdapter_wp [OF world_okD(8,1) [OF assms]])
  show "within (same (\<lambda>w. (peer_cache w, message_cache w, properties w))) (devicePersister E d)"
    unfolding devicePersister_def NewCreateDeviceDataAdapter_def by (rule within_db_Set) simp
qed (use table_set_device [OF world_okD(8,2) [OF assms], of d] in
    \<open>simp_all add: save_devices_def devices_of_def\<close>)

lemma statePersister_law:
  assumes "world_ok E h w" and "devices_of E w i = Some d"
  shows "wp (statePersister E i s v) (\<lambda>r w'. world_ok E h w' \<and> r \<noteq> Panic \<and>
    devices_of E w' = (if r = Ok () then (devices_of E w)(i \<mapsto> d\<lparr>dev_state := s, dev_version := v\<rparr>)
      else devices_of E w)) w"
proof (rule persist_law [OF assms(1)])
  show "wp (statePersister E i s v) (\<lambda>r w'. disk_ok E w' \<and> r \<noteq> Panic \<and> world_table E w' =
      (if r = Ok () then table_set i (state_row (uuid E) s v) (world_table E w) else world_table E w)) w"
    unfolding statePersister_def
    by (rule db.NewPatchStateDataAdapter_wp [OF world_okD(8,1) [OF assms(1)]])
  show "within (same (\<lambda>w. (peer_cache w, message_cache w, properties w))) (statePersister E i s v)"
    unfolding statePersister_def NewPatchStateDataAdapter_def by (rule within_db_Set) simp
qed (use table_set_state [OF world_okD(8,2) [OF assms(1)], of i d s v] assms(2) in
    \<open>simp_all add: devices_of_def\<close>)

lemma stored_owner:
  assumes "world_ok E h w" and "i \<noteq> ZeroId \<and> world_table E w i (NewStringId (uuid E) ''owner'') = Some (Bytes ow)"
  shows "\<exists>d. devices_of E w i = Some d \<and> ow = dev_owner d"
  using assms(1)
  by (cases rule: world_ok_row [where i = i])
    (use assms(2) device_row_lookup(1) [OF world_okD(8) [OF assms(1)]] in auto)

lemma stored_version:
  assumes "world_ok E h w" and "i \<noteq> ZeroId"
    and "\<exists>b. world_table E w i (NewStringId (uuid E) ''version'') = Some b \<and> BytesToInt64 b = Ok v"
  shows "\<exists>d. devices_of E w i = Some d \<and> v = dev_version d"
  using assms(1)
  by (cases rule: world_ok_row [where i = i])
    (use assms(2,3) device_row_lookup(4) [OF world_okD(8) [OF assms(1)]] in auto)

section \<open>The contracts hold of the wiring\<close>

interpretation repo: device_repository "devices_of E" "world_ok E h" h "prefs_GetHostId E"
  "deviceOwnerProvider E" "stateVersionProvider E" "deviceProvider E" "devicePersister E" "statePersister E"
  for E :: "'d external" and h
proof
  fix w :: "'d world" and i d s v
  show "dev_id d = i \<and> i \<noteq> ZeroId" if "world_ok E h w" "devices_of E w i = Some d"
    using that stored_device_iff [OF world_okD(8,3) [OF that(1)]] by (simp add: devices_of_def)
  show "wp (prefs_GetHostId E) (\<lambda>r _. \<forall>h'. r = Ok h' \<longrightarrow> h' = h) w" if "world_ok E h w"
    using world_okD(4) [OF that]
    by (simp add: wp_iff prefs_GetHostId_def on_properties_def host_is_def case_prod_unfold)
  show "wp (deviceOwnerProvider E i) (\<lambda>r _. \<forall>ow. r = Ok ow \<longrightarrow> (\<exists>d. devices_of E w i = Some d \<and> ow = dev_owner d)) w"
    if w: "world_ok E h w"
    using db.NewGetDeviceOwnerAttributeAdapter_spec(4) [OF world_okD(8,1) [OF w], where i = i] stored_owner [OF w]
    unfolding deviceOwnerProvider_def by (intro wpI) blast
  show "wp (stateVersionProvider E i) (\<lambda>r _. \<forall>v. r = Ok v \<longrightarrow> (\<exists>d. devices_of E w i = Some d \<and> v = dev_version d)) w"
    if w: "world_ok E h w" and i: "i \<noteq> ZeroId"
    using db.NewGetStateVersionAttributeAdapter_spec(3) [OF world_okD(8,1) [OF w], where i = i] i stored_version [OF w]
    unfolding stateVersionProvider_def by (intro wpI) blast
  show "wp (deviceProvider E i) (\<lambda>r _. \<forall>d. r = Ok d \<longrightarrow> devices_of E w i = Some d) w"
    if w: "world_ok E h w" and i: "i \<noteq> ZeroId"
    using db.NewGetDeviceDataAdapter_spec(3) [OF world_okD(8,1) [OF w], where i = i]
      row_device_stored [OF world_okD(8,3) [OF w] i]
    unfolding deviceProvider_def devices_of_def
    by (intro wpI) (fastforce split: option.splits if_splits)
qed (auto intro: quiet_devices quiet_primitives quiet_owner quiet_version quiet_device
    devicePersister_law statePersister_law)

lemma sync_message_law: "wp (syncMessageProvider E d) (\<lambda>r _. \<forall>m. r = Ok m \<longrightarrow> NewSyncMessageReader m = Ok d) w"
  by (auto simp: wp_iff syncMessageProvider_def NewSyncMessageProvider_def act_simps sync.decode_sent
      split: prod.splits result.splits)

lemma patch_message_law:
  "wp (patchMessageProvider E i s) (\<lambda>r _. \<forall>m. r = Ok m \<longrightarrow> NewPatchMessageReader m = Ok (i, s)) w"
  using patch.decode_sent [of _ _ _ "(i, s)"]
  by (auto simp: wp_iff patchMessageProvider_def NewPatchMessageProvider_def act_simps
      split: prod.splits result.splits)

interpretation net: device_network "devices_of E" "world_ok E h" h "prefs_GetHostId E"
  "deviceOwnerProvider E" "stateVersionProvider E" "deviceProvider E" "devicePersister E" "statePersister E"
  "syncMessageProvider E" "patchMessageProvider E" "getRandomPeersUseCase E" "sendMessageHandler E"
  for E :: "'d external" and h
  by unfold_locales
    (auto intro: quiet_devices quiet_messages quiet_random_peers quiet_send sync_message_law patch_message_law)

section \<open>When the store opens\<close>

text \<open>
  A read only fails for want of the attribute when \<open>badger.Open\<close> does not fail. (It does fail while
  another handler has the store open: it takes a lock on its directory.)
\<close>

definition opens :: "'d external \<Rightarrow> bool" where
  "opens E \<longleftrightarrow> (\<forall>t d. Open (badger_db E) t d = None)"

definition steady_ok :: "'d external \<Rightarrow> Id \<Rightarrow> 'd world \<Rightarrow> bool" where
  "steady_ok E h w \<longleftrightarrow> opens E \<and> world_ok E h w"

lemma steady_okD: "steady_ok E h w \<Longrightarrow> opens E" "steady_ok E h w \<Longrightarrow> world_ok E h w"
  by (simp_all add: steady_ok_def)

lemma quiet_steady: "quiet (world_ok E h) v m \<Longrightarrow> quiet (steady_ok E h) v m"
  by (auto simp: quiet_def steady_ok_def elim!: wp_weaken)

lemma owner_steady:
  assumes w: "steady_ok E h w" and d: "devices_of E w i = Some d"
  shows "wp (deviceOwnerProvider E i) (\<lambda>r _. r = Ok (dev_owner d)) w"
proof -
  note ok = steady_okD(2) [OF w]
  have "i \<noteq> ZeroId" "world_table E w i = device_row (uuid E) d"
    using d stored_device_iff [OF world_okD(8,3) [OF ok]] by (auto simp: devices_of_def)
  moreover from this have "store (badger_db E) (disk w) i (NewStringId (uuid E) ''owner'') = Some (Bytes (dev_owner d))"
    using device_row_lookup(1) [OF world_okD(8) [OF ok]] by (simp add: world_table_def)
  ultimately have "database_Get (badger_db E) (moment w) i (NewStringId (uuid E) ''owner'') (disk w) =
      (Ok [(NewStringId (uuid E) ''owner'', Bytes (dev_owner d))], disk w)"
    using attribute_ids_distinct(7) [OF world_okD(8) [OF ok]] w
    by (intro database_Get_one_found) (auto simp: steady_ok_def opens_def)
  then show ?thesis
    by (simp add: wp_iff deviceOwnerProvider_def NewGetDeviceOwnerAttributeAdapter_def Let_def
        act_simps db_Get_def on_disk_def index_nil_def)
qed

lemma version_steady:
  assumes w: "steady_ok E h w" and d: "devices_of E w i = Some d"
  shows "wp (stateVersionProvider E i) (\<lambda>r _. r = Ok (dev_version d)) w"
proof -
  note ok = steady_okD(2) [OF w]
  have "i \<noteq> ZeroId" "world_table E w i = device_row (uuid E) d"
    using d stored_device_iff [OF world_okD(8,3) [OF ok]] by (auto simp: devices_of_def)
  moreover from this have "store (badger_db E) (disk w) i (NewStringId (uuid E) ''version'') =
      Some (Int64ToBytes (dev_version d))"
    using device_row_lookup(4) [OF world_okD(8) [OF ok]] by (simp add: world_table_def)
  ultimately have "database_Get (badger_db E) (moment w) i (NewStringId (uuid E) ''version'') (disk w) =
      (Ok [(NewStringId (uuid E) ''version'', Int64ToBytes (dev_version d))], disk w)"
    using attribute_ids_distinct(10) [OF world_okD(8) [OF ok]] w
    by (intro database_Get_one_found) (auto simp: steady_ok_def opens_def)
  then show ?thesis
    by (simp add: wp_iff stateVersionProvider_def NewGetStateVersionAttributeAdapter_def Let_def
        act_simps db_Get_def on_disk_def index_nil_def)
qed

interpretation steady: steady_network "devices_of E" "steady_ok E h" h "prefs_GetHostId E"
  "deviceOwnerProvider E" "stateVersionProvider E" "deviceProvider E" "devicePersister E" "statePersister E"
  "syncMessageProvider E" "patchMessageProvider E" "getRandomPeersUseCase E" "sendMessageHandler E"
  for E :: "'d external" and h
proof
  fix w :: "'d world" and i d s v
  assume w: "steady_ok E h w"
  note ok = steady_okD(2) [OF w]
  show "devices_of E w i = Some d \<Longrightarrow> dev_id d = i \<and> i \<noteq> ZeroId" by (rule repo.dev_id_law [OF ok])
  show "wp (prefs_GetHostId E) (\<lambda>r _. \<forall>h'. r = Ok h' \<longrightarrow> h' = h) w" by (rule repo.host_law [OF ok])
  show "wp (deviceOwnerProvider E i) (\<lambda>r _. \<forall>ow. r = Ok ow \<longrightarrow> (\<exists>d. devices_of E w i = Some d \<and> ow = dev_owner d)) w"
    by (rule repo.owner_law [OF ok])
  show "i \<noteq> ZeroId \<Longrightarrow>
    wp (stateVersionProvider E i) (\<lambda>r _. \<forall>v. r = Ok v \<longrightarrow> (\<exists>d. devices_of E w i = Some d \<and> v = dev_version d)) w"
    by (rule repo.version_law [OF ok])
  show "i \<noteq> ZeroId \<Longrightarrow> wp (deviceProvider E i) (\<lambda>r _. \<forall>d. r = Ok d \<longrightarrow> devices_of E w i = Some d) w"
    by (rule repo.device_law [OF ok])
  show "wp (devicePersister E d) (\<lambda>r w'. steady_ok E h w' \<and> r \<noteq> Panic \<and>
      devices_of E w' = (if r = Ok () then save_devices d (devices_of E w) else devices_of E w)) w"
    by (rule wp_weaken [OF devicePersister_law [OF ok]]) (use w in \<open>simp add: steady_ok_def\<close>)
  show "wp (statePersister E i s v) (\<lambda>r w'. steady_ok E h w' \<and> r \<noteq> Panic \<and> devices_of E w' =
      (if r = Ok () then (devices_of E w)(i \<mapsto> d\<lparr>dev_state := s, dev_version := v\<rparr>) else devices_of E w)) w"
    if "devices_of E w i = Some d"
    by (rule wp_weaken [OF statePersister_law [OF ok that]]) (use w in \<open>simp add: steady_ok_def\<close>)
  show "wp (prefs_GetHostId E) (\<lambda>r _. r = Ok h) w"
    using world_okD(4) [OF ok]
    by (simp add: wp_iff prefs_GetHostId_def on_properties_def host_is_def case_prod_unfold)
qed (auto intro: quiet_steady quiet_devices quiet_primitives quiet_owner quiet_version quiet_device
    quiet_messages quiet_random_peers quiet_send owner_steady version_steady sync_message_law patch_message_law)

end
