(* ===== verification/Frames.thy ===== *)
theory Frames
  imports Wiring
begin

text \<open>
  Which parts of the state an operation of the wired program leaves alone. Each locale lists the
  primitive operations a part of the program is made of, and derives the frame of that part from
  theirs; the interpretations give the frames themselves: the disk, the peers, the sent datagrams,
  and the deadlines of the message cache.
\<close>

section \<open>Parts of the program\<close>

locale reading = state_order R for R :: "'d world \<Rightarrow> 'd world \<Rightarrow> bool" +
  fixes E :: "'d external"
  assumes map_order_in: "within R (map_order E ks)"
    and peers_order_in: "within R (peers_order E ps)"
    and random_in: "within R (new_random_id E)"
    and host_in: "within R (prefs_GetHostId E)"
    and broadcast_in: "within R (prefs_GetBroadcastAddress E)"
    and local_in: "within R (prefs_GetLocalAddress E)"
    and get_in: "within R (db_Get E i a)"
begin

lemma messages_in:
  "within R (patchMessageProvider E i s)" "within R (syncMessageProvider E d)"
  "within R (peerMessageProvider E p)" "within R (hailMessageProvider E)" "within R (farewellMessageProvider E)"
  unfolding patchMessageProvider_def syncMessageProvider_def peerMessageProvider_def
    hailMessageProvider_def farewellMessageProvider_def
  by (intro within_message_providers random_in host_in)+

lemma providers_in:
  "within R (deviceProvider E i)" "within R (deviceOwnerProvider E i)" "within R (stateVersionProvider E i)"
  "within R (deviceIdsProvider E)"
  unfolding deviceProvider_def deviceOwnerProvider_def stateVersionProvider_def deviceIdsProvider_def
    NewGetDeviceDataAdapter_def NewGetDeviceOwnerAttributeAdapter_def
    NewGetStateVersionAttributeAdapter_def NewGetDeviceIdsDataAdapter_def Let_def
  by (intro within_rules get_in map_order_in)+

lemma checks_in:
  "within R (checkIfOwnerUseCase E i)" "within R (checkIfNewerUseCase E i v)" "within R (composeInfoUseCase E)"
  unfolding checkIfOwnerUseCase_def checkIfNewerUseCase_def composeInfoUseCase_def
  by (intro within_data_usecases host_in broadcast_in local_in providers_in)+

end

locale querying = reading +
  assumes contains_for_in: "within R (cache_ContainsMessageForPeer E m p)"
    and contains_in: "within R (cache_ContainsMessage E m)"
    and all_peers_in: "within R (peers_GetAllPeers E)"
begin

lemma random_peers_in: "within R (getRandomPeersUseCase E m n)"
  unfolding getRandomPeersUseCase_def
  by (intro within_data_usecases peers_order_in host_in broadcast_in all_peers_in contains_for_in)

end

locale sending = querying +
  assumes hold_in: "within R (cache_Hold E m p)"
    and send_in: "within R (udp_Send E a d)"
begin

lemma send_message_in: "within R (sendMessageHandler E p m)"
  unfolding sendMessageHandler_def by (intro within_NewSendMessageHandler send_in hold_in)

lemma greetings_in: "within R (sendHailMessage E)" "within R (sendFarewellMessage E)"
  unfolding sendHailMessage_def sendFarewellMessage_def
  by (intro within_message_usecases random_peers_in messages_in providers_in send_message_in)+

end

locale storing = sending +
  assumes set_in: "within R (db_Set E i data)"
begin

lemma persisters_in: "within R (devicePersister E d)" "within R (statePersister E i s v)"
  unfolding devicePersister_def statePersister_def NewCreateDeviceDataAdapter_def NewPatchStateDataAdapter_def
  by (intro set_in)+

lemma updates_in:
  "within R (createDeviceUseCase E t s)" "within R (patchStateUseCase E i s)"
  "within R (updateStateUseCase E a m)" "within R (updateDeviceUseCase E a m)"
  unfolding createDeviceUseCase_def patchStateUseCase_def updateStateUseCase_def updateDeviceUseCase_def
  by (intro within_data_usecases within_message_usecases random_in host_in persisters_in providers_in
      checks_in messages_in random_peers_in send_message_in)+

end

locale meeting = sending +
  assumes add_peer_in: "within R (peers_AddPeer p)"
    and remove_peer_in: "within R (peers_RemovePeer i)"
begin

lemma peers_in:
  "within R (updatePeerUseCase E a m)" "within R (deletePeerUseCase E a m)" "within R (saluteOnHailUseCase E a m)"
  unfolding updatePeerUseCase_def deletePeerUseCase_def saluteOnHailUseCase_def
  by (intro within_message_usecases add_peer_in remove_peer_in providers_in messages_in send_message_in)+

end

locale receiving = storing + meeting
begin

lemma packet_in: "within R (receivedMessageHandler E sender data)"
  unfolding receivedMessageHandler_def
  by (intro within_NewReceiveMessageHandler peers_in updates_in contains_in hold_in)

end

locale answering = receiving +
  assumes delete_in: "within R (db_Delete E i)"
    and resets_in: "within R peers_Reset" "within R cache_Reset"
    and cancel_in: "within R context_cancel"
    and stop_in: "within R (udp_Stop E)"
begin

lemma network_in: "within R (leaveNetwork E)" "within R (shutdownHandler E)"
  unfolding leaveNetwork_def shutdownHandler_def NewShutdownUseCase_def
  by (intro within_rules greetings_in stop_in resets_in cancel_in)+

lemma delete_device_in: "within R (deleteDeviceUseCase E i)"
  unfolding deleteDeviceUseCase_def by (intro within_request_usecases checks_in delete_in)

lemma answer_in:
  "(path, handler) \<in> set (routes E) \<Longrightarrow> within R (joinNetwork E) \<or> path \<noteq> ''POST /network'' \<Longrightarrow>
   within R (server_Handle path handler req)"
proof -
  assume "(path, handler) \<in> set (routes E)" "within R (joinNetwork E) \<or> path \<noteq> ''POST /network''"
  then have "within R (handler args content)" for args content
    unfolding routes_def
    by (auto intro!: within_handlers within_request_usecases checks_in providers_in updates_in all_peers_in
        add_peer_in network_in delete_device_in)
  then show ?thesis unfolding server_Handle_def by (intro within_rules)
qed

end

locale serving = answering +
  assumes observe_in: "within R (udp_Observe E)"
begin

lemma join_in: "within R (joinNetwork E)"
  unfolding joinNetwork_def by (intro within_rules greetings_in observe_in)

lemma request_in: "(path, handler) \<in> set (routes E) \<Longrightarrow> within R (server_Handle path handler req)"
  using answer_in join_in by blast

end

section \<open>The frames\<close>

lemmas run_defs = world_methods world_ons within_def case_prod_unfold Let_def modify_def

text \<open>Only \<open>Database.Set\<close> and \<open>Delete\<close> write the disk, only the peer methods change the peers.\<close>

interpretation disk: meeting "same disk" E for E :: "'d external"
  by unfold_locales (simp_all add: run_defs database_Get_disk)

interpretation known: storing "same peer_cache" E for E :: "'d external"
  by unfold_locales (simp_all add: run_defs)

text \<open>Nothing is sent by asking.\<close>

interpretation unsent: querying "same sent" E for E :: "'d external"
  by unfold_locales (simp_all add: run_defs)

text \<open>Reading and writing devices leaves alone what sending depends on.\<close>

definition post_office :: "'d world \<Rightarrow> (string \<times> bytes) list \<times> udpServer \<times> peerCache \<times> messageCache" where
  "post_office w = (sent w, udp w, peer_cache w, message_cache w)"

interpretation office: reading "same post_office" E for E :: "'d external"
  by unfold_locales (simp_all add: run_defs post_office_def)

lemma office_persisters:
  "within (same post_office) (devicePersister E d)" "within (same post_office) (statePersister E i s v)"
  unfolding devicePersister_def statePersister_def NewCreateDeviceDataAdapter_def NewPatchStateDataAdapter_def
  by (simp_all add: run_defs post_office_def)

interpretation silent: steady_messages "devices_of E" "\<lambda>w. steady_ok E h w \<and> post_office w = S" h
  "prefs_GetHostId E" "deviceOwnerProvider E" "stateVersionProvider E" "deviceProvider E" "devicePersister E"
  "statePersister E" "syncMessageProvider E" "patchMessageProvider E"
  for E :: "'d external" and h S
  by (rule steady.framed)
    (intro office.host_in office.providers_in office_persisters office.messages_in)+

text \<open>Handling a packet neither opens nor closes the socket, nor ends the process.\<close>

interpretation socket: receiving "same (\<lambda>w. (udp w, cancelled w))" E for E :: "'d external"
  by unfold_locales (simp_all add: run_defs)

text \<open>As long as the socket is closed, nothing is sent, and only joining the network opens it.\<close>

interpretation offline: answering
  "\<lambda>w w'. connection (udp w) = None \<longrightarrow> connection (udp w') = None \<and> sent w' = sent w" E for E :: "'d external"
  by unfold_locales (simp_all add: run_defs Send_closed udpServer_Stop_def)

text \<open>The caches keep their invariants, whatever the process does.\<close>

interpretation caches: serving
  "\<lambda>w w'. peers_ok (peer_cache w) \<and> cache_ok (message_cache w) \<longrightarrow>
     peers_ok (peer_cache w') \<and> cache_ok (message_cache w')" E for E :: "'d external"
  by unfold_locales
    (simp_all add: run_defs cache_ok_clearOutdated cache_ok_Hold cache_ok_Reset peers_ok_intros)

text \<open>Time does not run backwards.\<close>

interpretation forth: serving "\<lambda>w w'. moment w \<le> moment w'" E for E :: "'d external"
  by unfold_locales (simp_all add: run_defs)

text \<open>
  A deadline of the message cache stays, as long as it has not passed. Only a shutdown forgets it.
\<close>

definition holds :: "'d external \<Rightarrow> 'd world \<Rightarrow> 'd world \<Rightarrow> bool" where
  "holds E w w' \<longleftrightarrow> moment w \<le> moment w' \<and>
     (mono (clock E) \<and> cache_ok (message_cache w) \<longrightarrow>
        cache_ok (message_cache w') \<and>
        (\<forall>m p D. deadline (message_cache w) m p = Some D \<and> clock E (moment w') \<le> D \<longrightarrow>
           deadline (message_cache w') m p = Some D))"

lemma holdsD:
  assumes "holds E w w'" and "mono (clock E)" and "cache_ok (message_cache w)"
  shows "moment w \<le> moment w'" "cache_ok (message_cache w')"
    "deadline (message_cache w) m p = Some D \<Longrightarrow> clock E (moment w') \<le> D \<Longrightarrow>
     deadline (message_cache w') m p = Some D"
  using assms by (auto simp: holds_def)

lemma holds_other: "message_cache w' = message_cache w \<Longrightarrow> moment w \<le> moment w' \<Longrightarrow> holds E w w'"
  by (simp add: holds_def)

lemma holds_cleared:
  "message_cache w' = messageCache_clearOutdated (clock E t) (message_cache w) \<Longrightarrow> t \<le> moment w' \<Longrightarrow>
   moment w \<le> moment w' \<Longrightarrow> holds E w w'"
  unfolding holds_def
  by (auto simp: cache_ok_clearOutdated deadline_clearOutdated dest: monoD [of _ t "moment w'"])

lemma holds_Hold:
  "message_cache w' = messageCache_Hold now m p (message_cache w) \<Longrightarrow> moment w \<le> moment w' \<Longrightarrow>
   holds E w w'"
  unfolding holds_def by (auto simp: cache_ok_Hold deadline_Hold)

interpretation holds: receiving "holds E" E for E :: "'d external"
proof unfold_locales
  fix u v w :: "'d world" and m p
  show "holds E w w" by (rule holds_other) simp_all
  show "holds E u w" if uv: "holds E u v" and vw: "holds E v w"
    unfolding holds_def
  proof (intro conjI impI allI)
    show "moment u \<le> moment w" using uv vw by (simp add: holds_def)
    assume ok: "mono (clock E) \<and> cache_ok (message_cache u)"
    then have ok': "cache_ok (message_cache v)" using holdsD(2) [OF uv] by simp
    then show "cache_ok (message_cache w)" using holdsD(2) [OF vw] ok by simp
    fix m p D assume D: "deadline (message_cache u) m p = Some D \<and> clock E (moment w) \<le> D"
    have "clock E (moment v) \<le> clock E (moment w)"
      using ok holdsD(1) [OF vw] ok' by (auto intro: monoD)
    then have "deadline (message_cache v) m p = Some D"
      using holdsD(3) [OF uv, of m p D] ok D by simp
    then show "deadline (message_cache w) m p = Some D"
      using holdsD(3) [OF vw, of m p D] ok ok' D by simp
  qed
  show "within (holds E) (cache_ContainsMessageForPeer E m p)"
  proof (rule withinI)
    fix w show "holds E w (snd (cache_ContainsMessageForPeer E m p w))"
      by (rule holds_cleared [where t = "moment w"]) (simp_all add: run_defs)
  qed
  show "within (holds E) (cache_ContainsMessage E m)"
  proof (rule withinI)
    fix w show "holds E w (snd (cache_ContainsMessage E m w))"
      by (rule holds_cleared [where t = "moment w"]) (simp_all add: run_defs)
  qed
  show "within (holds E) (cache_Hold E m p)"
    by (rule withinI, rule holds_Hold) (simp_all add: run_defs)
qed (rule withinI, rule holds_other; simp add: run_defs)+

end
