(* ===== verification/Gossip.thy ===== *)
theory Gossip
  imports Frames
begin

text \<open>
  How messages spread: which peers a message is sent to, and what is sent. A message goes to known
  peers, to each at most once, and to none that is still in quarantine for it.
\<close>

section \<open>One peer at a time\<close>

lemma ContainsMessageForPeer_wp:
  assumes "world_ok E h w"
  shows "wp (cache_ContainsMessageForPeer E m p) (\<lambda>r w'. \<exists>b. r = Ok b \<and>
    (\<not> b \<longrightarrow> (\<forall>D. deadline (message_cache w) m p = Some D \<longrightarrow> D \<le> clock E (moment w'))) \<and>
    (b \<longrightarrow> deadline (message_cache w) m p \<noteq> None) \<and>
    (\<forall>m p. deadline (message_cache w) m p = None \<longrightarrow> deadline (message_cache w') m p = None)) w"
proof -
  note ok = world_okD(6) [OF assms]
  have mono: "clock E s \<le> clock E t" if "s \<le> t" for s t
    using env_okD(6) [OF world_okD(7) [OF assms]] that by blast
  show ?thesis
    using ContainsMessageForPeer_iff [OF ok, of "clock E (moment w)" "clock E (Suc (moment w))" m p]
      mono [of "moment w" "moment w + 2"] mono [of "Suc (moment w)" "moment w + 2"]
    by (force simp: wp_iff cache_ContainsMessageForPeer_def on_cache_def case_prod_unfold
        deadline_clearOutdated [OF ok])
qed

text \<open>What is known of the peers a loop over peers has kept.\<close>

definition kept_peers :: "'d external \<Rightarrow> Id \<Rightarrow> 'd world \<Rightarrow> Peer list \<Rightarrow> Peer list \<Rightarrow> 'd world \<Rightarrow> bool" where
  "kept_peers E m w ps qs w' \<longleftrightarrow> subseq qs ps \<and>
     (\<forall>q \<in> set qs. \<forall>D. deadline (message_cache w) m (peer_id q) = Some D \<longrightarrow> D \<le> clock E (moment w')) \<and>
     (\<forall>p \<in> set ps. deadline (message_cache w) m (peer_id p) = None \<longrightarrow> p \<in> set qs)"

lemma safePeersLoop_wp:
  assumes "world_ok E h w"
  shows "wp (safePeersLoop (cache_ContainsMessageForPeer E) m ps) (\<lambda>r w'. world_ok E h w' \<and> holds E w w' \<and>
    (\<exists>qs. r = Ok qs \<and> kept_peers E m w ps qs w')) w"
  using assms
proof (induction ps arbitrary: w)
  case Nil
  show ?case by (simp add: wp_simps kept_peers_def Nil holds_other)
next
  case (Cons p ps)
  note w = Cons.prems
  have mono: "mono (clock E)" using world_okD(7) [OF w] by (simp add: env_ok_def)
  obtain r1 w1 where q: "cache_ContainsMessageForPeer E m (peer_id p) w = (r1, w1)"
    by (cases "cache_ContainsMessageForPeer E m (peer_id p) w")
  obtain b where r1: "r1 = Ok b"
    and b: "\<not> b \<Longrightarrow> deadline (message_cache w) m (peer_id p) = Some D \<Longrightarrow> D \<le> clock E (moment w1)"
      "b \<Longrightarrow> deadline (message_cache w) m (peer_id p) \<noteq> None"
    and none: "\<And>m p. deadline (message_cache w) m p = None \<Longrightarrow> deadline (message_cache w1) m p = None" for D
    using wpD [OF ContainsMessageForPeer_wp [OF w] q] by blast
  have w1: "world_ok E h w1" using quietD [OF quiet_cache_methods(1) w q] by simp
  have h1: "holds E w w1" by (rule withinD [OF holds.contains_for_in q])
  obtain r2 w2 where l: "safePeersLoop (cache_ContainsMessageForPeer E) m ps w1 = (r2, w2)"
    by (cases "safePeersLoop (cache_ContainsMessageForPeer E) m ps w1")
  obtain qs where r2: "r2 = Ok qs" and w2: "world_ok E h w2" and h2: "holds E w1 w2"
    and qs: "kept_peers E m w1 ps qs w2"
    using wpD [OF Cons.IH [OF w1] l] by blast
  have late: "clock E (moment w1) \<le> clock E (moment w2)"
    using h2 mono by (auto simp: holds_def intro: monoD)
  have kept: "D \<le> clock E (moment w2)"
    if "x \<in> set qs" "deadline (message_cache w) m (peer_id x) = Some D" for x D
  proof (cases "clock E (moment w1) \<le> D")
    case True
    then have "deadline (message_cache w1) m (peer_id x) = Some D"
      using holdsD(3) [OF h1 mono world_okD(6) [OF w]] that(2) by blast
    then show ?thesis using qs that(1) by (auto simp: kept_peers_def)
  qed (use late in linarith)
  have "kept_peers E m w (p # ps) (if \<not> b then p # qs else qs) w2"
    using qs kept b none late
    by (auto simp: kept_peers_def intro: order_trans)
  then show ?case
    using w2 holds.order_trans [OF h1 h2] q l r1 r2 by (simp add: wp_def act_simps)
qed

section \<open>The random peers of a message\<close>

text \<open>
  The shortcut for networks with multicast is never taken: the code asks for an error and an address
  at once, and an error comes with the empty address.
\<close>

lemma no_shortcut:
  assumes "world_ok E h w"
    and "\<And>v. world_ok E h v \<Longrightarrow> holds E w v \<Longrightarrow> disk v = disk w \<Longrightarrow> peer_cache v = peer_cache w \<Longrightarrow>
      message_cache v = message_cache w \<Longrightarrow> sent v = sent w \<Longrightarrow> wp (f None) Q v"
  shows "wp (bind (bind (both '''' (prefs_GetBroadcastAddress E)) (\<lambda>(address, err).
      if err \<noteq> None \<and> address \<noteq> '''' then g address err else return None)) f) Q w"
proof -
  obtain r v where v: "prefs_GetBroadcastAddress E w = (r, v)" by (cases "prefs_GetBroadcastAddress E w")
  have "world_ok E h v \<and> (disk v, peer_cache v) = (disk w, peer_cache w) \<and> r \<noteq> Panic"
    by (rule quietD [OF quiet_GetBroadcastAddress assms(1) v])
  moreover have "holds E w v" by (rule withinD [OF holds.broadcast_in v])
  moreover have "message_cache v = message_cache w \<and> sent v = sent w"
    using v by (auto simp: prefs_GetBroadcastAddress_def on_properties_def split: prod.splits)
  ultimately have "wp (f None) Q v" and "r \<noteq> Panic" using assms(2) by auto
  then show ?thesis
    by (cases r) (auto simp: wp_def act_simps v)
qed

text \<open>The selection for a message, made between the states \<open>w\<close> and \<open>w'\<close>.\<close>

definition selection :: "'d external \<Rightarrow> Id \<Rightarrow> int64 \<Rightarrow> 'd world \<Rightarrow> Peer list \<Rightarrow> 'd world \<Rightarrow> bool" where
  "selection E m n w ps w' \<longleftrightarrow>
     distinct (map peer_id ps) \<and> set ps \<subseteq> ran (known_peer (peer_cache w)) \<and>
     (\<forall>p \<in> set ps. \<forall>D. deadline (message_cache w) m (peer_id p) = Some D \<longrightarrow> D \<le> clock E (moment w')) \<and>
     length ps \<le> nat (if sint n \<le> 0 then 5 else sint n) \<and>
     ((\<forall>i. known_peer (peer_cache w) i \<noteq> None \<longrightarrow> deadline (message_cache w) m i = None) \<longrightarrow>
        length ps = min (nat (if sint n \<le> 0 then 5 else sint n)) (length (peers (peer_cache w))))"

lemma peerResultCount_eq: "peerResultCount n k = min (nat (if sint n \<le> 0 then 5 else sint n)) k"
  by (auto simp: peerResultCount_def defaultRandomPeerCount_def Let_def)

lemma selection_take:
  assumes all: "map peer_id ps = ks" "distinct ks" "set ps = ran (known_peer (peer_cache w))"
      "length ps = length (peers (peer_cache w))"
    and kept: "kept_peers E m w ps qs v" and order: "mset order = mset qs"
    and late: "clock E (moment v) \<le> clock E (moment w')"
    and known: "\<And>i p. known_peer (peer_cache w) i = Some p \<Longrightarrow> peer_id p = i"
  shows "selection E m n w (take (peerResultCount n (length qs)) order) w'"
proof -
  let ?k = "peerResultCount n (length qs)"
  have sub: "subseq qs ps" using kept by (simp add: kept_peers_def)
  have "distinct (map peer_id ps)" using all by simp
  then have "distinct (map peer_id qs)"
    using subseqs_distinctD [of "map peer_id qs" "map peer_id ps"] subseq_map [OF sub, of peer_id]
    by (simp add: in_set_subseqs)
  moreover have "mset (map peer_id order) = mset (map peer_id qs)" using order by simp
  ultimately have "distinct (map peer_id order)" using mset_eq_imp_distinct_iff by blast
  then have 1: "distinct (map peer_id (take ?k order))" by (simp add: take_map [symmetric])
  have so: "set order = set qs" using mset_eq_setD [OF order] .
  have sp: "set qs \<subseteq> set ps" using sub by (auto elim: list_emb_set)
  have 2: "set (take ?k order) \<subseteq> ran (known_peer (peer_cache w))"
    using set_take_subset [of ?k order] so sp all(3) by blast
  have 3: "D \<le> clock E (moment w')"
    if "p \<in> set (take ?k order)" "deadline (message_cache w) m (peer_id p) = Some D" for p D
    using that in_set_takeD [of p ?k order] so kept late
    by (auto simp: kept_peers_def intro: order_trans)
  have lo: "length order = length qs" using mset_eq_length [OF order] .
  have 4: "length (take ?k order) \<le> nat (if sint n \<le> 0 then 5 else sint n)"
    by (simp add: peerResultCount_eq)
  have 5: "length (take ?k order) = min (nat (if sint n \<le> 0 then 5 else sint n)) (length (peers (peer_cache w)))"
    if fresh: "\<forall>i. known_peer (peer_cache w) i \<noteq> None \<longrightarrow> deadline (message_cache w) m i = None"
  proof -
    have "p \<in> set qs" if p: "p \<in> set ps" for p
    proof -
      obtain i where "known_peer (peer_cache w) i = Some p"
        using p all(3) by (auto simp: ran_def)
      then have "known_peer (peer_cache w) (peer_id p) \<noteq> None" using known [of i p] by simp
      then show ?thesis using kept fresh p by (auto simp: kept_peers_def)
    qed
    then have "set qs = set ps" using sp by auto
    moreover have "distinct ps" "distinct qs"
      using \<open>distinct (map peer_id ps)\<close> \<open>distinct (map peer_id qs)\<close> by (simp_all add: distinct_map)
    ultimately have "length qs = length ps" by (metis distinct_card)
    then show ?thesis using lo all(4) by (simp add: peerResultCount_eq)
  qed
  show ?thesis
    unfolding selection_def using 1 2 3 4 5 by blast
qed

lemma GetAllPeers_wp:
  assumes "world_ok E h w"
  shows "wp (peers_GetAllPeers E) (\<lambda>r w'. world_ok E h w' \<and> holds E w w' \<and> disk w' = disk w \<and>
    peer_cache w' = peer_cache w \<and> message_cache w' = message_cache w \<and> sent w' = sent w \<and>
    (\<exists>ps. r = Ok ps \<and> distinct (map peer_id ps) \<and> set ps = ran (known_peer (peer_cache w)) \<and>
      length ps = length (peers (peer_cache w)))) w"
proof -
  let ?c = "peer_cache w" and ?ks = "key_order E (moment w) (keys (peers (peer_cache w)))"
  have ok: "peers_ok ?c" and perm: "mset ?ks = mset (keys (peers ?c))"
    using world_okD(5,7) [OF assms] by (auto simp: env_ok_def)
  show ?thesis
    using assms peers_in_distinct [OF ok perm] peers_in_set [OF ok perm] peers_in_length [OF ok perm]
    by (simp add: wp_def GetAllPeers_known holds_other)
qed

lemma random_peers_wp:
  assumes "world_ok E h w"
  shows "wp (getRandomPeersUseCase E m n) (\<lambda>r w'. world_ok E h w' \<and> holds E w w' \<and> disk w' = disk w \<and>
    peer_cache w' = peer_cache w \<and> sent w' = sent w \<and> (\<exists>ps. r = Ok ps \<and> selection E m n w ps w')) w"
  unfolding getRandomPeersUseCase_def NewRandomSafePeersForMessageUseCase_def
proof (rule no_shortcut [OF assms], unfold option.case)
  fix v assume v: "world_ok E h v" "holds E w v" "disk v = disk w" "peer_cache v = peer_cache w"
    "message_cache v = message_cache w" "sent v = sent w"
  obtain r1 w1 where a: "peers_GetAllPeers E v = (r1, w1)" by (cases "peers_GetAllPeers E v")
  obtain ps where w1: "world_ok E h w1" "holds E v w1" "disk w1 = disk v" "peer_cache w1 = peer_cache v"
      "message_cache w1 = message_cache v" "sent w1 = sent v" and r1: "r1 = Ok ps"
    and ps: "distinct (map peer_id ps)" "set ps = ran (known_peer (peer_cache v))"
      "length ps = length (peers (peer_cache v))"
    using wpD [OF GetAllPeers_wp [OF v(1)] a] by blast
  obtain r2 w2 where l: "safePeersLoop (cache_ContainsMessageForPeer E) m ps w1 = (r2, w2)"
    by (cases "safePeersLoop (cache_ContainsMessageForPeer E) m ps w1")
  obtain qs where r2: "r2 = Ok qs" and w2: "world_ok E h w2" "holds E w1 w2"
    and kept: "kept_peers E m w1 ps qs w2"
    using wpD [OF safePeersLoop_wp [OF w1(1)] l] by blast
  have same2: "disk w2 = disk w1" "peer_cache w2 = peer_cache w1" "sent w2 = sent w1"
    using withinD [OF same.within_safePeersLoop l, of disk] withinD [OF same.within_safePeersLoop l, of peer_cache]
      withinD [OF same.within_safePeersLoop l, of sent]
    by (simp_all add: disk.contains_for_in known.contains_for_in unsent.contains_for_in)
  obtain order w3 where o: "peers_order E qs w2 = (Ok order, w3)"
    and order: "mset order = mset qs" and w3: "w3 = w2\<lparr>moment := Suc (moment w2)\<rparr>"
    using world_okD(7) [OF assms] by (auto simp: peers_order_def draw_def env_ok_def)
  have "holds E w2 w3" by (rule holds_other) (simp_all add: w3)
  then have h: "holds E w w3"
    using v(2) w1(2) w2(2) by (blast intro: holds.order_trans)
  have late: "clock E (moment w2) \<le> clock E (moment w3)"
    using env_okD(6) [OF world_okD(7) [OF assms], of "moment w2" "moment w3"] by (simp add: w3)
  have "selection E m n w (take (peerResultCount n (length qs)) order) w3"
    by (rule selection_take [OF refl ps(1) _ _ _ order late])
      (use ps kept v w1 world_okD(5) [OF assms] in \<open>auto simp: kept_peers_def peers_ok_def\<close>)
  then show "wp (bind (peers_GetAllPeers E) (\<lambda>peers. bind (safePeersLoop (cache_ContainsMessageForPeer E) m peers)
      (\<lambda>safePeers. bind (peers_order E safePeers) (\<lambda>order.
        return (take (peerResultCount n (length safePeers)) order)))))
    (\<lambda>r w'. world_ok E h w' \<and> holds E w w' \<and> disk w' = disk w \<and> peer_cache w' = peer_cache w \<and>
      sent w' = sent w \<and> (\<exists>ps. r = Ok ps \<and> selection E m n w ps w')) v"
    using h w2 same2 w1 v by (simp add: wp_def act_simps a r1 l r2 o w3)
qed

section \<open>Sending to the selection\<close>

text \<open>The network takes every datagram: addresses are resolved and writes succeed.\<close>

definition reaches :: "'d external \<Rightarrow> bool" where
  "reaches E \<longleftrightarrow> (\<forall>t a. ResolveUDPAddr E t a = None) \<and> (\<forall>t a d. WriteTo E t a d = None)"

lemma send_message_wp:
  "wp (sendMessageHandler E p m) (\<lambda>r w'.
     sent w' = (if r = Ok () then sent w @ [(peer_address p, datagram m)] else sent w) \<and> r \<noteq> Panic \<and>
     (connection (udp w) = None \<longrightarrow> r \<noteq> Ok ()) \<and> (reaches E \<and> connection (udp w) \<noteq> None \<longrightarrow> r = Ok ()) \<and>
     udp w' = udp w) w"
proof -
  define r0 where "r0 = udpServer_Send (ResolveUDPAddr E (moment w) (peer_address p))
    (WriteTo E (moment w) (peer_address p) (datagram m)) (udp w)"
  have "r0 \<noteq> Panic" "connection (udp w) = None \<longrightarrow> r0 \<noteq> Ok ()"
    "reaches E \<and> connection (udp w) \<noteq> None \<longrightarrow> r0 = Ok ()"
    unfolding r0_def by (simp_all add: Send_not_Panic Send_Ok_iff reaches_def)
  then show ?thesis
    by (cases r0)
      (simp_all add: wp_def sendMessageHandler_def NewSendMessageHandler_def act_simps udp_Send_def Let_def
        cache_Hold_def on_cache_def r0_def [symmetric])
qed

text \<open>The datagram for a pair of a peer and a message, with its address.\<close>

fun mail :: "Peer \<times> Message \<Rightarrow> string \<times> bytes" where
  "mail (p, m) = (peer_address p, datagram m)"

text \<open>A loop over peers and messages sends each message to its peer, or fails to.\<close>

lemma send_list_wp:
  "wp (foreach pms (\<lambda>(p, m). ignore (sendMessageHandler E p m))) (\<lambda>r w'. r = Ok () \<and> udp w' = udp w \<and>
     (\<exists>qms. subseq qms pms \<and> sent w' = sent w @ map mail qms \<and>
       (connection (udp w) = None \<longrightarrow> qms = []) \<and> (reaches E \<and> connection (udp w) \<noteq> None \<longrightarrow> qms = pms))) w"
proof (induction pms arbitrary: w)
  case (Cons pm pms)
  obtain p m where pm: "pm = (p, m)" by (cases pm)
  obtain r w1 where s: "sendMessageHandler E p m w = (r, w1)" by (cases "sendMessageHandler E p m w")
  note w1 = wpD [OF send_message_wp s]
  let ?rest = "foreach pms (\<lambda>(p, m). ignore (sendMessageHandler E p m))"
  obtain r2 w2 where l: "?rest w1 = (r2, w2)" by (cases "?rest w1")
  obtain qms where w2: "r2 = Ok ()" "udp w2 = udp w1" "subseq qms pms" "sent w2 = sent w1 @ map mail qms"
      "connection (udp w1) = None \<longrightarrow> qms = []" "reaches E \<and> connection (udp w1) \<noteq> None \<longrightarrow> qms = pms"
    using wpD [OF Cons.IH l] by (elim conjE exE) (rule that)
  have "(bind (ignore (sendMessageHandler E p m)) (\<lambda>_. ?rest)) w = (r2, w2)"
    using w1 s l by (cases r) (simp_all add: act_simps)
  moreover have "\<exists>qms. subseq qms (pm # pms) \<and> sent w2 = sent w @ map mail qms \<and>
       (connection (udp w) = None \<longrightarrow> qms = []) \<and> (reaches E \<and> connection (udp w) \<noteq> None \<longrightarrow> qms = pm # pms)"
    by (rule exI [of _ "if r = Ok () then pm # qms else qms"]) (use w1 w2 pm in auto)
  ultimately show ?case using w1 w2 pm by (simp add: wp_def)
qed (simp add: wp_simps)

lemma send_all_wp:
  "wp (foreach ps (\<lambda>p. ignore (sendMessageHandler E p m))) (\<lambda>r w'. r = Ok () \<and> udp w' = udp w \<and>
     (\<exists>qs. subseq qs ps \<and> sent w' = sent w @ map (\<lambda>p. (peer_address p, datagram m)) qs \<and>
       (connection (udp w) = None \<longrightarrow> qs = []) \<and> (reaches E \<and> connection (udp w) \<noteq> None \<longrightarrow> qs = ps))) w"
proof (rule wp_weaken [OF send_list_wp [of "map (\<lambda>p. (p, m)) ps", unfolded foreach_map prod.case]], elim conjE exE, goal_cases)
  case (1 r w' qms)
  have "set qms \<subseteq> (\<lambda>p. (p, m)) ` set ps" using 1(3) by (auto elim: list_emb_set)
  then have "qms = map (\<lambda>p. (p, m)) (map fst qms)" by (auto simp: comp_def intro!: map_idI [symmetric])
  then obtain qs where qs: "qms = map (\<lambda>p. (p, m)) qs" by blast
  have fsts: "map fst (map (\<lambda>p. (p, m)) xs) = xs" for xs by (simp add: comp_def)
  have "subseq qs ps" using subseq_map [OF 1(3), of fst] unfolding qs fsts .
  moreover have "qs = ps \<longleftrightarrow> qms = map (\<lambda>p. (p, m)) ps" unfolding qs by (metis fsts)
  ultimately show ?case using 1 by (intro conjI exI [of _ qs]) (auto simp: qs)
qed

text \<open>Copies of \<open>m\<close> went to peers of a selection for the identifier \<open>i\<close>, and nothing else was sent.\<close>

definition spreads :: "'d external \<Rightarrow> Id \<Rightarrow> int64 \<Rightarrow> Message \<Rightarrow> 'd world \<Rightarrow> 'd world \<Rightarrow> bool" where
  "spreads E i n m w w' \<longleftrightarrow>
     (\<exists>ps qs v. selection E i n w ps v \<and> subseq qs ps \<and> moment v \<le> moment w' \<and>
        sent w' = sent w @ map (\<lambda>p. (peer_address p, datagram m)) qs \<and>
        (connection (udp w) = None \<longrightarrow> qs = []) \<and> (reaches E \<and> connection (udp w) \<noteq> None \<longrightarrow> qs = ps))"

lemma spreads_cong: "post_office v = post_office w \<Longrightarrow> spreads E i n m v w' = spreads E i n m w w'"
  by (simp add: spreads_def selection_def post_office_def)

text \<open>Who gets a message that spreads.\<close>

lemma spreads_recipients:
  assumes "spreads E i n m w w'" and "mono (clock E)"
  shows "\<exists>qs. sent w' = sent w @ map (\<lambda>p. (peer_address p, datagram m)) qs \<and> distinct (map peer_id qs) \<and>
    set qs \<subseteq> ran (known_peer (peer_cache w)) \<and> length qs \<le> nat (if sint n \<le> 0 then 5 else sint n) \<and>
    (connection (udp w) = None \<longrightarrow> qs = []) \<and>
    (\<forall>p \<in> set qs. \<forall>D. deadline (message_cache w) i (peer_id p) = Some D \<longrightarrow> D \<le> clock E (moment w')) \<and>
    (reaches E \<and> connection (udp w) \<noteq> None \<and>
      (\<forall>j. known_peer (peer_cache w) j \<noteq> None \<longrightarrow> deadline (message_cache w) i j = None) \<longrightarrow>
      length qs = min (nat (if sint n \<le> 0 then 5 else sint n)) (length (peers (peer_cache w))))"
proof -
  obtain ps qs v where sel: "selection E i n w ps v" and sub: "subseq qs ps" and late: "moment v \<le> moment w'"
    and sent: "sent w' = sent w @ map (\<lambda>p. (peer_address p, datagram m)) qs"
    and all: "reaches E \<and> connection (udp w) \<noteq> None \<longrightarrow> qs = ps" and closed: "connection (udp w) = None \<longrightarrow> qs = []"
    using assms(1) unfolding spreads_def by (elim exE conjE) (rule that)
  have clock: "clock E (moment v) \<le> clock E (moment w')" using assms(2) late by (rule monoD)
  have mem: "set qs \<subseteq> set ps" using sub by (auto elim: list_emb_set)
  have "subseq (map peer_id qs) (map peer_id ps)" by (rule subseq_map [OF sub])
  then have 1: "distinct (map peer_id qs)"
    using sel by (metis in_set_subseqs selection_def subseqs_distinctD)
  have 2: "set qs \<subseteq> ran (known_peer (peer_cache w))"
    using sel mem by (simp only: selection_def) blast
  have 3: "length qs \<le> nat (if sint n \<le> 0 then 5 else sint n)"
    using sel list_emb_length [OF sub] by (simp only: selection_def) linarith
  have 4: "\<forall>p \<in> set qs. \<forall>D. deadline (message_cache w) i (peer_id p) = Some D \<longrightarrow> D \<le> clock E (moment w')"
    using sel mem clock unfolding selection_def by (meson order_trans subsetD)
  have 5: "reaches E \<and> connection (udp w) \<noteq> None \<and>
      (\<forall>j. known_peer (peer_cache w) j \<noteq> None \<longrightarrow> deadline (message_cache w) i j = None) \<longrightarrow>
      length qs = min (nat (if sint n \<le> 0 then 5 else sint n)) (length (peers (peer_cache w)))"
    using sel all by (simp only: selection_def) blast
  show ?thesis by (rule exI [of _ qs]) (intro conjI sent 1 2 3 4 5 closed)
qed

lemma propagate_wp:
  assumes "world_ok E h w"
  shows "wp (bind (getRandomPeersUseCase E i n) (\<lambda>ps. foreach ps (\<lambda>p. ignore (sendMessageHandler E p m))))
    (\<lambda>r w'. r = Ok () \<and> udp w' = udp w \<and> spreads E i n m w w') w"
proof -
  obtain r v where v: "getRandomPeersUseCase E i n w = (r, v)" by (cases "getRandomPeersUseCase E i n w")
  obtain ps where ps: "r = Ok ps" "selection E i n w ps v" "sent v = sent w"
    using wpD [OF random_peers_wp [OF assms] v] by blast
  have udp: "udp v = udp w"
    using withinD [OF socket.random_peers_in v] by simp
  have later: "wp (foreach ps (\<lambda>p. ignore (sendMessageHandler E p m))) (\<lambda>_ w'. moment v \<le> moment w') v"
    by (rule wp_within) (intro forth.within_foreach forth.within_ignore forth.send_message_in)
  have "wp (foreach ps (\<lambda>p. ignore (sendMessageHandler E p m)))
    (\<lambda>r w'. r = Ok () \<and> udp w' = udp w \<and> spreads E i n m w w') v"
    unfolding spreads_def
    by (rule wp_weaken [OF wp_both_hold [OF send_all_wp later]]) (use ps udp in \<open>auto, blast\<close>)
  then show ?thesis
    by (simp add: wp_def act_simps v ps(1))
qed

end
