(* ===== verification/Packets.thy ===== *)
theory Packets
  imports Gossip
begin

text \<open>
  What a packet does: the handler between the socket and the use cases, on the wired program. A
  datagram that was seen is dropped, a new one is put in quarantine for its sender and handled by its
  type; the theorems give the effect on the devices, the peers and the datagrams that are sent.
\<close>

section \<open>Seen or new\<close>

text \<open>The message is in quarantine: some peer's deadline for it has not passed.\<close>

definition seen :: "'d external \<Rightarrow> Id \<Rightarrow> 'd world \<Rightarrow> bool" where
  "seen E i w \<longleftrightarrow> (\<exists>p D. deadline (message_cache w) i p = Some D \<and> clock E (moment w) \<le> D)"

definition dispatch_packet :: "'d external \<Rightarrow> string \<Rightarrow> Message \<Rightarrow> ('d world, unit) act" where
  "dispatch_packet E = dispatch (saluteOnHailUseCase E) (updateStateUseCase E) (updateDeviceUseCase E)
     (updatePeerUseCase E) (deletePeerUseCase E)"

lemma receive_datagram_eq:
  "receivedMessageHandler E sender (datagram m) =
     bind (cache_ContainsMessage E (msg_id m)) (\<lambda>b. if b then return ()
       else bind (cache_Hold E (msg_id m) (msg_sender m)) (\<lambda>_. dispatch_packet E sender m))"
  unfolding receivedMessageHandler_def dispatch_packet_def by (rule receive_datagram)

text \<open>The states in which a new message is handled: it is held for its sender, all else is kept.\<close>

definition handled_in :: "'d external \<Rightarrow> Message \<Rightarrow> 'd world \<Rightarrow> 'd world \<Rightarrow> bool" where
  "handled_in E m w v \<longleftrightarrow> holds E w v \<and> moment v = moment w + 4 \<and>
     (\<exists>D \<ge> clock E (moment w) + timeToLive. deadline (message_cache v) (msg_id m) (msg_sender m) = Some D) \<and>
     (\<forall>i p. i \<noteq> msg_id m \<longrightarrow> deadline (message_cache w) i p = None \<longrightarrow> deadline (message_cache v) i p = None) \<and>
     (disk v, peer_cache v, sent v, properties v, udp v, cancelled v) =
     (disk w, peer_cache w, sent w, properties w, udp w, cancelled w)"

lemma receive_seen:
  assumes "world_ok E h w" and "seen E (msg_id m) w"
  shows "wp (receivedMessageHandler E sender (datagram m)) (\<lambda>r w'. r = Ok () \<and> world_ok E h w' \<and> holds E w w' \<and>
    (disk w', peer_cache w', sent w', properties w', udp w', cancelled w') =
    (disk w, peer_cache w, sent w, properties w, udp w, cancelled w)) w"
proof -
  obtain r v where v: "cache_ContainsMessage E (msg_id m) w = (r, v)"
    by (cases "cache_ContainsMessage E (msg_id m) w")
  have "r = Ok True"
    using v assms(2) ContainsMessage_iff [OF world_okD(6) [OF assms(1)], of "clock E (moment w)" "msg_id m"]
    by (auto simp: cache_ContainsMessage_def on_cache_def seen_def split: prod.splits)
  moreover have "world_ok E h v" using quietD [OF quiet_cache_methods(2) assms(1) v] by simp
  moreover have "holds E w v" by (rule withinD [OF holds.contains_in v])
  moreover have "(disk v, peer_cache v, sent v, properties v, udp v, cancelled v) =
    (disk w, peer_cache w, sent w, properties w, udp w, cancelled w)"
    using v by (auto simp: cache_ContainsMessage_def on_cache_def split: prod.splits)
  ultimately show ?thesis
    unfolding receive_datagram_eq by (simp add: wp_def act_simps v)
qed

lemma receive_new:
  assumes w: "world_ok E h w" and new: "\<not> seen E (msg_id m) w"
    and rest: "\<And>v. world_ok E h v \<Longrightarrow> handled_in E m w v \<Longrightarrow> wp (dispatch_packet E sender m) Q v"
  shows "wp (receivedMessageHandler E sender (datagram m)) Q w"
proof -
  obtain r u where u: "cache_ContainsMessage E (msg_id m) w = (r, u)"
    by (cases "cache_ContainsMessage E (msg_id m) w")
  note ok = world_okD(6) [OF w]
  have r: "r = Ok False"
    using u new ContainsMessage_iff [OF ok, of "clock E (moment w)" "msg_id m"]
    by (auto simp: cache_ContainsMessage_def on_cache_def seen_def split: prod.splits)
  have u_eq: "u = w\<lparr>message_cache := messageCache_clearOutdated (clock E (moment w)) (message_cache w),
      moment := moment w + 2\<rparr>"
    using u by (auto simp: cache_ContainsMessage_def on_cache_def case_prod_unfold)
  obtain v where v: "cache_Hold E (msg_id m) (msg_sender m) u = (Ok (), v)"
    by (simp add: cache_Hold_def on_cache_def)
  have "holds E w u" by (rule withinD [OF holds.contains_in u])
  moreover have "holds E u v" by (rule withinD [OF holds.hold_in v])
  ultimately have holds: "holds E w v" by (rule holds.order_trans)
  have none: "deadline (message_cache u) (msg_id m) (msg_sender m) = None"
    using new unfolding u_eq seen_def
    by (auto simp: deadline_clearOutdated [OF ok] not_less split: option.split)
  have "clock E (moment w) \<le> clock E (moment u)"
    using env_okD(6) [OF world_okD(7) [OF w], of "moment w" "moment u"] by (simp add: u_eq)
  then have "\<exists>D \<ge> clock E (moment w) + timeToLive. deadline (message_cache v) (msg_id m) (msg_sender m) = Some D"
    using v none by (auto simp: cache_Hold_def on_cache_def deadline_Hold)
  moreover have "deadline (message_cache v) i p = None" if "i \<noteq> msg_id m" "deadline (message_cache w) i p = None" for i p
    using v that by (auto simp: cache_Hold_def on_cache_def deadline_Hold u_eq deadline_clearOutdated [OF ok])
  moreover have "(disk v, peer_cache v, sent v, properties v, udp v, cancelled v) =
     (disk w, peer_cache w, sent w, properties w, udp w, cancelled w)"
    using v by (auto simp: cache_Hold_def on_cache_def u_eq)
  moreover have "moment v = moment w + 4" using v by (auto simp: cache_Hold_def on_cache_def u_eq)
  ultimately have handled: "handled_in E m w v" using holds by (simp add: handled_in_def)
  have "world_ok E h u" using quietD [OF quiet_cache_methods(2) w u] by simp
  then have "world_ok E h v" using quietD [OF quiet_cache_methods(3) _ v] by simp
  from rest [OF this handled] show ?thesis
    unfolding receive_datagram_eq by (simp add: wp_def act_simps u r v)
qed

text \<open>A message that was handled is seen for ten seconds, whatever packets come in between.\<close>

lemma seen_later:
  assumes w: "world_ok E h w" and "handled_in E m w v" and "holds E v w'"
    and "clock E (moment w') \<le> clock E (moment w) + timeToLive"
  shows "seen E (msg_id m) w'"
proof -
  have mono: "mono (clock E)" using world_okD(7) [OF w] by (simp add: env_ok_def)
  obtain D where D: "clock E (moment w) + timeToLive \<le> D"
      "deadline (message_cache v) (msg_id m) (msg_sender m) = Some D" and h: "holds E w v"
    using assms(2) by (auto simp: handled_in_def)
  have "cache_ok (message_cache v)" using holdsD(2) [OF h mono world_okD(6) [OF w]] .
  then have "deadline (message_cache w') (msg_id m) (msg_sender m) = Some D"
    using holdsD(3) [OF assms(3) mono] D assms(4) by auto
  then show ?thesis using D(1) assms(4) by (force simp: seen_def)
qed

section \<open>What a new message does to the devices\<close>

definition packet_devices :: "Id \<Rightarrow> Message \<Rightarrow> devices \<Rightarrow> devices" where
  "packet_devices h m D =
     (if msg_type m = MessageTypeCommandPatch then
        (case NewPatchMessageReader m of Ok (i, s) \<Rightarrow> patch_devices h i s D | _ \<Rightarrow> D)
      else if msg_type m = MessageTypeEventSync then
        (case NewSyncMessageReader m of Ok c \<Rightarrow> sync_devices h c D | _ \<Rightarrow> D)
      else D)"

lemma quiet_disk:
  "quiet (world_ok E h) (\<lambda>w. (disk w, peer_cache w)) m \<Longrightarrow> quiet (world_ok E h) disk m"
  by (auto simp: quiet_def elim!: wp_weaken)

lemma quiet_disk_devices: "quiet (world_ok E h) disk m \<Longrightarrow> quiet (world_ok E h) (devices_of E) m"
  by (auto simp: quiet_def devices_of_def world_table_def elim!: wp_weaken)

lemma quiet_peer_methods:
  "quiet (world_ok E h) disk (peers_AddPeer p)" "quiet (world_ok E h) disk (peers_RemovePeer i)"
  "quiet (world_ok E h) disk peers_Reset"
  by (rule quietI, simp add: wp_def peers_AddPeer_def peers_RemovePeer_def peers_Reset_def on_peers_def,
      intro world_ok_peers, assumption, intro peers_ok_intros world_okD(5), assumption?)+

lemma quiet_hail: "quiet (world_ok E h) disk (saluteOnHailUseCase E s m)"
  unfolding saluteOnHailUseCase_def NewSaluteOnHailUseCase_def Let_def
  by (intro quiet_rules quiet_peer_methods quiet_disk quiet_ids quiet_device quiet_messages quiet_send)

lemma quiet_peer: "quiet (world_ok E h) disk (updatePeerUseCase E s m)"
  unfolding updatePeerUseCase_def NewSavePeerUseCase_def Let_def
  by (intro quiet_rules quiet_peer_methods quiet_pure NewPeerMessageReader_not_Panic)

lemma quiet_farewell: "quiet (world_ok E h) disk (deletePeerUseCase E s m)"
  unfolding deletePeerUseCase_def NewDeletePeerUseCase_def by (rule quiet_peer_methods)

lemma dispatch_packet_cases:
  obtains (hail) "msg_type m = MessageTypeCommandHail" "dispatch_packet E s m = saluteOnHailUseCase E s m"
  | (patch) "msg_type m = MessageTypeCommandPatch" "dispatch_packet E s m = updateStateUseCase E s m"
  | (sync) "msg_type m = MessageTypeEventSync" "dispatch_packet E s m = updateDeviceUseCase E s m"
  | (peer) "msg_type m = MessageTypeEventPeer" "dispatch_packet E s m = updatePeerUseCase E s m"
  | (farewell) "msg_type m = MessageTypeEventFarewell" "dispatch_packet E s m = deletePeerUseCase E s m"
  | (other) "msg_type m \<notin> {MessageTypeCommandHail, MessageTypeCommandPatch, MessageTypeEventSync,
      MessageTypeEventPeer, MessageTypeEventFarewell}"
      "dispatch_packet E s m = raise ErrUnexpectedMessageType"
proof -
  have "dispatch_packet E s m = saluteOnHailUseCase E s m" if "msg_type m = MessageTypeCommandHail"
    using that by (simp add: dispatch_packet_def dispatch_def)
  moreover have "dispatch_packet E s m = updateStateUseCase E s m" if "msg_type m = MessageTypeCommandPatch"
    using that by (simp add: dispatch_packet_def dispatch_def message_type_defs)
  moreover have "dispatch_packet E s m = updateDeviceUseCase E s m" if "msg_type m = MessageTypeEventSync"
    using that by (simp add: dispatch_packet_def dispatch_def message_type_defs)
  moreover have "dispatch_packet E s m = updatePeerUseCase E s m" if "msg_type m = MessageTypeEventPeer"
    using that by (simp add: dispatch_packet_def dispatch_def message_type_defs)
  moreover have "dispatch_packet E s m = deletePeerUseCase E s m" if "msg_type m = MessageTypeEventFarewell"
    using that by (simp add: dispatch_packet_def dispatch_def message_type_defs)
  ultimately show ?thesis
    using that by (cases "msg_type m \<in> {MessageTypeCommandHail, MessageTypeCommandPatch,
      MessageTypeEventSync, MessageTypeEventPeer, MessageTypeEventFarewell}")
      (blast, simp add: dispatch_packet_def dispatch_def)
qed

lemma updateDevice_unread:
  "NewSyncMessageReader m \<notin> range Ok \<Longrightarrow>
   wp (updateDeviceUseCase E s m) (\<lambda>r w'. w' = w \<and> r \<notin> range Ok \<and> (r = Panic \<longleftrightarrow> NewSyncMessageReader m = Panic)) w"
  unfolding updateDeviceUseCase_def NewSaveDeviceUseCase_def wp_simps
  by (cases "NewSyncMessageReader m") auto

lemma updateState_unread:
  "NewPatchMessageReader m \<notin> range Ok \<Longrightarrow>
   wp (updateStateUseCase E s m) (\<lambda>r w'. w' = w \<and> r \<notin> range Ok \<and> r \<noteq> Panic) w"
  unfolding updateStateUseCase_def NewSaveStateUseCase_def wp_simps
  using NewPatchMessageReader_not_Panic [of m] by (cases "NewPatchMessageReader m") auto

lemmas wired_usecases = updateDeviceUseCase_def updateStateUseCase_def checkIfOwnerUseCase_def
  checkIfNewerUseCase_def patchStateUseCase_def

lemma owner_any: "wp (NewCheckIfOwnerUseCase f g i) (\<lambda>r _. r \<noteq> Ok True \<longrightarrow> True) w"
  by (simp add: wp_iff)

text \<open>Whatever happens, the invariant stays, and only an unreadable version makes the handler panic.\<close>

lemma dispatch_ok:
  assumes "world_ok E h w"
  shows "wp (dispatch_packet E s m) (\<lambda>r w'. world_ok E h w' \<and>
    (r = Panic \<longleftrightarrow> msg_type m = MessageTypeEventSync \<and> NewSyncMessageReader m = Panic)) w"
proof (cases rule: dispatch_packet_cases [of m E s])
  case hail
  then show ?thesis
    by (auto simp: message_type_defs intro: quiet_wpI [OF quiet_hail assms])
next
  case patch
  show ?thesis
  proof (cases "NewPatchMessageReader m \<in> range Ok")
    case True
    then obtain i st where "NewPatchMessageReader m = Ok (i, st)" by auto
    from net.saveState_wp [OF assms this owner_any] show ?thesis
      unfolding patch wired_usecases
      by (rule wp_weaken) (auto simp: patch message_type_defs)
  next
    case False
    from updateState_unread [OF False] show ?thesis
      unfolding patch by (rule wp_weaken) (use assms in \<open>auto simp: message_type_defs\<close>)
  qed
next
  case sync
  show ?thesis
  proof (cases "NewSyncMessageReader m \<in> range Ok")
    case True
    then obtain c where c: "NewSyncMessageReader m = Ok c" by auto
    from net.saveDevice_any [OF assms this] show ?thesis
      unfolding sync wired_usecases by (rule wp_weaken) (auto simp: c)
  next
    case False
    from updateDevice_unread [OF False] show ?thesis
      unfolding sync by (rule wp_weaken) (use assms in auto)
  qed
next
  case peer
  then show ?thesis
    by (auto simp: message_type_defs intro: quiet_wpI [OF quiet_peer assms])
next
  case farewell
  then show ?thesis
    by (auto simp: message_type_defs intro: quiet_wpI [OF quiet_farewell assms])
qed (use assms in \<open>simp add: wp_simps\<close>)

lemma dispatch_refines:
  assumes w: "steady_ok E h w"
  shows "wp (dispatch_packet E s m) (\<lambda>r w'. steady_ok E h w' \<and>
    (devices_of E w' = packet_devices h m (devices_of E w) \<or> devices_of E w' = devices_of E w \<and> r \<notin> range Ok)) w"
proof (cases rule: dispatch_packet_cases [of m E s])
  case hail
  have "packet_devices h m D = D" for D by (simp add: packet_devices_def hail message_type_defs)
  then show ?thesis
    unfolding hail using quiet_wpI [OF quiet_steady [OF quiet_disk_devices [OF quiet_hail]] w] by auto
next
  case patch
  show ?thesis
  proof (cases "NewPatchMessageReader m \<in> range Ok")
    case True
    then obtain i st where r: "NewPatchMessageReader m = Ok (i, st)" by auto
    from steady.saveState_refines [OF w this] show ?thesis
      unfolding patch wired_usecases
      by (rule wp_weaken) (auto simp: packet_devices_def patch r)
  next
    case False
    from updateState_unread [OF False] show ?thesis
      unfolding patch by (rule wp_weaken) (use w in auto)
  qed
next
  case sync
  show ?thesis
  proof (cases "NewSyncMessageReader m \<in> range Ok")
    case True
    then obtain c where c: "NewSyncMessageReader m = Ok c" by auto
    from steady.saveDevice_refines [OF w this] show ?thesis
      unfolding sync wired_usecases
      by (rule wp_weaken) (auto simp: packet_devices_def sync c message_type_defs)
  next
    case False
    from updateDevice_unread [OF False] show ?thesis
      unfolding sync by (rule wp_weaken) (use w in auto)
  qed
next
  case peer
  have "packet_devices h m D = D" for D by (simp add: packet_devices_def peer message_type_defs)
  then show ?thesis
    unfolding peer using quiet_wpI [OF quiet_steady [OF quiet_disk_devices [OF quiet_peer]] w] by auto
next
  case farewell
  have "packet_devices h m D = D" for D by (simp add: packet_devices_def farewell message_type_defs)
  then show ?thesis
    unfolding farewell using quiet_wpI [OF quiet_steady [OF quiet_disk_devices [OF quiet_farewell]] w] by auto
qed (use w in \<open>simp add: wp_simps packet_devices_def\<close>)

section \<open>Any packet\<close>

text \<open>A packet that is not a datagram: nothing but an error, and at most the cache is cleared.\<close>

lemma receive_malformed:
  assumes "world_ok E h w" and "\<And>m. data \<noteq> datagram m"
  shows "wp (receivedMessageHandler E s data) (\<lambda>r w'. world_ok E h w' \<and> r \<noteq> Panic \<and> holds E w w' \<and>
    (disk w', peer_cache w', sent w') = (disk w, peer_cache w, sent w)) w"
proof (cases rule: datagram_cases [of data])
  case short
  then obtain e where "receivedMessageHandler E s data = raise e"
    unfolding receivedMessageHandler_def using receive_short by blast
  then show ?thesis using assms(1) by (simp add: wp_simps holds_other)
next
  case (headless i t r)
  obtain q v where v: "cache_ContainsMessage E i w = (q, v)" by (cases "cache_ContainsMessage E i w")
  have "world_ok E h v \<and> (disk v, peer_cache v) = (disk w, peer_cache w) \<and> q \<noteq> Panic"
    by (rule quietD [OF quiet_cache_methods(2) assms(1) v])
  moreover have "holds E w v" by (rule withinD [OF holds.contains_in v])
  moreover have "sent v = sent w" using withinD [OF unsent.contains_in v] by simp
  moreover have "receivedMessageHandler E s data =
      bind (cache_ContainsMessage E i) (\<lambda>b. if b then return () else raise ErrUnexpectedLength)"
    unfolding headless(1) receivedMessageHandler_def by (rule receive_headless [OF headless(2)])
  ultimately show ?thesis by (cases q) (auto simp: wp_def act_simps v)
qed (use assms(2) in blast)

text \<open>
  The only packet that panics: a new sync event whose version has one to seven bytes.
\<close>

definition truncated_sync :: "Message \<Rightarrow> bool" where
  "truncated_sync m \<longleftrightarrow>
     msg_type m = MessageTypeEventSync \<and> 34 < length (msg_data m) \<and> length (msg_data m) < 42"

lemma receive_ok:
  assumes w: "world_ok E h w"
  shows "wp (receivedMessageHandler E s data) (\<lambda>r w'. world_ok E h w' \<and>
    (r = Panic \<longleftrightarrow> (\<exists>m. data = datagram m \<and> truncated_sync m \<and> \<not> seen E (msg_id m) w))) w"
proof (cases "\<exists>m. data = datagram m")
  case False
  then have "\<And>m. data \<noteq> datagram m" by blast
  from receive_malformed [OF w this] show ?thesis
    by (rule wp_weaken) (use False in auto)
next
  case True
  then obtain m where data: "data = datagram m" by blast
  show ?thesis
  proof (cases "seen E (msg_id m) w")
    case seen: True
    from receive_seen [OF w seen, of s] show ?thesis
      unfolding data by (rule wp_weaken) (use seen in auto)
  next
    case new: False
    have "wp (receivedMessageHandler E s (datagram m)) (\<lambda>r w'. world_ok E h w' \<and>
        (r = Panic \<longleftrightarrow> truncated_sync m)) w"
      by (rule receive_new [OF w new], rule wp_weaken [OF dispatch_ok])
        (simp_all add: truncated_sync_def NewSyncMessageReader_Panic_iff)
    then show ?thesis
      unfolding data by (rule wp_weaken) (use new in auto)
  qed
qed

lemma devices_of_disk: "disk w' = disk w \<Longrightarrow> devices_of E w' = devices_of E w"
  by (simp add: devices_of_def world_table_def)

text \<open>With a store that opens, a packet refines \<open>packet_devices\<close>.\<close>

lemma receive_refines:
  assumes w: "steady_ok E h w"
  shows "wp (receivedMessageHandler E s data) (\<lambda>r w'. steady_ok E h w' \<and>
    (devices_of E w' = devices_of E w \<or>
     (\<exists>m. data = datagram m \<and> \<not> seen E (msg_id m) w \<and> devices_of E w' = packet_devices h m (devices_of E w)))) w"
proof (cases "\<exists>m. data = datagram m")
  case False
  then have "\<And>m. data \<noteq> datagram m" by blast
  from receive_malformed [OF steady_okD(2) [OF w] this] show ?thesis
    by (rule wp_weaken) (use w in \<open>auto simp: steady_ok_def intro: devices_of_disk\<close>)
next
  case True
  then obtain m where data: "data = datagram m" by blast
  show ?thesis
  proof (cases "seen E (msg_id m) w")
    case seen: True
    from receive_seen [OF steady_okD(2) [OF w] seen, of s] show ?thesis
      unfolding data by (rule wp_weaken) (use w in \<open>auto simp: steady_ok_def intro: devices_of_disk\<close>)
  next
    case new: False
    show ?thesis
      unfolding data
    proof (rule receive_new [OF steady_okD(2) [OF w] new])
      fix v assume v: "world_ok E h v" "handled_in E m w v"
      then have st: "steady_ok E h v" using w by (simp add: steady_ok_def)
      have dv: "devices_of E v = devices_of E w"
        using v(2) by (intro devices_of_disk) (simp add: handled_in_def)
      show "wp (dispatch_packet E s m) (\<lambda>r w'. steady_ok E h w' \<and>
        (devices_of E w' = devices_of E w \<or> (\<exists>m'. datagram m = datagram m' \<and> \<not> seen E (msg_id m') w \<and>
          devices_of E w' = packet_devices h m' (devices_of E w)))) v"
        by (rule wp_weaken [OF dispatch_refines [OF st]]) (use dv new in auto)
    qed
  qed
qed

section \<open>What a new message does to the peers\<close>

lemma salute_wp:
  assumes "world_ok E h w"
  shows "wp (saluteOnHailUseCase E s m) (\<lambda>r w'. r = Ok () \<and> disk w' = disk w \<and>
    known_peer (peer_cache w') = (known_peer (peer_cache w))(msg_sender m \<mapsto> NewPeer (msg_sender m) s)) w"
proof -
  let ?rest = "bind (if_err (deviceIdsProvider E) (\<lambda>err. return []) return) (\<lambda>deviceIds.
         foreach deviceIds (\<lambda>i.
           if_err (deviceProvider E i) (\<lambda>err. return ()) (\<lambda>device.
           if_err (syncMessageProvider E device) (\<lambda>err. return ()) (\<lambda>syncMessage.
           ignore (sendMessageHandler E (NewPeer (msg_sender m) s) syncMessage)))))"
  obtain v where v: "peers_AddPeer (NewPeer (msg_sender m) s) w = (Ok (), v)"
    and cache: "disk v = disk w" "peer_cache v = peerCache_AddPeer (NewPeer (msg_sender m) s) (peer_cache w)"
    by (simp add: peers_AddPeer_def on_peers_def)
  have ok: "world_ok E h v"
    using quietD [OF quiet_peer_methods(1) assms v] by simp
  have "wp ?rest (\<lambda>r w'. world_ok E h w' \<and> (disk w', peer_cache w') = (disk v, peer_cache v) \<and> r \<noteq> Panic) v"
    by (rule quiet_wp [where I = "world_ok E h", OF _ ok]) (intro quiet_rules quiet_ids quiet_device quiet_messages quiet_send)
  then have "wp ?rest (\<lambda>r w'. r \<in> range Ok \<and> (disk w', peer_cache w') = (disk v, peer_cache v)) v"
    by (intro no_err_wp [of ?rest] no_err_rules) (auto elim: wp_weaken)
  moreover have "saluteOnHailUseCase E s m w = ?rest v"
    unfolding saluteOnHailUseCase_def NewSaluteOnHailUseCase_def Let_def
    by (subst bind_def) (simp only: v prod.case result.case)
  ultimately have "wp (saluteOnHailUseCase E s m) (\<lambda>r w'. r \<in> range Ok \<and> (disk w', peer_cache w') = (disk v, peer_cache v)) w"
    unfolding wp_def by simp
  then show ?thesis by (rule wp_weaken) (auto simp: cache)
qed

lemma farewell_wp:
  "wp (deletePeerUseCase E s m) (\<lambda>r w'. r = Ok () \<and> disk w' = disk w \<and> sent w' = sent w \<and>
    known_peer (peer_cache w') = (known_peer (peer_cache w))(msg_sender m := None)) w"
  by (simp add: wp_def deletePeerUseCase_def NewDeletePeerUseCase_def peers_RemovePeer_def on_peers_def)

lemma peer_wp:
  assumes "NewPeerMessageReader m = Ok p"
  shows "wp (updatePeerUseCase E s m) (\<lambda>r w'. r = Ok () \<and> disk w' = disk w \<and> sent w' = sent w \<and>
    known_peer (peer_cache w') =
      (known_peer (peer_cache w))(msg_sender m \<mapsto> NewPeer (msg_sender m) s, peer_id p \<mapsto> p)) w"
  by (simp add: wp_def updatePeerUseCase_def NewSavePeerUseCase_def peers_AddPeer_def on_peers_def
      act_simps assms Let_def)

section \<open>What a new message makes the host send\<close>

text \<open>
  A sync event: nothing when the host owns the device; the stored device in a new message when the
  event is not newer; the event itself when its device was saved.
\<close>

definition sync_answer :: "Id \<Rightarrow> devices \<Rightarrow> Device \<Rightarrow> Message \<Rightarrow> Message \<Rightarrow> bool" where
  "sync_answer h D c m m' \<longleftrightarrow>
     (case D (dev_id c) of
        None \<Rightarrow> dev_id c \<noteq> ZeroId \<longrightarrow> m' = m
      | Some d \<Rightarrow> dev_owner d \<noteq> h \<and>
          (if sint (dev_version c) \<le> sint (dev_version d) then NewSyncMessageReader m' = Ok d else m' = m))"

lemma sync_sends:
  assumes w: "steady_ok E h w" and reader: "NewSyncMessageReader m = Ok c"
  shows "wp (updateDeviceUseCase E a m) (\<lambda>r w'. sent w' = sent w \<or>
    (\<exists>m'. spreads E (msg_id m') MinInt m' w w' \<and> sync_answer h (devices_of E w) c m m')) w"
    (is "wp _ ?Q w")
proof -
  have go: "wp (bind (getRandomPeersUseCase E (msg_id m') MinInt) (\<lambda>ps. foreach ps (\<lambda>p. ignore (sendMessageHandler E p m')))) ?Q v"
    if v: "steady_ok E h v \<and> post_office v = post_office w" and ans: "sync_answer h (devices_of E w) c m m'" for v m'
    by (rule wp_weaken [OF propagate_wp [OF steady_okD(2)]])
      (use v ans spreads_cong [of v w] in auto)
  have inv: "steady_ok E h w \<and> post_office w = post_office w" using w by simp
  show ?thesis
    unfolding updateDeviceUseCase_def checkIfOwnerUseCase_def checkIfNewerUseCase_def
  proof (rule silent.saveDevice_steady [where S = "post_office w", OF inv reader])
    fix v m' d
    assume "steady_ok E h v \<and> post_office v = post_office w" "NewSyncMessageReader m' = Ok d"
      "\<forall>d'. devices_of E w (dev_id c) = Some d' \<longrightarrow>
        dev_owner d' \<noteq> h \<and> sint (dev_version c) \<le> sint (dev_version d') \<and> d = d'"
      "devices_of E w (dev_id c) = None \<longrightarrow> dev_id c = ZeroId"
    then show "wp (bind (getRandomPeersUseCase E (msg_id m') MinInt)
        (\<lambda>ps. foreach ps (\<lambda>p. ignore (sendMessageHandler E p m')))) ?Q v"
      by (intro go) (auto simp: sync_answer_def split: option.split)
  next
    fix v
    assume "steady_ok E h v \<and> post_office v = post_office w"
      "\<forall>d'. devices_of E w (dev_id c) = Some d' \<longrightarrow>
        dev_owner d' \<noteq> h \<and> sint (dev_version d') < sint (dev_version c)"
    then show "wp (bind (getRandomPeersUseCase E (msg_id m) MinInt)
        (\<lambda>ps. foreach ps (\<lambda>p. ignore (sendMessageHandler E p m)))) ?Q v"
      by (intro go) (auto simp: sync_answer_def split: option.split)
  qed (auto simp: post_office_def)
qed

text \<open>
  A command for a device of another host is passed on as it came, to a selection for \<open>ZeroId\<close>; one
  for the host's own device makes it send the updated device.
\<close>

definition patch_answer :: "Id \<Rightarrow> devices \<Rightarrow> Id \<Rightarrow> DeviceState \<Rightarrow> (Message \<Rightarrow> bool) \<Rightarrow> Message \<Rightarrow> bool" where
  "patch_answer h D i s relayed m' \<longleftrightarrow>
     (if \<exists>d. D i = Some d \<and> dev_owner d = h
      then \<exists>d. patch_devices h i s D i = Some d \<and> NewSyncMessageReader m' = Ok d
      else relayed m')"

lemma patch_answer_updated:
  "D i = Some d \<Longrightarrow> dev_owner d = h \<Longrightarrow>
   NewSyncMessageReader m' = Ok (d\<lparr>dev_state := s, dev_version := dev_version d + 1\<rparr>) \<Longrightarrow>
   patch_answer h D i s P m'"
  by (auto simp: patch_answer_def patch_devices_def)

lemma patch_answer_relayed:
  "(\<forall>d. D i = Some d \<longrightarrow> dev_owner d \<noteq> h) \<Longrightarrow> P m' \<Longrightarrow> patch_answer h D i s P m'"
  by (auto simp: patch_answer_def)

lemma update_or_relay_sends:
  assumes w: "steady_ok E h w"
    and other: "quiet (\<lambda>v. steady_ok E h v \<and> post_office v = post_office w) (devices_of E) other"
      "\<And>v. wp other (\<lambda>r _. \<forall>m. r = Ok m \<longrightarrow> P m) v"
  shows "wp (bind (if_err (NewCheckIfOwnerUseCase (prefs_GetHostId E) (deviceOwnerProvider E) i) (\<lambda>err. other) (\<lambda>isOwner.
        if isOwner then bind (deviceProvider E i) (\<lambda>device. bind (statePersister E i s (dev_version device + 1)) (\<lambda>_.
          bind (deviceProvider E i) (syncMessageProvider E))) else other))
        (\<lambda>m'. bind (getRandomPeersUseCase E ZeroId MinInt) (\<lambda>ps. foreach ps (\<lambda>p. ignore (sendMessageHandler E p m')))))
    (\<lambda>r w'. sent w' = sent w \<and> r \<notin> range Ok \<or>
      r = Ok () \<and> (\<exists>m'. spreads E ZeroId MinInt m' w w' \<and> patch_answer h (devices_of E w) i s P m')) w"
    (is "wp _ ?Q w")
proof -
  have go: "wp (bind (getRandomPeersUseCase E ZeroId MinInt) (\<lambda>ps. foreach ps (\<lambda>p. ignore (sendMessageHandler E p m')))) ?Q v"
    if v: "steady_ok E h v \<and> post_office v = post_office w" and ans: "patch_answer h (devices_of E w) i s P m'" for v m'
    by (rule wp_weaken [OF propagate_wp [OF steady_okD(2)]])
      (use v ans spreads_cong [of v w] in auto)
  have inv: "steady_ok E h w \<and> post_office w = post_office w" using w by simp
  show ?thesis
  proof (rule silent.update_or_relay_steps [where S = "post_office w", OF inv silent.relay_steady [OF inv] other])
    fix v m d
    assume "steady_ok E h v \<and> post_office v = post_office w" "devices_of E w i = Some d" "dev_owner d = h"
      "NewSyncMessageReader m = Ok (d\<lparr>dev_state := s, dev_version := dev_version d + 1\<rparr>)"
    then show "wp (bind (getRandomPeersUseCase E ZeroId MinInt)
        (\<lambda>ps. foreach ps (\<lambda>p. ignore (sendMessageHandler E p m)))) ?Q v"
      by (intro go patch_answer_updated)
  next
    fix v m
    assume "steady_ok E h v \<and> post_office v = post_office w" "P m"
      "\<forall>d. devices_of E w i = Some d \<longrightarrow> dev_owner d \<noteq> h"
    then show "wp (bind (getRandomPeersUseCase E ZeroId MinInt)
        (\<lambda>ps. foreach ps (\<lambda>p. ignore (sendMessageHandler E p m)))) ?Q v"
      by (intro go patch_answer_relayed)
  qed (auto simp: post_office_def)
qed

lemma patch_sends:
  assumes w: "steady_ok E h w" and reader: "NewPatchMessageReader m = Ok (i, s)"
  shows "wp (updateStateUseCase E a m) (\<lambda>r w'. sent w' = sent w \<and> r \<notin> range Ok \<or>
    r = Ok () \<and> (\<exists>m'. spreads E ZeroId MinInt m' w w' \<and> patch_answer h (devices_of E w) i s (\<lambda>m'. m' = m) m')) w"
  unfolding updateStateUseCase_def checkIfOwnerUseCase_def NewSaveStateUseCase_def reader pure_Ok return_bind prod.case
  by (rule update_or_relay_sends [OF w]) (simp_all add: quiet_return wp_return)

lemma patch_message_type:
  "wp (patchMessageProvider E i s)
     (\<lambda>r _. \<forall>m. r = Ok m \<longrightarrow> msg_type m = MessageTypeCommandPatch \<and> NewPatchMessageReader m = Ok (i, s)) w"
  using patch.decode_sent [of _ _ _ "(i, s)"]
  by (auto simp: wp_iff patchMessageProvider_def NewPatchMessageProvider_def act_simps
      split: prod.splits result.splits)

lemma patchState_sends:
  assumes w: "steady_ok E h w"
  shows "wp (patchStateUseCase E i s) (\<lambda>r w'. sent w' = sent w \<and> r \<notin> range Ok \<or>
    r = Ok () \<and> (\<exists>m'. spreads E ZeroId MinInt m' w w' \<and> patch_answer h (devices_of E w) i s
      (\<lambda>m'. msg_type m' = MessageTypeCommandPatch \<and> NewPatchMessageReader m' = Ok (i, s)) m')) w"
  unfolding patchStateUseCase_def checkIfOwnerUseCase_def NewPatchStateUseCase_def if_swap
  by (rule update_or_relay_sends [OF w silent.patch_quiet]) (rule patch_message_type)

section \<open>The handler of a new message, by its type\<close>

lemma dispatch_by_type:
  "dispatch_packet E a (NewMessage i s MessageTypeCommandHail b) = saluteOnHailUseCase E a (NewMessage i s MessageTypeCommandHail b)"
  "dispatch_packet E a (NewMessage i s MessageTypeCommandPatch b) = updateStateUseCase E a (NewMessage i s MessageTypeCommandPatch b)"
  "dispatch_packet E a (NewMessage i s MessageTypeEventSync b) = updateDeviceUseCase E a (NewMessage i s MessageTypeEventSync b)"
  "dispatch_packet E a (NewMessage i s MessageTypeEventPeer b) = updatePeerUseCase E a (NewMessage i s MessageTypeEventPeer b)"
  "dispatch_packet E a (NewMessage i s MessageTypeEventFarewell b) = deletePeerUseCase E a (NewMessage i s MessageTypeEventFarewell b)"
  by (simp_all add: dispatch_packet_def dispatch_def message_type_defs)

lemma receive_new_by_type:
  assumes "world_ok E h w" and "\<not> seen E i w"
    and "\<And>v. world_ok E h v \<Longrightarrow> handled_in E (NewMessage i s t b) w v \<Longrightarrow>
      wp (dispatch_packet E a (NewMessage i s t b)) Q v"
  shows "wp (receivedMessageHandler E a (datagram (NewMessage i s t b))) Q w"
  by (rule receive_new [OF assms(1)]) (use assms(2,3) in simp_all)

text \<open>With a store that opens, the handler starts from the devices as they were.\<close>

lemma receive_steady:
  assumes "steady_ok E h w" and "\<not> seen E i w"
    and "\<And>v. steady_ok E h v \<Longrightarrow> devices_of E v = devices_of E w \<Longrightarrow> post_office v = (sent w, udp w, peer_cache w, message_cache v) \<Longrightarrow>
      handled_in E (NewMessage i s t b) w v \<Longrightarrow> wp (dispatch_packet E a (NewMessage i s t b)) Q v"
  shows "wp (receivedMessageHandler E a (datagram (NewMessage i s t b))) Q w"
proof (rule receive_new_by_type [OF steady_okD(2) [OF assms(1)] assms(2)])
  fix v assume v: "world_ok E h v" "handled_in E (NewMessage i s t b) w v"
  show "wp (dispatch_packet E a (NewMessage i s t b)) Q v"
  proof (rule assms(3))
    show "devices_of E v = devices_of E w"
      using v(2) by (intro devices_of_disk) (simp add: handled_in_def)
  qed (use v assms(1) in \<open>auto simp: steady_ok_def handled_in_def post_office_def\<close>)
qed

text \<open>A sequence of packets keeps the invariant, and holds what is in quarantine.\<close>

lemma packets_ok:
  "world_ok E h w \<Longrightarrow> wp (readBlocking events (receivedMessageHandler E)) (\<lambda>_ w'. world_ok E h w' \<and> holds E w w') w"
proof (rule readBlocking_invariant)
  fix s d v assume v: "world_ok E h v \<and> holds E w v"
  then have "wp (receivedMessageHandler E s d) (\<lambda>_ w'. world_ok E h w') v"
    by (intro wp_weaken [OF receive_ok]) auto
  moreover have "wp (receivedMessageHandler E s d) (\<lambda>_. holds E v) v"
    by (rule wp_within [OF holds.packet_in])
  ultimately show "wp (receivedMessageHandler E s d) (\<lambda>_ w'. world_ok E h w' \<and> holds E w w') v"
    using v holds.order_trans by (fastforce simp: wp_iff)
qed (simp add: holds.order_refl)

lemma new_then_seen:
  assumes w: "world_ok E h w" and new: "\<not> seen E (msg_id m) w"
    and first: "receivedMessageHandler E a (datagram m) w = (r, v)"
    and rest: "readBlocking events (receivedMessageHandler E) v = (q, w')"
    and soon: "clock E (moment w') \<le> clock E (moment w) + timeToLive"
  shows "world_ok E h w' \<and> seen E (msg_id m) w'"
proof -
  have first_wp: "wp (receivedMessageHandler E a (datagram m)) (\<lambda>_ v. \<exists>u. handled_in E m w u \<and> holds E u v) w"
  proof (rule receive_new [OF w new])
    fix u assume u: "handled_in E m w u"
    have "within (holds E) (dispatch_packet E a m)"
      unfolding dispatch_packet_def dispatch_def by (intro holds.within_rules holds.peers_in holds.updates_in)
    then show "wp (dispatch_packet E a m) (\<lambda>_ v. \<exists>u. handled_in E m w u \<and> holds E u v) u"
      using u by (auto intro: wp_weaken [OF wp_within])
  qed
  then obtain u where u: "handled_in E m w u" "holds E u v"
    using wpD [OF first_wp first] by blast
  have "world_ok E h v" using wpD [OF receive_ok [OF w] first] by simp
  then have "world_ok E h w'" "holds E v w'" using wpD [OF packets_ok rest] by auto
  then show ?thesis
    using seen_later [OF w u(1) holds.order_trans [OF u(2)] soon] by blast
qed

section \<open>What packets never do to a device\<close>

lemma packet_devices_owned:
  assumes "D i = Some d" and "dev_owner d = h"
  shows "\<exists>d'. packet_devices h m D i = Some d' \<and> dev_id d' = dev_id d \<and> dev_owner d' = h \<and> dev_type d' = dev_type d \<and>
    (d' = d \<or> msg_type m = MessageTypeCommandPatch \<and> (\<exists>s. NewPatchMessageReader m = Ok (i, s) \<and>
      d' = d\<lparr>dev_state := s, dev_version := dev_version d + 1\<rparr>))"
  using assms(2)
  by (auto simp: packet_devices_def assms(1) sync_devices_owned [of D i d h, OF assms]
      patch_devices_owned [of D i d h, OF assms] split: result.split)

lemma packet_devices_version:
  assumes "D i = Some d" and "i \<noteq> ZeroId" and "dev_version d \<noteq> MaxInt"
  shows "\<exists>d'. packet_devices h m D i = Some d' \<and> sint (dev_version d) \<le> sint (dev_version d')"
  using assms(1) sync_devices_version [of D i d, OF assms(1,2)] patch_devices_version [of D i d, OF assms(1,3)]
  by (auto simp: packet_devices_def split: result.split) blast+

end
