(* ===== verification/Process.thy ===== *)
theory Process
  imports Packets
begin

text \<open>
  The running process: what the use cases behind the REST API do to the devices, and the invariant of
  every reachable state, by induction on the steps of \<open>process_step\<close>.
\<close>

section \<open>Deleting a device\<close>

text \<open>
  \<open>badger\<close> promises nothing of a \<open>DropPrefix\<close> that fails: what it leaves of the item \<open>i\<close> is left open here.
\<close>

definition half_dropped :: "'d external \<Rightarrow> Id \<Rightarrow> 'd \<Rightarrow> 'd \<Rightarrow> bool" where
  "half_dropped E i d d' \<longleftrightarrow> (\<exists>t e. DropPrefix (badger_db E) t d [Bytes ZeroId @ Bytes i, Bytes i] = (Some e, d'))"

text \<open>
  Operating conditions of the store, as \<open>opens\<close> is one: no deletion fails; or, which is weaker and enough
  for the invariants, none fails with the work half done.
\<close>

definition drops :: "'d external \<Rightarrow> bool" where
  "drops E \<longleftrightarrow> (\<forall>t d ps. fst (DropPrefix (badger_db E) t d ps) = None)"

definition drop_atomic :: "'d external \<Rightarrow> bool" where
  "drop_atomic E \<longleftrightarrow> (\<forall>t d ps e d'. DropPrefix (badger_db E) t d ps = (Some e, d') \<longrightarrow> d' = d)"

lemma drops_atomic: "drops E \<Longrightarrow> drop_atomic E"
  by (metis drops_def drop_atomic_def fst_conv option.distinct(1))

lemma half_dropped_atomic: "drop_atomic E \<Longrightarrow> half_dropped E i d d' \<Longrightarrow> d' = d"
  unfolding drop_atomic_def half_dropped_def by blast

lemma database_Delete_Err:
  "i \<noteq> ZeroId \<Longrightarrow> database_Delete (badger_db E) t i d = (r, d') \<Longrightarrow> r \<noteq> Ok () \<Longrightarrow> d' = d \<or> half_dropped E i d d'"
  by (auto simp: database_Delete_def buildDatabaseKey_def half_dropped_def split: option.splits prod.splits result.splits)

lemma database_Delete_drops:
  "Open (badger_db E) t d = None \<Longrightarrow> drops E \<Longrightarrow> fst (database_Delete (badger_db E) t i d) = Ok ()"
  by (cases "i = ZeroId")
    (simp_all add: database_Delete_def buildDatabaseKey_def drops_def case_prod_unfold)

lemma delete_law:
  assumes w: "world_ok E h w" and i: "i \<noteq> ZeroId"
  shows "wp (db_Delete E i) (\<lambda>r w'. r \<noteq> Panic \<and>
    (r = Ok () \<longrightarrow> world_ok E h w' \<and> devices_of E w' = (devices_of E w)(i := None)) \<and>
    (r \<noteq> Ok () \<longrightarrow> (disk w' = disk w \<longrightarrow> world_ok E h w') \<and> (disk w' = disk w \<or> half_dropped E i (disk w) (disk w'))) \<and>
    (opens E \<and> drops E \<longrightarrow> r = Ok ())) w"
proof (rule wpI)
  fix r w' assume run: "db_Delete E i w = (r, w')"
  then have db: "database_Delete (badger_db E) (moment w) i (disk w) = (r, disk w')"
    and w': "w' = w\<lparr>disk := disk w', moment := Suc (moment w)\<rparr>"
    by (simp_all add: db_Delete_def on_disk_eq)
  have fields: "properties w' = properties w" "peer_cache w' = peer_cache w" "message_cache w' = message_cache w"
    by (subst w', simp)+
  have B: "badger_ok (badger_db E)" using world_okD(7) [OF w] by (simp add: env_ok_def)
  have "r \<noteq> Panic" using db database_Delete_not_Panic by metis
  moreover have "world_ok E h w' \<and> devices_of E w' = (devices_of E w)(i := None)" if "r = Ok ()"
  proof -
    have "world_table E w' = table_delete i (world_table E w)" "keys_ok (badger_db E) (disk w')"
      using database_Delete_Ok [OF B db [unfolded that]] w
      by (simp_all add: world_table_def world_ok_def disk_ok_def)
    then show ?thesis
      using table_delete_device [OF world_okD(2) [OF w] i] w fields
      by (auto simp: devices_of_def disk_ok_def world_ok_def host_is_def)
  qed
  moreover have "world_ok E h w'" if "disk w' = disk w"
    using w fields that by (auto simp: world_table_def disk_ok_def world_ok_def host_is_def)
  moreover have "disk w' = disk w \<or> half_dropped E i (disk w) (disk w')" if "r \<noteq> Ok ()"
    using database_Delete_Err [OF i db that] .
  moreover have "r = Ok ()" if "opens E \<and> drops E"
    using database_Delete_drops [of E "moment w" "disk w" i] that db by (simp add: opens_def)
  ultimately show "r \<noteq> Panic \<and>
    (r = Ok () \<longrightarrow> world_ok E h w' \<and> devices_of E w' = (devices_of E w)(i := None)) \<and>
    (r \<noteq> Ok () \<longrightarrow> (disk w' = disk w \<longrightarrow> world_ok E h w') \<and> (disk w' = disk w \<or> half_dropped E i (disk w) (disk w'))) \<and>
    (opens E \<and> drops E \<longrightarrow> r = Ok ())" by blast
qed

text \<open>
  The use case refuses when the host owns the device, and deletes it otherwise.
\<close>

lemma check_owner_before:
  assumes w: "world_ok E h w"
  shows "wp (checkIfOwnerUseCase E i) (\<lambda>r w'. world_ok E h w' \<and> devices_of E w' = devices_of E w \<and> disk w' = disk w \<and> r \<noteq> Panic \<and>
    (\<forall>b. r = Ok b \<longrightarrow> (\<exists>d. devices_of E w i = Some d \<and> b = (dev_owner d = h))) \<and>
    (opens E \<longrightarrow> (\<forall>d. devices_of E w i = Some d \<longrightarrow> r = Ok (dev_owner d = h)))) w"
proof -
  have "wp (checkIfOwnerUseCase E i) (\<lambda>r w'. world_ok E h w' \<and> devices_of E w' = devices_of E w \<and> r \<noteq> Panic \<and>
      (\<forall>b. r = Ok b \<longrightarrow> (\<exists>d. devices_of E w i = Some d \<and> b = (dev_owner d = h)))) w"
    unfolding checkIfOwnerUseCase_def by (rule repo.checkIfOwner_wpI [OF w w]) auto
  moreover have "wp (checkIfOwnerUseCase E i) (\<lambda>_ w'. disk w' = disk w) w"
    using wp_within [OF disk.checks_in(1)] by (rule wp_weaken) simp
  moreover have "wp (checkIfOwnerUseCase E i) (\<lambda>r _. opens E \<longrightarrow> (\<forall>d. devices_of E w i = Some d \<longrightarrow> r = Ok (dev_owner d = h))) w"
  proof (cases "opens E \<and> (\<exists>d. devices_of E w i = Some d)")
    case True
    then show ?thesis
      using steady.checkIfOwner_steady [of E h w i] w by (auto simp: checkIfOwnerUseCase_def steady_ok_def elim: wp_weaken)
  qed (auto intro: wpI)
  ultimately show ?thesis by (simp add: wp_iff)
qed

lemma deleteDevice_any:
  assumes w: "world_ok E h w"
  shows "wp (deleteDeviceUseCase E i) (\<lambda>r w'. r \<noteq> Panic \<and>
    (r = Ok True \<longrightarrow> world_ok E h w' \<and> devices_of E w' = (devices_of E w)(i := None) \<and>
      (\<exists>d. devices_of E w i = Some d \<and> dev_owner d \<noteq> h)) \<and>
    (r = Ok False \<longrightarrow> disk w' = disk w \<and> (\<exists>d. devices_of E w i = Some d \<and> dev_owner d = h)) \<and>
    (r \<noteq> Ok True \<longrightarrow> (disk w' = disk w \<longrightarrow> world_ok E h w') \<and> (disk w' = disk w \<or> half_dropped E i (disk w) (disk w'))) \<and>
    (opens E \<longrightarrow> (\<forall>d. devices_of E w i = Some d \<longrightarrow> (dev_owner d = h \<longrightarrow> r = Ok False) \<and>
      (dev_owner d \<noteq> h \<and> drops E \<longrightarrow> r = Ok True)))) w"
    (is "wp _ ?Q w")
proof -
  have "wp (if b then return False else bind (db_Delete E i) (\<lambda>_. return True)) ?Q v"
    if v: "world_ok E h v" "devices_of E v = devices_of E w" "disk v = disk w"
      and b: "\<exists>d. devices_of E w i = Some d \<and> b = (dev_owner d = h)"
    for b v
  proof (cases b)
    case True
    then show ?thesis using v b by (auto simp: wp_return)
  next
    case False
    then obtain d where d: "devices_of E w i = Some d" "dev_owner d \<noteq> h" using b by blast
    then have "i \<noteq> ZeroId" using repo.dev_id_law [OF w] by blast
    then have "wp (db_Delete E i) (\<lambda>r v'. ?Q (case r of Ok _ \<Rightarrow> Ok True | Err e \<Rightarrow> Err e | Panic \<Rightarrow> Panic) v') v"
    proof (intro wp_weaken [OF delete_law [OF v(1)]], goal_cases)
      case (2 r v')
      then show ?case using d v by (cases r) auto
    qed
    then show ?thesis using False by (auto simp: wp_bind after_def wp_return elim!: wp_weaken split: result.splits)
  qed
  note rest = this
  show ?thesis
    unfolding deleteDeviceUseCase_def NewDeleteDeviceUseCase_def wp_bind [of "checkIfOwnerUseCase E i"]
  proof (rule wp_weaken [OF check_owner_before [OF w, of i]], elim conjE, goal_cases)
    case (1 q v)
    show ?case
    proof (cases q)
      case (Ok b)
      show ?thesis unfolding Ok after_simps by (rule rest [OF 1(1-3) 1(5) [rule_format, OF Ok]])
    qed (use 1 in \<open>auto simp: after_def\<close>)
  qed
qed

lemma deleteDevice_wp:
  assumes w: "world_ok E h w" and "drop_atomic E"
  shows "wp (deleteDeviceUseCase E i) (\<lambda>r w'. world_ok E h w' \<and> r \<noteq> Panic \<and>
    (r = Ok True \<longrightarrow> devices_of E w' = (devices_of E w)(i := None) \<and>
      (\<exists>d. devices_of E w i = Some d \<and> dev_owner d \<noteq> h)) \<and>
    (r = Ok False \<longrightarrow> (\<exists>d. devices_of E w i = Some d \<and> dev_owner d = h)) \<and>
    (r \<noteq> Ok True \<longrightarrow> devices_of E w' = devices_of E w)) w"
  using half_dropped_atomic [OF assms(2)]
  by (intro wp_weaken [OF deleteDevice_any [OF w, of i]]) (auto dest: devices_of_disk)

section \<open>The invariant of the process\<close>

abbreviation (input) keeps_ok :: "'d external \<Rightarrow> Id \<Rightarrow> 'd world \<Rightarrow> 'd world \<Rightarrow> bool" where
  "keeps_ok E h \<equiv> \<lambda>w w'. world_ok E h w \<longrightarrow> world_ok E h w'"

lemma keeps_quiet: "quiet (world_ok E h) v m \<Longrightarrow> within (keeps_ok E h) m"
  by (auto simp: quiet_def within_def wp_iff)

lemma keeps_wp:
  "(\<And>w. world_ok E h w \<Longrightarrow> wp m (\<lambda>r w'. world_ok E h w' \<and> Q w r w') w) \<Longrightarrow> within (keeps_ok E h) m"
  by (auto simp: within_def wp_iff)

lemma keeps_updates:
  "within (keeps_ok E h) (createDeviceUseCase E t s)" "within (keeps_ok E h) (patchStateUseCase E i s)"
  unfolding createDeviceUseCase_def patchStateUseCase_def checkIfOwnerUseCase_def
  by (rule keeps_wp, rule net.createDevice_wp, assumption, rule quiet_devices [OF quiet_random],
      rule keeps_wp, rule net.patchState_wp, assumption, rule owner_any)

lemma keeps_delete: "drop_atomic E \<Longrightarrow> within (keeps_ok E h) (deleteDeviceUseCase E i)"
  by (rule keeps_wp, rule deleteDevice_wp)

lemma keeps_udp: "within (keeps_ok E h) (udp_Observe E)" "within (keeps_ok E h) (udp_Stop E)"
  "within (keeps_ok E h) context_cancel"
  by (rule withinI, simp add: udp_Observe_def udp_Stop_def on_udp_def context_cancel_def modify_def case_prod_unfold)+

lemma keeps_api: "within (keeps_ok E h) (api_Serve E)" "within (keeps_ok E h) (api_Stop E)"
  by (rule withinI, simp add: api_Serve_def api_Stop_def on_api_def case_prod_unfold)+

text \<open>The end of the process closes the socket and the server of the API, and does nothing else.\<close>

lemma stopServers_wp:
  "wp (stopServers E) (\<lambda>r w'. r = Ok () \<and> connection (udp w') = None \<and> serverState (api w') = ShutDown \<and>
     disk w' = disk w \<and> sent w' = sent w) w"
proof -
  have "fst (udpServer_Stop e s) \<noteq> Panic" "fst (server_Stop g a) \<noteq> Panic" "serverState (snd (server_Stop g a)) = ShutDown"
    for e s g a by (auto simp: udpServer_Stop_def server_Stop_def split: option.split)
  then show ?thesis
    by (auto simp: wp_iff stopServers_def bind_def ignore_app udp_Stop_def api_Stop_def on_udp_def on_api_def Stop_closes
        case_prod_unfold split: result.split prod.split)
qed

lemma keeps_greetings:
  "within (keeps_ok E h) (sendHailMessage E)" "within (keeps_ok E h) (sendFarewellMessage E)"
  unfolding sendHailMessage_def sendFarewellMessage_def
  by (intro conj.within_message_usecases keeps_quiet [OF quiet_random_peers] keeps_quiet [OF quiet_messages(2)]
      keeps_quiet [OF quiet_messages(4)] keeps_quiet [OF quiet_messages(5)] keeps_quiet [OF quiet_ids]
      keeps_quiet [OF quiet_device] keeps_quiet [OF quiet_send])+

lemma keeps_network:
  "within (keeps_ok E h) (joinNetwork E)" "within (keeps_ok E h) (leaveNetwork E)"
  "within (keeps_ok E h) (shutdownHandler E)"
  unfolding joinNetwork_def leaveNetwork_def shutdownHandler_def NewShutdownUseCase_def
  by (intro conj.within_rules keeps_greetings keeps_udp keeps_quiet [OF quiet_peer_methods(3)]
      keeps_quiet [OF quiet_cache_methods(4)])+

lemma keeps_handler:
  assumes "drop_atomic E" and "(path, handler) \<in> set (routes E)"
  shows "within (keeps_ok E h) (server_Handle path handler req)"
proof -
  have "within (keeps_ok E h) (composeInfoUseCase E)"
    unfolding composeInfoUseCase_def
    by (intro conj.within_data_usecases keeps_quiet [OF quiet_GetHostId]
        keeps_quiet [OF quiet_GetLocalAddress] keeps_quiet [OF quiet_GetBroadcastAddress])
  then have "within (keeps_ok E h) (handler args content)" for args content
    using assms(2) unfolding routes_def
    by (auto intro!: conj.within_handlers conj.within_request_usecases keeps_updates keeps_network
        keeps_delete [OF assms(1)] keeps_quiet [OF quiet_ids] keeps_quiet [OF quiet_device]
        keeps_quiet [OF quiet_GetAllPeers] keeps_quiet [OF quiet_peer_methods(1)])
  then show ?thesis unfolding server_Handle_def by (intro conj.within_rules)
qed

text \<open>The state a process is in, running or not.\<close>

fun process_world :: "'d process \<Rightarrow> 'd world" where
  "process_world (Running w) = w"
| "process_world (Crashed w) = w"
| "process_world (Ended w) = w"

lemma world_ok_step:
  assumes "drop_atomic E" and "process_step E p q" and "world_ok E h (process_world p)"
  shows "world_ok E h (process_world q)"
  using assms(2)
proof cases
  case (request path handler w req r w')
  then show ?thesis using withinD [OF keeps_handler [OF assms(1) request(4)] request(5)] assms(3) by simp
next
  case (packet w c sender data r w')
  then show ?thesis using wpD [OF receive_ok packet(4)] assms(3) by simp
next
  case (crash w c sender data w')
  then show ?thesis using wpD [OF receive_ok crash(4)] assms(3) by simp
next
  case (finish w r w')
  have "within (keeps_ok E h) (stopServers E)"
    unfolding stopServers_def by (intro conj.within_rules keeps_udp keeps_api)
  from withinD [OF this finish(4)] show ?thesis using finish assms(3) by simp
next
  case (serve w r w')
  then show ?thesis using withinD [OF keeps_api(1) serve(4)] assms(3) by simp
qed (use assms(3) in simp_all)

text \<open>What a process starts from: a disk the program has written, and a host that has an identity.\<close>

definition start_ok :: "'d external \<Rightarrow> Id \<Rightarrow> int \<Rightarrow> int \<Rightarrow> 'd \<Rightarrow> bool" where
  "start_ok E h a b d \<longleftrightarrow> env_ok E \<and> keys_ok (badger_db E) d \<and> table_ok (uuid E) (store (badger_db E) d) \<and>
     (\<forall>t. fst (preferences_GetHostId (uuid E) (machine_ID E t) (NewPreferences a b)) = Ok h)"

lemma world_ok_start: "start_ok E h a b d \<Longrightarrow> world_ok E h (NewWorld a b d)"
  by (simp add: start_ok_def world_ok_def disk_ok_def world_table_def host_is_def NewWorld_def
      peers_ok_New cache_ok_New)

end
