(* ===== verification/Liveness.thy ===== *)
theory Liveness
  imports Process
begin

text \<open>
  What succeeds, and not only what holds if nothing fails: on a store that accepts every write, and
  with identifiers that can be drawn, the use cases that change devices return without an error.
\<close>

section \<open>Nothing outside fails\<close>

definition able :: "'d external \<Rightarrow> bool" where
  "able E \<longleftrightarrow> accepts (badger_db E) \<and> (\<forall>t. NewRandom (uuid E) t \<in> range Ok)"

lemma able_opens: "able E \<Longrightarrow> opens E"
  by (simp add: able_def accepts_def opens_def)

lemma NewRandomId_Ok:
  assumes "able E"
  shows "NewRandomId (uuid E) t \<in> range Ok"
proof -
  obtain i where "NewRandom (uuid E) t = Ok i" using assms unfolding able_def by blast
  then show ?thesis by (simp add: NewRandomId_def)
qed

lemma db_Set_Ok: "accepts (badger_db E) \<Longrightarrow> wp (db_Set E i data) (\<lambda>r _. r = Ok ()) w"
  by (simp add: wp_iff db_Set_def on_disk_def case_prod_unfold database_Set_accepts)

lemma persisters_Ok:
  "accepts (badger_db E) \<Longrightarrow> wp (devicePersister E d) (\<lambda>r _. r = Ok ()) w"
  "accepts (badger_db E) \<Longrightarrow> wp (statePersister E i s v) (\<lambda>r _. r = Ok ()) w"
  by (simp_all add: devicePersister_def statePersister_def NewCreateDeviceDataAdapter_def
      NewPatchStateDataAdapter_def db_Set_Ok)

lemma host_Ok: "world_ok E h w \<Longrightarrow> wp (prefs_GetHostId E) (\<lambda>r _. r = Ok h) w"
  using world_okD(4) [of E h w]
  by (simp add: wp_iff prefs_GetHostId_def on_properties_def host_is_def case_prod_unfold)

lemma random_Ok: "able E \<Longrightarrow> wp (new_random_id E) (\<lambda>r _. r \<in> range Ok) w"
  using NewRandomId_Ok by (simp add: wp_iff new_random_id_def draw_def)

lemma messages_Ok:
  assumes "able E" and "world_ok E h w"
  shows "wp (patchMessageProvider E i s) (\<lambda>r _. r \<in> range Ok) w"
    and "wp (syncMessageProvider E d) (\<lambda>r _. r \<in> range Ok) w"
  unfolding patchMessageProvider_def syncMessageProvider_def NewPatchMessageProvider_def
    NewSyncMessageProvider_def wp_bind wp_return
  by (rule quiet_law_wpI [OF quiet_GetHostId assms(2) host_Ok [OF assms(2)]], simp,
      rule wp_weaken [OF random_Ok [OF assms(1)]], auto)+

text \<open>On a store that opens, reading a device gives what is stored, or an error for want of a type.\<close>

lemma device_read:
  assumes w: "steady_ok E h w" and i: "i \<noteq> ZeroId"
  shows "wp (deviceProvider E i) (\<lambda>r _. r = (case devices_of E w i of None \<Rightarrow> Err ErrDataFormat
    | Some d \<Rightarrow> if dev_type d = DeviceTypeUnknown then Err ErrDataFormat else Ok d)) w"
proof (rule wpI)
  fix r w' assume run: "deviceProvider E i w = (r, w')"
  note ok = steady_okD(2) [OF w]
  obtain m where "db_Get E i ZeroId w = (Ok m, snd (db_Get E i ZeroId w))"
    using database_Get_opens [of "badger_db E" "moment w" "disk w" i] w
    by (auto simp: db_Get_def on_disk_def steady_ok_def opens_def)
  then have "r = row_device (uuid E) i (world_table E w i)"
    using db.NewGetDeviceDataAdapter_spec(3) [OF world_okD(8,1) [OF ok] run [unfolded deviceProvider_def]]
    by auto
  then show "r = (case devices_of E w i of None \<Rightarrow> Err ErrDataFormat
    | Some d \<Rightarrow> if dev_type d = DeviceTypeUnknown then Err ErrDataFormat else Ok d)"
    using row_device_stored [OF world_okD(8,3) [OF ok] i] by (simp add: devices_of_def)
qed

lemma device_Ok:
  assumes w: "steady_ok E h w" and d: "devices_of E w i = Some d" and type: "dev_type d \<noteq> DeviceTypeUnknown"
  shows "wp (deviceProvider E i) (\<lambda>r _. r = Ok d) w"
proof -
  have "i \<noteq> ZeroId" using repo.dev_id_law [OF steady_okD(2) [OF w] d] by simp
  from device_read [OF w this] show ?thesis using d type by (auto elim: wp_weaken)
qed

section \<open>A sync event\<close>

lemma no_err_peer_methods:
  "no_err (peers_GetAllPeers E)" "no_err (peers_order E ps)" "no_err (cache_ContainsMessageForPeer E m p)"
  by (auto simp: no_err_def peers_GetAllPeers_def peerCache_GetAllPeers_def fillAllPeers_spec peers_order_def cache_ContainsMessageForPeer_def
      on_peers_def on_cache_def draw_def case_prod_unfold)

lemma no_err_random_peers: "no_err (getRandomPeersUseCase E m n)"
proof -
  have "no_err (safePeersLoop (cache_ContainsMessageForPeer E) m ps)" for ps
    by (induction ps) (auto intro!: no_err_rules no_err_peer_methods)
  then show ?thesis
    unfolding getRandomPeersUseCase_def NewRandomSafePeersForMessageUseCase_def
    by (intro no_err_rules no_err_peer_methods)
qed

lemma no_err_updateDevice:
  assumes "accepts (badger_db E)" and "NewSyncMessageReader m = Ok c"
  shows "no_err (updateDeviceUseCase E a m)"
proof -
  have "no_err (devicePersister E c)"
    using persisters_Ok(1) [OF assms(1)] by (auto simp: no_err_def wp_iff)
  then show ?thesis
    unfolding updateDeviceUseCase_def NewSaveDeviceUseCase_def assms(2) pure_Ok return_bind Let_def
    by (intro no_err_rules no_err_random_peers)
qed

lemma updateDevice_Ok:
  assumes w: "steady_ok E h w" and "accepts (badger_db E)" and "NewSyncMessageReader m = Ok c"
  shows "wp (updateDeviceUseCase E a m) (\<lambda>r w'. r = Ok () \<and> devices_of E w' = sync_devices h c (devices_of E w)) w"
proof -
  have "wp (updateDeviceUseCase E a m) (\<lambda>r w'. r \<noteq> Panic \<and>
      (devices_of E w' = sync_devices h c (devices_of E w) \<or> devices_of E w' = devices_of E w \<and> (\<exists>e. r = Err e))) w"
    unfolding wired_usecases by (rule wp_weaken [OF steady.saveDevice_refines [OF w assms(3)]]) auto
  from no_err_Ok [OF no_err_updateDevice [OF assms(2,3)] this] show ?thesis
    by (rule wp_weaken) auto
qed

section \<open>Setting a state\<close>

lemma update_Ok:
  assumes able: "able E" and w: "steady_ok E h w" and d: "devices_of E w i = Some d"
    and type: "dev_type d \<noteq> DeviceTypeUnknown"
  shows "wp (bind (deviceProvider E i) (\<lambda>device. bind (statePersister E i s (dev_version device + 1)) (\<lambda>_.
      bind (deviceProvider E i) (syncMessageProvider E)))) (\<lambda>r v. steady_ok E h v \<and> r \<in> range Ok) w"
proof (rule wp_seqI [where P = "\<lambda>r v. steady_ok E h v \<and> devices_of E v = devices_of E w \<and> r = Ok d"])
  show "wp (deviceProvider E i) (\<lambda>r v. steady_ok E h v \<and> devices_of E v = devices_of E w \<and> r = Ok d) w"
    by (rule quiet_law_wpI [OF steady.device_quiet w device_Ok [OF w d type]]) simp
  fix device v assume v: "steady_ok E h v \<and> devices_of E v = devices_of E w \<and> Ok device = Ok d"
  let ?d = "d\<lparr>dev_state := s, dev_version := dev_version d + 1\<rparr>"
  have saved: "wp (statePersister E i s (dev_version d + 1)) (\<lambda>r u. steady_ok E h u \<and> r = Ok () \<and>
      devices_of E u = (devices_of E w)(i \<mapsto> ?d)) v"
    using wp_both_hold [OF steady.saveState_law [of E h v i d s "dev_version d + 1"] persisters_Ok(2)] v d able
    by (auto simp: able_def elim: wp_weaken)
  have reread: "wp (bind (deviceProvider E i) (syncMessageProvider E)) (\<lambda>r v. steady_ok E h v \<and> r \<in> range Ok) u"
    if u: "steady_ok E h u" "devices_of E u = (devices_of E w)(i \<mapsto> ?d)" for u
  proof (rule wp_seqI [where P = "\<lambda>r v. steady_ok E h v \<and> r = Ok ?d"])
    show "wp (deviceProvider E i) (\<lambda>r v. steady_ok E h v \<and> r = Ok ?d) u"
      by (rule quiet_law_wpI [OF steady.device_quiet u(1) device_Ok [OF u(1)]]) (use u(2) type in simp_all)
    fix d' v assume "steady_ok E h v \<and> Ok d' = Ok ?d"
    then show "wp (syncMessageProvider E d') (\<lambda>r v. steady_ok E h v \<and> r \<in> range Ok) v"
      by (intro quiet_law_wpI [OF steady.sync_quiet _ messages_Ok(2) [OF able]]) (auto simp: steady_ok_def)
  qed auto
  show "wp (bind (statePersister E i s (dev_version device + 1)) (\<lambda>_.
      bind (deviceProvider E i) (syncMessageProvider E))) (\<lambda>r v. steady_ok E h v \<and> r \<in> range Ok) v"
    using v by (auto intro!: wp_seqI [OF saved] reread)
qed auto

lemma update_or_relay_Ok:
  assumes able: "able E" and w: "steady_ok E h w"
    and type: "\<forall>d. devices_of E w i = Some d \<longrightarrow> dev_type d \<noteq> DeviceTypeUnknown"
    and other: "quiet (steady_ok E h) (devices_of E) other"
      "\<And>v. steady_ok E h v \<Longrightarrow> wp other (\<lambda>r _. r \<in> range Ok) v"
  shows "wp (bind (if_err (NewCheckIfOwnerUseCase (prefs_GetHostId E) (deviceOwnerProvider E) i) (\<lambda>err. other) (\<lambda>isOwner.
        if isOwner then bind (deviceProvider E i) (\<lambda>device. bind (statePersister E i s (dev_version device + 1)) (\<lambda>_.
          bind (deviceProvider E i) (syncMessageProvider E))) else other))
        (\<lambda>m'. bind (getRandomPeersUseCase E j MinInt) (\<lambda>ps. foreach ps (\<lambda>p. ignore (sendMessageHandler E p m')))))
    (\<lambda>r _. r = Ok ()) w" (is "wp (bind ?first _) _ _")
proof -
  let ?done = "\<lambda>r v. steady_ok E h v \<and> r \<in> range Ok"
  have others: "wp other ?done v" if "steady_ok E h v" for v
    by (rule quiet_law_wpI [OF other(1) that other(2) [OF that]]) simp
  have changed: "wp (bind (deviceProvider E i) (\<lambda>device. bind (statePersister E i s (dev_version device + 1)) (\<lambda>_.
      bind (deviceProvider E i) (syncMessageProvider E)))) ?done v"
    if "steady_ok E h v" "devices_of E v = devices_of E w" "\<exists>d. devices_of E w i = Some d" for v
    using that type update_Ok [OF able, of h v i] by auto
  have "wp ?first ?done w"
    unfolding wp_if_err wp_If
  proof (rule quiet_law_wpI [OF steady.checkIfOwner_quiet w steady.checkIfOwner_law [OF w]], goal_cases)
    case (1 r v)
    then show ?case
      using others [of v] changed [of v] by (cases r) auto
  qed
  then show ?thesis
    by (rule wp_seqI) (auto intro: wp_weaken [OF propagate_wp [OF steady_okD(2)]])
qed

lemma patchState_Ok:
  assumes "able E" and w: "steady_ok E h w"
    and "\<forall>d. devices_of E w i = Some d \<longrightarrow> dev_type d \<noteq> DeviceTypeUnknown"
  shows "wp (patchStateUseCase E i s) (\<lambda>r w'. r = Ok () \<and> devices_of E w' = patch_devices h i s (devices_of E w)) w"
proof -
  have "wp (patchStateUseCase E i s) (\<lambda>r _. r = Ok ()) w"
    unfolding patchStateUseCase_def checkIfOwnerUseCase_def NewPatchStateUseCase_def if_swap
    by (rule update_or_relay_Ok [OF assms steady.patch_quiet]) (auto intro: messages_Ok(1) [OF assms(1)] steady_okD)
  then show ?thesis
    using steady.patchState_refines [OF w, of i s] unfolding wired_usecases by (auto simp: wp_iff)
qed

lemma updateState_Ok:
  assumes "able E" and w: "steady_ok E h w" and r: "NewPatchMessageReader m = Ok (i, s)"
    and "\<forall>d. devices_of E w i = Some d \<longrightarrow> dev_type d \<noteq> DeviceTypeUnknown"
  shows "wp (updateStateUseCase E a m) (\<lambda>r w'. r = Ok () \<and> devices_of E w' = patch_devices h i s (devices_of E w)) w"
proof -
  have "wp (updateStateUseCase E a m) (\<lambda>r _. r = Ok ()) w"
    unfolding updateStateUseCase_def checkIfOwnerUseCase_def NewSaveStateUseCase_def r pure_Ok return_bind prod.case
    by (rule update_or_relay_Ok [OF assms(1,2,4) quiet_return]) (simp add: wp_return)
  then show ?thesis
    using steady.saveState_refines [OF w r, of a] unfolding wired_usecases by (auto simp: wp_iff)
qed

section \<open>When the store cannot be opened\<close>

text \<open>The two checks of a sync event, while another handler has the store open.\<close>

lemma db_Get_locked:
  assumes "world_ok E h w" and "\<forall>d. Open (badger_db E) (moment w) d \<noteq> None"
  shows "wp (db_Get E i a) (\<lambda>r w'. r \<in> range Err \<and> world_ok E h w' \<and> disk w' = disk w \<and> moment w' = moment w + 1) w"
proof (rule wpI)
  fix r w' assume run: "db_Get E i a w = (r, w')"
  obtain e where "Open (badger_db E) (moment w) (disk w) = Some e" using assms(2) by blast
  then have "database_Get (badger_db E) (moment w) i a (disk w) = (Err e, disk w)"
    by (simp add: database_Get_def buildDatabaseKey_def)
  with run have "r = Err e \<and> moment w' = moment w + 1" by (auto simp: db_Get_def on_disk_def)
  then show "r \<in> range Err \<and> world_ok E h w' \<and> disk w' = disk w \<and> moment w' = moment w + 1"
    using quietD [OF quiet_Get assms(1) run] by simp
qed

lemma checkIfOwner_locked:
  assumes w: "world_ok E h w" and locked: "\<forall>d. Open (badger_db E) (moment w + 1) d \<noteq> None"
  shows "wp (checkIfOwnerUseCase E i)
    (\<lambda>r w'. r \<in> range Err \<and> world_ok E h w' \<and> disk w' = disk w \<and> moment w' = moment w + 2) w"
proof -
  have "wp (prefs_GetHostId E) (\<lambda>_ w'. moment w' = moment w + 1) w"
    by (simp add: wp_iff prefs_GetHostId_def on_properties_def case_prod_unfold)
  with quiet_wp [OF quiet_GetHostId w] host_Ok [OF w]
  have host: "wp (prefs_GetHostId E) (\<lambda>r w'. r = Ok h \<and> world_ok E h w' \<and> disk w' = disk w \<and> moment w' = moment w + 1) w"
    by (auto simp: wp_iff)
  have owner: "wp (deviceOwnerProvider E i)
      (\<lambda>r w'. r \<in> range Err \<and> world_ok E h w' \<and> disk w' = disk v \<and> moment w' = moment v + 1) v"
    if "world_ok E h v" "\<forall>d. Open (badger_db E) (moment v) d \<noteq> None" for v
    unfolding deviceOwnerProvider_def NewGetDeviceOwnerAttributeAdapter_def Let_def
    by (rule wp_seqI [OF db_Get_locked [OF that]]) auto
  show ?thesis
    unfolding checkIfOwnerUseCase_def NewCheckIfOwnerUseCase_def
  proof (rule wp_seqI [OF host])
    fix h' v assume v: "Ok h' = Ok h \<and> world_ok E h v \<and> disk v = disk w \<and> moment v = moment w + 1"
    then have "world_ok E h v" "\<forall>d. Open (badger_db E) (moment v) d \<noteq> None" using locked by simp_all
    from owner [OF this] show "wp (bind (deviceOwnerProvider E i) (\<lambda>owner. return (owner = h')))
        (\<lambda>r w'. r \<in> range Err \<and> world_ok E h w' \<and> disk w' = disk w \<and> moment w' = moment w + 2) v"
      by (rule wp_seqI) (use v in auto)
  qed auto
qed

lemma checkIfNewer_locked:
  assumes "world_ok E h w" and "\<forall>d. Open (badger_db E) (moment w) d \<noteq> None"
  shows "wp (checkIfNewerUseCase E i v)
    (\<lambda>r w'. r \<in> range Err \<and> world_ok E h w' \<and> disk w' = disk w \<and> moment w' = moment w + 1) w"
  unfolding checkIfNewerUseCase_def NewCheckIfNewerUseCase_def stateVersionProvider_def
    NewGetStateVersionAttributeAdapter_def Let_def wp_bind
  by (rule wp_weaken [OF db_Get_locked [OF assms]]) auto

lemma updateDevice_locked:
  assumes w: "world_ok E h w" and reader: "NewSyncMessageReader m = Ok c"
    and locked: "\<forall>d. Open (badger_db E) (moment w + 1) d \<noteq> None" "\<forall>d. Open (badger_db E) (moment w + 2) d \<noteq> None"
    and free: "\<forall>v. moment v = moment w + 3 \<longrightarrow> fst (devicePersister E c v) = Ok ()"
  shows "wp (updateDeviceUseCase E a m) (\<lambda>r w'. r = Ok () \<and> devices_of E w' = save_devices c (devices_of E w)) w"
proof -
  let ?D = "devices_of E w"
  have same: "devices_of E v = ?D" if "disk v = disk w" for v using that by (rule devices_of_disk)
  have saved: "wp (devicePersister E c) (\<lambda>r v. r = Ok () \<and> world_ok E h v \<and> devices_of E v = save_devices c ?D) v"
    if "world_ok E h v" "disk v = disk w" "moment v = moment w + 3" for v
  proof (rule wp_weaken [OF wp_both_hold [OF devicePersister_law [OF that(1)]]])
    show "wp (devicePersister E c) (\<lambda>r _. r = Ok ()) v" using free that(3) by (simp add: wp_iff)
  qed (use same [OF that(2)] in simp)
  have send: "wp (bind (getRandomPeersUseCase E (msg_id m) MinInt) (\<lambda>ps. foreach ps (\<lambda>p. ignore (sendMessageHandler E p m))))
      (\<lambda>r w'. r = Ok () \<and> devices_of E w' = save_devices c ?D) v"
    if v: "world_ok E h v" "devices_of E v = save_devices c ?D" for v
    by (rule wp_weaken [OF wp_both_hold [OF propagate_wp [OF v(1)] quiet_wp [OF net.propagate_quiet v(1)]]])
      (use v(2) in simp)
  show ?thesis
    unfolding updateDeviceUseCase_def NewSaveDeviceUseCase_def reader pure_Ok return_bind Let_def
  proof (rule wp_seqI [where P = "\<lambda>r v. r = Ok False \<and> world_ok E h v \<and> disk v = disk w \<and> moment v = moment w + 2"])
    show "wp (if_err (checkIfOwnerUseCase E (dev_id c)) (\<lambda>err. return False) return)
        (\<lambda>r v. r = Ok False \<and> world_ok E h v \<and> disk v = disk w \<and> moment v = moment w + 2) w"
      unfolding wp_if_err by (rule wp_weaken [OF checkIfOwner_locked [OF w locked(1)]]) (auto simp: wp_return)
    fix isOwner v assume v: "Ok isOwner = Ok False \<and> world_ok E h v \<and> disk v = disk w \<and> moment v = moment w + 2"
    have newer: "wp (if_err (checkIfNewerUseCase E (dev_id c) (dev_version c)) (\<lambda>err. return True) return)
        (\<lambda>r u. r = Ok True \<and> world_ok E h u \<and> disk u = disk w \<and> moment u = moment w + 3) v"
      unfolding wp_if_err by (rule wp_weaken [OF checkIfNewer_locked]) (use v locked(2) in \<open>auto simp: wp_return\<close>)
    have store: "wp (bind (devicePersister E c) (\<lambda>_. return (Some m)))
        (\<lambda>r u. r = Ok (Some m) \<and> world_ok E h u \<and> devices_of E u = save_devices c ?D) u"
      if "world_ok E h u \<and> disk u = disk w \<and> moment u = moment w + 3" for u
      unfolding wp_bind by (rule wp_weaken [OF saved]) (use that in \<open>auto simp: wp_return\<close>)
    show "wp (if isOwner then return () else bind (bind (if_err (checkIfNewerUseCase E (dev_id c) (dev_version c))
        (\<lambda>err. return True) return) (\<lambda>isNewer. if \<not> isNewer then if_err (deviceProvider E (dev_id c)) (\<lambda>err. return None)
          (\<lambda>device. if_err (syncMessageProvider E device) (\<lambda>err. return None) (\<lambda>msg. return (Some msg)))
          else bind (devicePersister E c) (\<lambda>_. return (Some m))))
        (\<lambda>propagate. case propagate of None \<Rightarrow> return () | Some messageToPropagate \<Rightarrow>
          bind (getRandomPeersUseCase E (msg_id messageToPropagate) MinInt)
            (\<lambda>peers. foreach peers (\<lambda>peer. ignore (sendMessageHandler E peer messageToPropagate)))))
        (\<lambda>r w'. r = Ok () \<and> devices_of E w' = save_devices c ?D) v"
    proof -
      have own: "isOwner = False" using v by simp
      have decide: "wp (bind (if_err (checkIfNewerUseCase E (dev_id c) (dev_version c)) (\<lambda>err. return True) return)
          (\<lambda>isNewer. if \<not> isNewer then if_err (deviceProvider E (dev_id c)) (\<lambda>err. return None)
            (\<lambda>device. if_err (syncMessageProvider E device) (\<lambda>err. return None) (\<lambda>msg. return (Some msg)))
            else bind (devicePersister E c) (\<lambda>_. return (Some m))))
          (\<lambda>r u. r = Ok (Some m) \<and> world_ok E h u \<and> devices_of E u = save_devices c ?D) v"
        by (rule wp_seqI [OF newer]) (simp_all add: store)
      show ?thesis
        unfolding own if_False by (rule wp_seqI [OF decide]) (simp_all add: send)
    qed
  qed auto
qed

end
