(* ===== verification/Hail.thy ===== *)
theory Hail
  imports Liveness
begin

text \<open>
  What a host tells of its devices, to a peer that hails it and to the peers it hails itself: a sync
  event for each device it can read, of all of them when nothing outside fails.
\<close>

section \<open>The event for a device\<close>

text \<open>The message \<open>m\<close> is a sync event of the device \<open>d\<close>.\<close>

definition syncs :: "Message \<Rightarrow> Device \<Rightarrow> bool" where
  "syncs m d \<longleftrightarrow> msg_type m = MessageTypeEventSync \<and> NewSyncMessageReader m = Ok d"

lemma sync_message_type: "wp (syncMessageProvider E d) (\<lambda>r _. \<forall>m. r = Ok m \<longrightarrow> syncs m d) w"
  by (auto simp: wp_iff syncMessageProvider_def NewSyncMessageProvider_def act_simps sync.decode_sent syncs_def
      split: prod.splits result.splits)

text \<open>The event for the device with an identifier, or nothing when it cannot be read or made.\<close>

definition event_for :: "'d external \<Rightarrow> Id \<Rightarrow> ('d world, Message option) act" where
  "event_for E i =
     if_err (deviceProvider E i) (\<lambda>err. return None) (\<lambda>device.
     if_err (syncMessageProvider E device) (\<lambda>err. return None) (\<lambda>m. return (Some m)))"

abbreviation (input) readable :: "'d external \<Rightarrow> 'd world \<Rightarrow> Id \<Rightarrow> Device \<Rightarrow> bool" where
  "readable E w i d \<equiv> devices_of E w i = Some d \<and> dev_type d \<noteq> DeviceTypeUnknown"

text \<open>A run that only reads: devices stay, and so does all that sending depends on.\<close>

abbreviation (input) aside :: "'d external \<Rightarrow> Id \<Rightarrow> 'd world \<Rightarrow> 'd world \<Rightarrow> bool" where
  "aside E h w v \<equiv> steady_ok E h v \<and> devices_of E v = devices_of E w \<and> post_office v = post_office w"

lemma sync_message_wp:
  assumes "steady_ok E h w"
  shows "wp (syncMessageProvider E d) (\<lambda>r v. aside E h w v \<and> r \<noteq> Panic \<and> (\<forall>m. r = Ok m \<longrightarrow> syncs m d) \<and>
    (able E \<longrightarrow> r \<in> range Ok)) w"
proof (rule quiet_law_wpI [OF silent.sync_quiet [where S = "post_office w"] _ wp_both_hold [OF sync_message_type]])
  show "wp (syncMessageProvider E d) (\<lambda>r _. able E \<longrightarrow> r \<in> range Ok) w"
    using messages_Ok(2) [OF _ steady_okD(2) [OF assms], of d] by (cases "able E") (simp_all, simp add: wp_iff)
qed (use assms in auto)

lemma device_wp:
  assumes "steady_ok E h w" and "i \<noteq> ZeroId"
  shows "wp (deviceProvider E i) (\<lambda>r v. aside E h w v \<and>
    r = (case devices_of E w i of None \<Rightarrow> Err ErrDataFormat
         | Some d \<Rightarrow> if dev_type d = DeviceTypeUnknown then Err ErrDataFormat else Ok d)) w"
  by (rule quiet_law_wpI [OF silent.device_quiet [where S = "post_office w"] _ device_read [OF assms]])
    (use assms in auto)

lemma event_for_wp:
  assumes w: "steady_ok E h w" and i: "i \<noteq> ZeroId"
  shows "wp (event_for E i) (\<lambda>r v. aside E h w v \<and> (\<exists>x. r = Ok x \<and>
    (\<forall>m. x = Some m \<longrightarrow> (\<exists>d. devices_of E w i = Some d \<and> syncs m d)) \<and>
    (able E \<and> (\<exists>d. readable E w i d) \<longrightarrow> x \<noteq> None))) w"
  unfolding event_for_def wp_if_err [of "deviceProvider E i"]
proof (rule wp_weaken [OF device_wp [OF w i]], goal_cases)
  case (1 r v)
  show ?case
  proof (cases "\<exists>d. readable E w i d")
    case True
    then obtain d where d: "devices_of E w i = Some d" "r = Ok d" using 1 by auto
    have "steady_ok E h v" using 1 by simp
    from sync_message_wp [OF this, of d] 1 d show ?thesis
      by (auto simp: wp_if_err wp_return elim!: wp_weaken split: result.split)
  next
    case False
    then have "r = Err ErrDataFormat" using 1 by (auto split: option.split)
    then show ?thesis using 1 False by (auto simp: wp_return)
  qed
qed

section \<open>The events for a list of devices\<close>

text \<open>
  The events \<open>ms\<close> for the identifiers \<open>ids\<close> tell of the devices \<open>ds\<close>: at most one for each, with the
  device as it is stored; none is left out that can be read, when \<open>all\<close> of them were made.
\<close>

definition tells :: "'d external \<Rightarrow> 'd world \<Rightarrow> bool \<Rightarrow> Id list \<Rightarrow> Message list \<Rightarrow> Device list \<Rightarrow> bool" where
  "tells E w all ids ms ds \<longleftrightarrow> list_all2 syncs ms ds \<and>
     (\<exists>js. subseq js ids \<and> map Some ds = map (devices_of E w) js) \<and>
     (all \<longrightarrow> (\<forall>i \<in> set ids. \<forall>d. readable E w i d \<longrightarrow> d \<in> set ds))"

lemma tells_Nil [simp]: "tells E w all [] [] []"
  by (simp add: tells_def)

lemma tells_skip:
  "tells E w all ids ms ds \<Longrightarrow> \<not> (all \<and> (\<exists>d. readable E w i d)) \<Longrightarrow> tells E w all (i # ids) ms ds"
  unfolding tells_def by (auto intro: list_emb_Cons)

lemma tells_one:
  assumes "tells E w all ids ms ds" and "devices_of E w i = Some d" and "syncs m d"
  shows "tells E w all (i # ids) (m # ms) (d # ds)"
proof -
  obtain js where "subseq js ids" "map Some ds = map (devices_of E w) js" using assms(1) by (auto simp: tells_def)
  then have "subseq (i # js) (i # ids) \<and> map Some (d # ds) = map (devices_of E w) (i # js)" using assms(2) by simp
  moreover have "list_all2 syncs (m # ms) (d # ds)" using assms by (simp add: tells_def)
  moreover have "all \<longrightarrow> (\<forall>k \<in> set (i # ids). \<forall>x. readable E w k x \<longrightarrow> x \<in> set (d # ds))"
    using assms by (auto simp: tells_def)
  ultimately show ?thesis unfolding tells_def by blast
qed

lemma tells_cong: "devices_of E v = devices_of E w \<Longrightarrow> tells E v all ids ms ds = tells E w all ids ms ds"
  by (simp add: tells_def)

text \<open>Without a repeated identifier no device is told twice.\<close>

lemma tells_devices:
  assumes w: "steady_ok E h w" and "tells E w all ids ms ds" and "distinct ids"
  shows "distinct ds" "\<forall>d \<in> set ds. devices_of E w (dev_id d) = Some d"
proof -
  obtain js where js: "subseq js ids" "map Some ds = map (devices_of E w) js"
    using assms(2) by (auto simp: tells_def)
  have key: "devices_of E w i = Some d \<Longrightarrow> dev_id d = i" for i d
    using repo.dev_id_law [OF steady_okD(2) [OF w]] by blast
  have ids: "map dev_id ds = js" and stored: "\<forall>d \<in> set ds. devices_of E w (dev_id d) = Some d"
    using js(2) key by (auto simp: list_eq_iff_nth_eq in_set_conv_nth)
  have "distinct js" using js(1) assms(3) by (metis in_set_subseqs subseqs_distinctD)
  then show "distinct ds" using ids distinct_map by metis
  show "\<forall>d \<in> set ds. devices_of E w (dev_id d) = Some d" by (rule stored)
qed

text \<open>The messages a host collects before it joins.\<close>

lemma collect_Cons:
  "collectSyncMessages (deviceProvider E) (syncMessageProvider E) (i # ids) =
     bind (event_for E i) (\<lambda>x. bind (collectSyncMessages (deviceProvider E) (syncMessageProvider E) ids)
       (\<lambda>ms. return (case x of None \<Rightarrow> ms | Some m \<Rightarrow> m # ms)))"
  by (intro ext) (auto simp: event_for_def act_simps split: prod.splits result.splits)

lemma collect_wp:
  assumes "steady_ok E h w" and "ZeroId \<notin> set ids"
  shows "wp (collectSyncMessages (deviceProvider E) (syncMessageProvider E) ids) (\<lambda>r v. aside E h w v \<and>
    (\<exists>ms ds. r = Ok ms \<and> tells E w (able E) ids ms ds)) w"
  using assms
proof (induction ids arbitrary: w)
  case (Cons i ids)
  have i: "i \<noteq> ZeroId" using Cons.prems by auto
  show ?case
    unfolding collect_Cons
  proof (rule wp_seqI [OF event_for_wp [OF Cons.prems(1) i]], goal_cases)
    case (1 x v)
    then have v: "aside E h w v" and here: "\<And>m. x = Some m \<Longrightarrow> \<exists>d. devices_of E w i = Some d \<and> syncs m d"
      and left_out: "x = None \<Longrightarrow> \<not> (able E \<and> (\<exists>d. readable E w i d))" by auto
    have rest: "\<exists>ms' ds. (case x of None \<Rightarrow> ms | Some m \<Rightarrow> m # ms) = ms' \<and> tells E w (able E) (i # ids) ms' ds"
      if "tells E w (able E) ids ms ds" for ms ds
      using here left_out tells_skip [OF that, of i] tells_one [OF that, of i] by (cases x) fastforce+
    have "steady_ok E h v" "ZeroId \<notin> set ids" using v Cons.prems by auto
    from Cons.IH [OF this] show ?case
      by (rule wp_seqI) (use v rest in \<open>auto simp: wp_return tells_cong [OF conjunct1 [OF conjunct2 [OF v]]]\<close>)
  qed auto
next
  case Nil
  then show ?case by (simp add: wp_return) (use tells_Nil in blast)
qed

section \<open>Announcing devices to a peer\<close>

text \<open>The datagrams \<open>xs\<close> are sync events, one for each of the devices \<open>ds\<close>, to the address \<open>a\<close>.\<close>

definition announces :: "string \<Rightarrow> Device list \<Rightarrow> (string \<times> bytes) list \<Rightarrow> bool" where
  "announces a ds xs \<longleftrightarrow> (\<exists>ms. list_all2 syncs ms ds \<and> xs = map (\<lambda>m. (a, datagram m)) ms)"

definition announce :: "'d external \<Rightarrow> Peer \<Rightarrow> Id \<Rightarrow> ('d world, unit) act" where
  "announce E p i =
     if_err (deviceProvider E i) (\<lambda>err. return ()) (\<lambda>device.
     if_err (syncMessageProvider E device) (\<lambda>err. return ()) (\<lambda>m. ignore (sendMessageHandler E p m)))"

lemma announce_eq:
  "announce E p i = bind (event_for E i) (\<lambda>x. case x of None \<Rightarrow> return () | Some m \<Rightarrow> ignore (sendMessageHandler E p m))"
  by (intro ext) (auto simp: announce_def event_for_def act_simps split: prod.splits result.splits)

abbreviation (input) all_well :: "'d external \<Rightarrow> 'd world \<Rightarrow> bool" where
  "all_well E w \<equiv> able E \<and> reaches E \<and> connection (udp w) \<noteq> None"

text \<open>The state while messages are sent: devices and socket stay.\<close>

abbreviation (input) along :: "'d external \<Rightarrow> Id \<Rightarrow> 'd world \<Rightarrow> 'd world \<Rightarrow> bool" where
  "along E h w v \<equiv> steady_ok E h v \<and> devices_of E v = devices_of E w \<and> udp v = udp w"

lemma send_along:
  assumes "steady_ok E h w"
  shows "wp (ignore (sendMessageHandler E p m)) (\<lambda>r w'. r = Ok () \<and> along E h w w' \<and>
    (sent w' = sent w @ [(peer_address p, datagram m)] \<or>
     sent w' = sent w \<and> \<not> (reaches E \<and> connection (udp w) \<noteq> None))) w"
proof -
  have "wp (sendMessageHandler E p m) (\<lambda>r w'. steady_ok E h w' \<and> devices_of E w' = devices_of E w \<and> r \<noteq> Panic) w"
    by (rule quiet_wp [OF steady.send_quiet assms])
  from wp_both_hold [OF send_message_wp this] show ?thesis
    unfolding wp_ignore by (rule wp_weaken) (auto split: result.split if_splits)
qed

lemma announce_one:
  assumes w: "steady_ok E h w" and i: "i \<noteq> ZeroId"
  shows "wp (announce E p i) (\<lambda>r v. r = Ok () \<and> along E h w v \<and>
      (\<exists>m d. sent v = sent w @ [(peer_address p, datagram m)] \<and> devices_of E w i = Some d \<and> syncs m d \<or>
        sent v = sent w \<and> \<not> (all_well E w \<and> (\<exists>d. readable E w i d)))) w"
  unfolding announce_eq
proof (rule wp_seqI [OF event_for_wp [OF w i]], goal_cases)
  case (1 x u)
  then have u: "aside E h w u" by blast
  show ?case
  proof (cases x)
    case None
    then show ?thesis using 1 by (auto simp: wp_return post_office_def)
  next
    case (Some m)
    then obtain d where "devices_of E w i = Some d" "syncs m d" using 1 by blast
    with Some u show ?thesis
      using send_along [of E h u p m] by (auto simp: post_office_def elim!: wp_weaken)
  qed
qed auto

lemma announce_all:
  assumes "steady_ok E h w" and "ZeroId \<notin> set ids"
  shows "wp (foreach ids (announce E p)) (\<lambda>r w'. r = Ok () \<and> along E h w w' \<and>
    (\<exists>ms ds. sent w' = sent w @ map (\<lambda>m. (peer_address p, datagram m)) ms \<and>
      tells E w (all_well E w) ids ms ds)) w"
  using assms
proof (induction ids arbitrary: w)
  case (Cons i ids)
  have i: "i \<noteq> ZeroId" using Cons.prems by auto
  from announce_one [OF Cons.prems(1) i] show ?case
    unfolding foreach.simps
  proof (rule wp_seqI, goal_cases)
    case (1 x v)
    then have v: "along E h w v" "steady_ok E h v" "ZeroId \<notin> set ids" using Cons.prems by auto
    show ?case
    proof (rule wp_weaken [OF Cons.IH [OF v(2,3)]], elim conjE exE, goal_cases)
      case (1 r w' ms ds)
      then have tail: "tells E w (all_well E w) ids ms ds" using v(1) tells_cong [of E v w] by simp
      from \<open>Ok x = Ok () \<and> _\<close> obtain m d
        where "sent v = sent w @ [(peer_address p, datagram m)] \<and> devices_of E w i = Some d \<and> syncs m d \<or>
          sent v = sent w \<and> \<not> (all_well E w \<and> (\<exists>d. readable E w i d))" by blast
      then have "\<exists>ms ds. sent w' = sent w @ map (\<lambda>m. (peer_address p, datagram m)) ms \<and>
          tells E w (all_well E w) (i # ids) ms ds"
      proof
        assume *: "sent v = sent w @ [(peer_address p, datagram m)] \<and> devices_of E w i = Some d \<and> syncs m d"
        then have "tells E w (all_well E w) (i # ids) (m # ms) (d # ds)" using tells_one [OF tail] by blast
        with 1 * show ?thesis by (intro exI [of _ "m # ms"] exI [of _ "d # ds"]) simp
      next
        assume *: "sent v = sent w \<and> \<not> (all_well E w \<and> (\<exists>d. readable E w i d))"
        then have "tells E w (all_well E w) (i # ids) ms ds" using tells_skip [OF tail] by blast
        with 1 * show ?thesis by auto
      qed
      with 1 v(1) show ?case by simp
    qed
  qed auto
next
  case Nil
  then show ?case by (simp add: wp_return) (use tells_Nil in blast)
qed

section \<open>The answer to a hail\<close>

lemma device_ids_wp:
  assumes "steady_ok E h w"
  shows "wp (deviceIdsProvider E) (\<lambda>r w'. steady_ok E h w' \<and> devices_of E w' = devices_of E w \<and>
    post_office w' = post_office w \<and> (\<exists>ids. r = Ok ids \<and> distinct ids \<and> ZeroId \<notin> set ids \<and>
      (\<forall>i. i \<notin> set (attribute_ids (uuid E)) \<longrightarrow> i \<in> set ids \<longleftrightarrow> devices_of E w i \<noteq> None))) w"
proof (rule wpI)
  fix r w' assume run: "deviceIdsProvider E w = (r, w')"
  note ok = steady_okD(2) [OF assms]
  obtain m u where m: "db_Get E ZeroId ZeroId w = (Ok m, u)"
    using database_Get_opens [of "badger_db E" "moment w" "disk w" ZeroId] assms
    by (auto simp: db_Get_def on_disk_def steady_ok_def opens_def)
  then have "r \<in> range Ok"
    using run by (auto simp: deviceIdsProvider_def NewGetDeviceIdsDataAdapter_def map_order_def draw_def act_simps)
  then obtain ids where ids: "r = Ok ids" "distinct ids" "set ids = dom (world_table E w ZeroId)"
    using wpD [OF db.NewGetDeviceIdsDataAdapter_wp [OF world_okD(1) [OF ok]] run [unfolded deviceIdsProvider_def]] by blast
  have "i \<in> set ids \<longleftrightarrow> devices_of E w i \<noteq> None" if "i \<notin> set (attribute_ids (uuid E))" for i
  proof (cases "i = ZeroId")
    case True
    then show ?thesis
      using ids(3) index_not_zero [OF world_okD(2) [OF ok]] by (auto simp: devices_of_def)
  next
    case False
    from index_lists_devices [OF world_okD(8,2) [OF ok] this that] show ?thesis
      using ids(3) by (auto simp: devices_of_def)
  qed
  moreover have "steady_ok E h w' \<and> devices_of E w' = devices_of E w"
    using quietD [OF quiet_steady [OF quiet_devices [OF quiet_ids]] assms run] by blast
  moreover have "post_office w' = post_office w" using withinD [OF office.providers_in(4) run] .
  moreover have "ZeroId \<notin> set ids" using ids(3) index_not_zero [OF world_okD(2) [OF ok]] by blast
  ultimately show "steady_ok E h w' \<and> devices_of E w' = devices_of E w \<and> post_office w' = post_office w \<and>
    (\<exists>ids. r = Ok ids \<and> distinct ids \<and> ZeroId \<notin> set ids \<and>
      (\<forall>i. i \<notin> set (attribute_ids (uuid E)) \<longrightarrow> i \<in> set ids \<longleftrightarrow> devices_of E w i \<noteq> None))"
    using ids by blast
qed

lemma salute_sends:
  assumes w: "steady_ok E h w"
  shows "wp (saluteOnHailUseCase E a m) (\<lambda>r w'. \<exists>xs ds. sent w' = sent w @ xs \<and> announces a ds xs \<and>
    distinct ds \<and> (\<forall>d \<in> set ds. devices_of E w (dev_id d) = Some d) \<and>
    (all_well E w \<longrightarrow> (\<forall>i d. readable E w i d \<and> i \<notin> set (attribute_ids (uuid E)) \<longrightarrow> d \<in> set ds))) w"
    (is "wp _ ?Q w")
proof -
  let ?p = "NewPeer (msg_sender m) a"
  obtain v where v: "peers_AddPeer ?p w = (Ok (), v)" and same: "disk v = disk w" "sent v = sent w" "udp v = udp w"
    by (simp add: peers_AddPeer_def on_peers_def)
  have st: "steady_ok E h v" and dv: "devices_of E v = devices_of E w"
    using quietD [OF quiet_steady [OF quiet_disk_devices [OF quiet_peer_methods(1)]] w v] by auto
  have "wp (bind (if_err (deviceIdsProvider E) (\<lambda>err. return []) return) (\<lambda>ids. foreach ids (announce E ?p))) ?Q v"
    unfolding wp_bind wp_if_err wp_return
  proof (rule wp_weaken [OF device_ids_wp [OF st]], goal_cases)
    case (1 r u)
    then obtain ids where u: "steady_ok E h u" "devices_of E u = devices_of E w" "sent u = sent w" "udp u = udp w"
      and r: "r = Ok ids" and ids: "distinct ids" "ZeroId \<notin> set ids"
        "\<forall>i. i \<notin> set (attribute_ids (uuid E)) \<longrightarrow> (i \<in> set ids) = (devices_of E w i \<noteq> None)"
      using dv same by (auto simp: post_office_def)
    have "wp (foreach ids (announce E ?p)) ?Q u"
    proof (rule wp_weaken [OF announce_all [OF u(1) ids(2)]], elim conjE exE)
      fix q and w' :: "'a world" and ms ds
      assume *: "sent w' = sent u @ map (\<lambda>m. (peer_address ?p, datagram m)) ms"
        and told: "tells E u (all_well E u) ids ms ds"
      have "announces a ds (map (\<lambda>m. (a, datagram m)) ms)" using told by (auto simp: announces_def tells_def)
      moreover have "\<forall>i d. readable E w i d \<and> i \<notin> set (attribute_ids (uuid E)) \<longrightarrow> d \<in> set ds" if "all_well E w"
        using told ids(3) u(2,4) that unfolding tells_def by auto
      ultimately show "?Q q w'"
        using * u(2,3) tells_devices [OF u(1) told ids(1)] by auto
    qed
    then show ?case by (simp add: r)
  qed
  then show ?thesis
    unfolding saluteOnHailUseCase_def NewSaluteOnHailUseCase_def Let_def announce_def [symmetric]
    by (simp add: wp_iff bind_def [of "peers_AddPeer ?p"] v)
qed

end
