(* ===== verification/Network.thy ===== *)
theory Network
  imports Hail
begin

text \<open>
  Joining and leaving the network: the messages a host sends when it opens its socket, a hail with a
  sync event for each of its devices to a few peers, and before it closes it, a farewell to all of them.
\<close>

section \<open>The messages of joining and leaving\<close>

text \<open>A provider of a message without data: the message is of the host and has a random identifier.\<close>

lemma greeting_wp:
  assumes w: "world_ok E h w"
  shows "wp (hailMessageProvider E) (\<lambda>r v. world_ok E h v \<and> disk v = disk w \<and> post_office v = post_office w \<and>
      r \<noteq> Panic \<and> (\<forall>m. r = Ok m \<longrightarrow> (\<exists>i. m = NewMessage i h MessageTypeCommandHail [])) \<and> (able E \<longrightarrow> r \<in> range Ok)) w"
    and "wp (farewellMessageProvider E) (\<lambda>r v. world_ok E h v \<and> disk v = disk w \<and> post_office v = post_office w \<and>
      r \<noteq> Panic \<and> (\<forall>m. r = Ok m \<longrightarrow> (\<exists>i. m = NewMessage i h MessageTypeEventFarewell [])) \<and> (able E \<longrightarrow> r \<in> range Ok)) w"
proof -
  have say: "wp (bind (prefs_GetHostId E) (\<lambda>hostId. bind (new_random_id E) (\<lambda>i. return (NewMessage i hostId t []))))
      (\<lambda>r _. (\<forall>m. r = Ok m \<longrightarrow> (\<exists>i. m = NewMessage i h t [])) \<and> (able E \<longrightarrow> r \<in> range Ok)) w" for t
  proof (rule wp_seqI [OF host_Ok [OF w]])
    fix x v assume x: "Ok x = Ok h"
    have "wp (new_random_id E) (\<lambda>r _. able E \<longrightarrow> r \<in> range Ok) v"
      using random_Ok [of E v] by (cases "able E") (simp_all, simp add: wp_iff)
    then show "wp (bind (new_random_id E) (\<lambda>i. return (NewMessage i x t [])))
        (\<lambda>r _. (\<forall>m. r = Ok m \<longrightarrow> (\<exists>i. m = NewMessage i h t [])) \<and> (able E \<longrightarrow> r \<in> range Ok)) v"
      unfolding wp_bind wp_return by (rule wp_weaken) (use x in \<open>auto simp: after_def split: result.split\<close>)
  qed auto
  note stays = quiet_messages(4,5) [of E h, THEN quiet_wp, OF w]
    office.messages_in(4,5) [of E, THEN wp_within, of w]
  show "wp (hailMessageProvider E) (\<lambda>r v. world_ok E h v \<and> disk v = disk w \<and> post_office v = post_office w \<and>
      r \<noteq> Panic \<and> (\<forall>m. r = Ok m \<longrightarrow> (\<exists>i. m = NewMessage i h MessageTypeCommandHail [])) \<and> (able E \<longrightarrow> r \<in> range Ok)) w"
    using wp_both_hold [OF stays(1) wp_both_hold [OF stays(3)
      say [of MessageTypeCommandHail, folded NewHailMessageProvider_def, folded hailMessageProvider_def]]]
    by (rule wp_weaken) auto
  show "wp (farewellMessageProvider E) (\<lambda>r v. world_ok E h v \<and> disk v = disk w \<and> post_office v = post_office w \<and>
      r \<noteq> Panic \<and> (\<forall>m. r = Ok m \<longrightarrow> (\<exists>i. m = NewMessage i h MessageTypeEventFarewell [])) \<and> (able E \<longrightarrow> r \<in> range Ok)) w"
    using wp_both_hold [OF stays(2) wp_both_hold [OF stays(4)
      say [of MessageTypeEventFarewell, folded NewFarewellMessageProvider_def, folded farewellMessageProvider_def]]]
    by (rule wp_weaken) auto
qed

section \<open>Leaving\<close>

text \<open>The farewell goes to all known peers, and to no one when it cannot be made.\<close>

lemma farewell_sends:
  assumes w: "world_ok E h w"
  shows "wp (sendFarewellMessage E) (\<lambda>r w'. r \<noteq> Panic \<and> udp w' = udp w \<and> disk w' = disk w \<and> peer_cache w' = peer_cache w \<and>
    (sent w' = sent w \<and> r \<notin> range Ok \<and> \<not> able E \<or>
     (\<exists>i. spreads E i MaxInt (NewMessage i h MessageTypeEventFarewell []) w w'))) w"
proof -
  have stays: "wp (sendFarewellMessage E) (\<lambda>_ w'. udp w' = udp w \<and> disk w' = disk w \<and> peer_cache w' = peer_cache w) w"
    using withinD [OF socket.greetings_in(2)] withinD [OF disk.greetings_in(2)] withinD [OF known.greetings_in(2)]
    by (intro wpI) (fastforce dest: withinD)
  have "wp (sendFarewellMessage E) (\<lambda>r w'. r \<noteq> Panic \<and> (sent w' = sent w \<and> r \<notin> range Ok \<and> \<not> able E \<or>
     (\<exists>i. spreads E i MaxInt (NewMessage i h MessageTypeEventFarewell []) w w'))) w"
    unfolding sendFarewellMessage_def NewSendFarewellEventUseCase_def
  proof (rule wp_seqI [OF greeting_wp(2) [OF w]], goal_cases)
    case (1 m v)
    then obtain i where v: "world_ok E h v" "post_office v = post_office w" and m: "m = NewMessage i h MessageTypeEventFarewell []"
      by blast
    show ?case
      by (rule wp_weaken [OF propagate_wp [OF v(1)]]) (use m in \<open>auto simp: spreads_cong [OF v(2)]\<close>)
  qed (auto simp: post_office_def)
  from wp_both_hold [OF this stays] show ?thesis by (rule wp_weaken) blast
qed

section \<open>Joining\<close>

text \<open>
  The peers \<open>ps\<close> that a host hails with a message of identifier \<open>i\<close>, and the sync events \<open>ms\<close> of the
  devices \<open>ds\<close> that go with it.
\<close>

definition invites :: "'d external \<Rightarrow> 'd world \<Rightarrow> Id \<Rightarrow> Peer list \<Rightarrow> Message list \<Rightarrow> Device list \<Rightarrow> bool" where
  "invites E w i ps ms ds \<longleftrightarrow>
     distinct (map peer_id ps) \<and> set ps \<subseteq> ran (known_peer (peer_cache w)) \<and> length ps \<le> 5 \<and>
     ((\<forall>p. deadline (message_cache w) i p = None) \<longrightarrow> length ps = min 5 (length (peers (peer_cache w)))) \<and>
     list_all2 syncs ms ds \<and> distinct ds \<and> (\<forall>d \<in> set ds. devices_of E w (dev_id d) = Some d) \<and>
     (able E \<longrightarrow> (\<forall>j d. readable E w j d \<and> j \<notin> set (attribute_ids (uuid E)) \<longrightarrow> d \<in> set ds))"

lemma invitesI:
  assumes w: "steady_ok E h w" and sel: "selection E i MinInt w ps v" and told: "tells E w (able E) ids ms ds"
    and ids: "distinct ids" "\<forall>j. j \<notin> set (attribute_ids (uuid E)) \<longrightarrow> j \<in> set ids \<longleftrightarrow> devices_of E w j \<noteq> None"
  shows "invites E w i ps ms ds"
proof -
  have "\<forall>j d. readable E w j d \<and> j \<notin> set (attribute_ids (uuid E)) \<longrightarrow> d \<in> set ds" if "able E"
    using told ids(2) that unfolding tells_def by blast
  moreover have "list_all2 syncs ms ds" using told by (simp add: tells_def)
  ultimately show ?thesis
    using sel tells_devices [OF w told ids(1)] by (auto simp: invites_def selection_def sint_MinInt)
qed

text \<open>The loop of the use case over peers and messages is one loop over their pairs.\<close>

lemma hail_loop:
  "foreach ps (\<lambda>p. bind (ignore (sendMessageHandler E p m)) (\<lambda>_. foreach ms (\<lambda>m. ignore (sendMessageHandler E p m)))) =
   foreach (List.product ps (m # ms)) (\<lambda>(p, m). ignore (sendMessageHandler E p m))"
  unfolding foreach_product [symmetric] by simp

lemma hail_sends:
  assumes w: "steady_ok E h w"
  shows "wp (sendHailMessage E) (\<lambda>r w'. r \<noteq> Panic \<and> (sent w' = sent w \<and> \<not> able E \<or>
    (\<exists>i ps ms ds qms. invites E w i ps ms ds \<and> subseq qms (List.product ps (NewMessage i h MessageTypeCommandHail [] # ms)) \<and>
       sent w' = sent w @ map mail qms \<and> (connection (udp w) = None \<longrightarrow> qms = []) \<and>
       (reaches E \<and> connection (udp w) \<noteq> None \<longrightarrow> qms = List.product ps (NewMessage i h MessageTypeCommandHail [] # ms))))) w"
    (is "wp _ ?Q w")
  unfolding sendHailMessage_def NewSendHailCommandUseCase_def hail_loop
proof (rule wp_seqI [OF greeting_wp(1) [OF steady_okD(2) [OF w]]], goal_cases)
  case (1 m v)
  then obtain i where v: "world_ok E h v" "disk v = disk w" "post_office v = post_office w"
    and m: "m = NewMessage i h MessageTypeCommandHail []" by blast
  have udp: "wp (getRandomPeersUseCase E i MinInt) (\<lambda>_ u. udp u = udp v) v"
    using withinD [OF socket.random_peers_in] by (fastforce intro: wpI)
  have i: "msg_id m = i" by (simp add: m)
  show ?case
    unfolding i
  proof (rule wp_seqI [OF wp_both_hold [OF random_peers_wp [OF v(1)] udp]], goal_cases)
    case (1 ps u)
    then have u: "world_ok E h u" "disk u = disk w" "sent u = sent w" "udp u = udp w"
      and sel: "selection E i MinInt w ps u"
      using v m by (auto simp: post_office_def selection_def)
    have st: "steady_ok E h u" using w u(1) by (simp add: steady_ok_def)
    have dev: "devices_of E u = devices_of E w" using u(2) by (rule devices_of_disk)
    show ?case
      unfolding wp_bind wp_if_err wp_return
    proof (rule wp_weaken [OF device_ids_wp [OF st]], goal_cases)
      case (1 r x)
      then obtain ids where x: "steady_ok E h x" "devices_of E x = devices_of E u" "post_office x = post_office u"
        and r: "r = Ok ids" and ids: "distinct ids" "ZeroId \<notin> set ids"
          "\<forall>j. j \<notin> set (attribute_ids (uuid E)) \<longrightarrow> (j \<in> set ids) = (devices_of E u j \<noteq> None)" by blast
      have "wp (bind (collectSyncMessages (deviceProvider E) (syncMessageProvider E) ids)
          (\<lambda>ms. foreach (List.product ps (m # ms)) (\<lambda>(p, m). ignore (sendMessageHandler E p m)))) ?Q x"
      proof (rule wp_seqI [OF collect_wp [OF x(1) ids(2)]], goal_cases)
        case (1 ms y)
        then obtain ds where y: "aside E h x y" and told: "tells E x (able E) ids ms ds" by blast
        have "tells E w (able E) ids ms ds" using told x(2) dev tells_cong [of E x w] by simp
        then have "invites E w i ps ms ds"
          using invitesI [OF w sel] ids(1,3) dev by simp
        moreover have "sent y = sent w" "udp y = udp w" using u(3,4) x(3) y by (simp_all add: post_office_def)
        ultimately show ?case
          unfolding m
          by (intro wp_weaken [OF send_list_wp], elim conjE exE, intro conjI disjI2 exI [of _ i] exI [of _ ps]
              exI [of _ ms] exI [of _ ds]) auto
      qed auto
      then show ?case by (simp add: r wp_bind)
    qed
  qed auto
qed (auto simp: post_office_def)

end
