(* ===== verification/Replication.thy ===== *)
theory Replication
  imports Device_Repository
begin

text \<open>
  What the hosts of a network promise together: an abstract specification of the distributed store,
  with a map of devices, a set of announced devices and a time for each host, and its steps. The
  owner of a device alone moves it to its next version; every other host holds an earlier or the
  same version, and all hosts that hold the same version hold the same device.
\<close>

section \<open>The specification\<close>

text \<open>
  A host as its network sees it: the devices it stores, the devices that its sync events told of, and
  how often it has asked the world outside for something.
\<close>

record replica =
  stored :: devices
  told :: "Device set"
  spent :: nat

text \<open>
  A step of a host with identifier \<open>h\<close> that draws the identifier \<open>draw t\<close> at time \<open>t\<close>, while the events
  under way are \<open>known\<close>: it creates a device, sets the state of a device, merges the device of an event,
  drops a copy of another host's device, tells of devices that it stores or heard of, or waits.
\<close>

inductive host_step :: "(nat \<Rightarrow> Id option) \<Rightarrow> Id \<Rightarrow> Device set \<Rightarrow> replica \<Rightarrow> replica \<Rightarrow> bool"
  for draw h known where
  create: "draw t = Some i \<Longrightarrow> spent r \<le> t \<Longrightarrow> t < n \<Longrightarrow>
    host_step draw h known r (r\<lparr>stored := save_devices (NewDevice i h ty s 0) (stored r), spent := n\<rparr>)"
| set_state: "spent r < n \<Longrightarrow> host_step draw h known r (r\<lparr>stored := patch_devices h i s (stored r), spent := n\<rparr>)"
| adopt: "c \<in> known \<Longrightarrow> host_step draw h known r (r\<lparr>stored := sync_devices h c (stored r)\<rparr>)"
| forget: "stored r i = Some d \<Longrightarrow> dev_owner d \<noteq> h \<Longrightarrow> host_step draw h known r (r\<lparr>stored := (stored r)(i := None)\<rparr>)"
| tell: "(\<And>c. c \<in> C \<Longrightarrow> stored r (dev_id c) = Some c \<or> c \<in> known) \<Longrightarrow> host_step draw h known r (r\<lparr>told := told r \<union> C\<rparr>)"
| wait: "spent r \<le> n \<Longrightarrow> host_step draw h known r (r\<lparr>spent := n\<rparr>)"

type_synonym 'n replicas = "'n \<Rightarrow> replica"

definition heard :: "'n replicas \<Rightarrow> Device set" where
  "heard S = (\<Union>n. told (S n))"

text \<open>Any host may make a step, and hear of any device that was told of, at any time and as often as it likes.\<close>

inductive network_does :: "('n \<Rightarrow> nat \<Rightarrow> Id option) \<Rightarrow> ('n \<Rightarrow> Id) \<Rightarrow> 'n replicas \<Rightarrow> 'n replicas \<Rightarrow> bool"
  for draw host where
  "host_step (draw n) (host n) (heard S) (S n) r \<Longrightarrow> network_does draw host S (S(n := r))"

section \<open>A copy follows its owner\<close>

text \<open>
  The owner of \<open>c\<close> stores the device under its own identifier, which it has drawn itself; the stored
  version is not behind that of \<open>c\<close>, and no larger than the steps of the owner.
\<close>

definition follows :: "('n \<Rightarrow> nat \<Rightarrow> Id option) \<Rightarrow> ('n \<Rightarrow> Id) \<Rightarrow> 'n replicas \<Rightarrow> Device \<Rightarrow> bool" where
  "follows draw host S c \<longleftrightarrow> (\<exists>a d t. dev_owner c = host a \<and> stored (S a) (dev_id c) = Some d \<and>
     dev_owner d = host a \<and> dev_type d = dev_type c \<and> sint (dev_version c) \<le> sint (dev_version d) \<and>
     draw a t = Some (dev_id c) \<and> t < spent (S a) \<and> sint (dev_version d) \<le> int (spent (S a)))"

definition present :: "'n replicas \<Rightarrow> Device \<Rightarrow> bool" where
  "present S c \<longleftrightarrow> c \<in> heard S \<or> (\<exists>n. stored (S n) (dev_id c) = Some c)"

text \<open>All that is stored or told of follows its owner, and the same version is the same device.\<close>

definition in_order :: "('n \<Rightarrow> nat \<Rightarrow> Id option) \<Rightarrow> ('n \<Rightarrow> Id) \<Rightarrow> 'n replicas \<Rightarrow> bool" where
  "in_order draw host S \<longleftrightarrow> (\<forall>n i d. stored (S n) i = Some d \<longrightarrow> dev_id d = i) \<and>
     (\<forall>c. present S c \<longrightarrow> follows draw host S c) \<and>
     (\<forall>c d. present S c \<longrightarrow> present S d \<longrightarrow> dev_id c = dev_id d \<longrightarrow> dev_version c = dev_version d \<longrightarrow> c = d)"

lemma in_orderD:
  assumes "in_order draw host S"
  shows "stored (S n) i = Some d \<Longrightarrow> dev_id d = i" and "present S c \<Longrightarrow> follows draw host S c"
    and "present S c \<Longrightarrow> present S d \<Longrightarrow> dev_id c = dev_id d \<Longrightarrow> dev_version c = dev_version d \<Longrightarrow> c = d"
  using assms unfolding in_order_def by blast+

lemma stored_present: "in_order draw host S \<Longrightarrow> stored (S n) i = Some d \<Longrightarrow> present S d"
  using in_orderD(1) [of draw host S n i d] by (auto simp: present_def)

text \<open>
  Up to now, no identifier was drawn twice, and no host has made so many steps that a version could
  wrap around.
\<close>

definition fair_draws :: "('n \<Rightarrow> nat \<Rightarrow> Id option) \<Rightarrow> 'n replicas \<Rightarrow> bool" where
  "fair_draws draw S \<longleftrightarrow>
     (\<forall>n m s t i. s < spent (S n) \<longrightarrow> t < spent (S m) \<longrightarrow> draw n s = Some i \<longrightarrow> draw m t = Some i \<longrightarrow> n = m \<and> s = t) \<and>
     (\<forall>n. int (spent (S n)) < 2 ^ 63 - 1)"

lemma host_step_spent: "host_step draw h known r r' \<Longrightarrow> spent r \<le> spent r'"
  by (induction rule: host_step.induct) auto

lemma network_spent: "network_does draw host S S' \<Longrightarrow> spent (S n) \<le> spent (S' n)"
  by (auto elim!: network_does.cases dest: host_step_spent)

lemma fair_draws_before:
  assumes "fair_draws draw S'" and "\<And>n. spent (S n) \<le> spent (S' n)"
  shows "fair_draws draw S"
proof -
  have "n = m \<and> s = t" if "s < spent (S n)" "t < spent (S m)" "draw n s = Some i" "draw m t = Some i" for n m s t i
    using assms(1) that less_le_trans [OF that(1) assms(2)] less_le_trans [OF that(2) assms(2)]
    unfolding fair_draws_def by blast
  moreover have "int (spent (S n)) < 2 ^ 63 - 1" for n
  proof -
    have "int (spent (S' n)) < 2 ^ 63 - 1" using assms(1) unfolding fair_draws_def by blast
    then show ?thesis using assms(2) [of n] by linarith
  qed
  ultimately show ?thesis unfolding fair_draws_def by blast
qed

text \<open>A step takes a device of the host itself to its next version at most.\<close>

definition advances :: "replica \<Rightarrow> Device \<Rightarrow> Device \<Rightarrow> bool" where
  "advances r d d' \<longleftrightarrow> dev_id d' = dev_id d \<and> dev_owner d' = dev_owner d \<and> dev_type d' = dev_type d \<and>
     (d' = d \<or> sint (dev_version d') = sint (dev_version d) + 1 \<and> sint (dev_version d') \<le> int (spent r))"

lemma host_step_own:
  assumes "host_step draw h known r r'" and d: "stored r i = Some d" "dev_owner d = h"
    and fresh: "\<And>t. spent r \<le> t \<Longrightarrow> t < spent r' \<Longrightarrow> draw t \<noteq> Some i"
    and "sint (dev_version d) \<le> int (spent r)" and "int (spent r') < 2 ^ 63 - 1"
  shows "\<exists>d'. stored r' i = Some d' \<and> advances r' d d'"
  using assms(1)
proof cases
  case (create t j n ty s)
  then have "j \<noteq> i" using fresh [of t] by auto
  then show ?thesis using d by (auto simp: create save_devices_def advances_def)
next
  case (set_state n j s)
  have "dev_version d \<noteq> MaxInt" using assms(5,6) set_state by (auto simp: sint_MaxInt)
  then show ?thesis
    using patch_devices_owned [of "stored r" i d h j s, OF d] sint_plus_1 [of "dev_version d"] assms(5) set_state
    by (auto simp: advances_def)
next
  case (adopt c)
  then show ?thesis using sync_devices_owned [of "stored r" i d h c, OF d] by (simp add: advances_def)
qed (use d in \<open>auto simp: advances_def\<close>)

text \<open>Where a stored device comes from.\<close>

lemma host_step_stored:
  assumes "host_step draw h known r r'" and "stored r' i = Some d"
  obtains (kept) "stored r i = Some d"
  | (adopted) "d \<in> known" "dev_id d = i"
  | (created) t ty s where "draw t = Some i" "spent r \<le> t" "t < spent r'" "d = NewDevice i h ty s 0"
  | (changed) d0 s where "stored r i = Some d0" "dev_owner d0 = h" "d = d0\<lparr>dev_state := s, dev_version := dev_version d0 + 1\<rparr>"
  using assms
  by cases (auto simp: save_devices_def patch_devices_def sync_devices_def split: if_splits option.splits)

lemma host_step_told:
  "host_step draw h known r r' \<Longrightarrow> c \<in> told r' \<Longrightarrow> c \<in> told r \<or> c \<in> known \<or> stored r (dev_id c) = Some c"
  by (auto elim!: host_step.cases)


lemma fair_drawsD:
  assumes "fair_draws draw S"
  shows "s < spent (S n) \<Longrightarrow> t < spent (S m) \<Longrightarrow> draw n s = Some i \<Longrightarrow> draw m t = Some i \<Longrightarrow> n = m \<and> s = t"
    and "int (spent (S n)) < 2 ^ 63 - 1"
  using assms unfolding fair_draws_def by blast+

text \<open>What follows its owner does so after any step.\<close>

lemma follows_step:
  assumes f: "follows draw host S c" and step: "host_step (draw n) (host n) (heard S) (S n) r"
    and fair: "fair_draws draw (S(n := r))"
  shows "follows draw host (S(n := r)) c"
proof -
  obtain a d t where a: "dev_owner c = host a" "stored (S a) (dev_id c) = Some d" "dev_owner d = host a"
      "dev_type d = dev_type c" "sint (dev_version c) \<le> sint (dev_version d)"
      "draw a t = Some (dev_id c)" "t < spent (S a)" "sint (dev_version d) \<le> int (spent (S a))"
    using f unfolding follows_def by (elim exE conjE) (rule that)
  show ?thesis
  proof (cases "a = n")
    case False
    with a show ?thesis unfolding follows_def by (intro exI [of _ a] exI [of _ d] exI [of _ t]) simp
  next
    case True
    note later = host_step_spent [OF step]
    have "draw n u \<noteq> Some (dev_id c)" if "spent (S n) \<le> u" "u < spent r" for u
      using fair_drawsD(1) [OF fair, of t n u n "dev_id c"] a(6,7) that later True by auto
    moreover have "int (spent r) < 2 ^ 63 - 1" using fair_drawsD(2) [OF fair, of n] by simp
    ultimately obtain d' where d': "stored r (dev_id c) = Some d'" "advances r d d'"
      using host_step_own [OF step, of "dev_id c" d] a True by blast
    then show ?thesis
      unfolding follows_def
      using a later True
      by (intro exI [of _ n] exI [of _ d'] exI [of _ t]) (auto simp: advances_def)
  qed
qed

text \<open>
  What is new in a network after a step is a device that the host which made it stores: one that it
  created, or the next version of one that it had.
\<close>

lemma step_present:
  assumes step: "host_step (draw n) (host n) (heard S) (S n) r" and c: "present (S(n := r)) c"
  obtains (old) "present S c"
  | (created) t ty s where "stored r (dev_id c) = Some c" "draw n t = Some (dev_id c)" "spent (S n) \<le> t" "t < spent r"
      "c = NewDevice (dev_id c) (host n) ty s 0"
  | (changed) d s where "stored r (dev_id c) = Some c" "stored (S n) (dev_id c) = Some d" "dev_owner d = host n"
      "c = d\<lparr>dev_state := s, dev_version := dev_version d + 1\<rparr>"
proof -
  consider "present S c" | "stored r (dev_id c) = Some c"
    using c host_step_told [OF step] by (auto simp: present_def heard_def split: if_splits)
  then show ?thesis
  proof cases
    case stored: 2
    from step stored show ?thesis
    proof (cases rule: host_step_stored)
      case (created t ty s)
      then show ?thesis by (rule that(2) [OF stored])
    next
      case (changed d s)
      then show ?thesis by (rule that(3) [OF stored])
    next
      case kept
      then have "present S c" by (auto simp: present_def)
      then show ?thesis by (rule that(1))
    next
      case adopted
      then have "present S c" by (simp add: present_def)
      then show ?thesis by (rule that(1))
    qed
  qed (rule that(1))
qed

text \<open>Such a device follows its owner, and differs from all that was there before.\<close>

lemma present_new:
  assumes inj: "inj host" and order: "in_order draw host S" and step: "host_step (draw n) (host n) (heard S) (S n) r"
    and fair: "fair_draws draw (S(n := r))" and c: "present (S(n := r)) c" and new: "\<not> present S c"
  shows "follows draw host (S(n := r)) c \<and> stored r (dev_id c) = Some c \<and>
    (\<forall>e. present S e \<longrightarrow> dev_id e = dev_id c \<longrightarrow> dev_version e \<noteq> dev_version c)"
proof -
  note later = host_step_spent [OF step]
  have steady: "spent (S m) \<le> spent ((S(n := r)) m)" for m using later by simp
  have owner: "\<exists>d. stored (S n) (dev_id e) = Some d \<and> sint (dev_version e) \<le> sint (dev_version d) \<and> t < spent (S n)"
    if "present S e" "draw n t = Some (dev_id e)" "t < spent r" for e t
  proof -
    have "follows draw host S e" by (rule in_orderD(2) [OF order that(1)])
    then obtain a d u where a: "stored (S a) (dev_id e) = Some d" "sint (dev_version e) \<le> sint (dev_version d)"
        "draw a u = Some (dev_id e)" "u < spent (S a)"
      unfolding follows_def by (elim exE conjE) (rule that)
    moreover have "t < spent ((S(n := r)) n)" using that(3) by simp
    ultimately have "a = n \<and> u = t"
      using fair_drawsD(1) [OF fair less_le_trans [OF a(4) steady]] that(2) by blast
    with a show ?thesis by blast
  qed
  from step c show ?thesis
  proof (cases rule: step_present)
    case old
    then show ?thesis using new by blast
  next
    case (created t ty s)
    have "sint (dev_version c) = 0" "dev_owner c = host n"
      by (subst created(5), simp)+
    then have "follows draw host (S(n := r)) c"
      using created(1,2,4) unfolding follows_def by (intro exI [of _ n] exI [of _ c] exI [of _ t]) auto
    moreover have "\<not> present S e" if "dev_id e = dev_id c" for e
      using owner [of e t] created that by auto
    ultimately show ?thesis using created(1) by blast
  next
    case (changed d s)
    have id: "dev_id d = dev_id c" by (rule in_orderD(1) [OF order changed(2)])
    have "follows draw host S d" by (rule in_orderD(2) [OF order stored_present [OF order changed(2)]])
    then obtain a d' t where a: "dev_owner d = host a" "stored (S a) (dev_id c) = Some d'" "draw a t = Some (dev_id c)"
        "t < spent (S a)" "sint (dev_version d') \<le> int (spent (S a))"
      unfolding follows_def id by (elim exE conjE) (rule that)
    have "a = n" using a(1) changed(3) inj by (auto simp: inj_def)
    then have d: "d' = d" "t < spent (S n)" "draw n t = Some (dev_id c)" "sint (dev_version d) \<le> int (spent (S n))"
      using a changed(2) by auto
    have limit: "int (spent r) < 2 ^ 63 - 1" using fair_drawsD(2) [OF fair, of n] by simp
    have "draw n u \<noteq> Some (dev_id c)" if "spent (S n) \<le> u" "u < spent r" for u
      using fair_drawsD(1) [OF fair, of t n u n "dev_id c"] d(2,3) that later by auto
    then have "advances r d c"
      using host_step_own [OF step changed(2,3) _ d(4) limit] changed(1) by auto
    moreover have "dev_version d \<noteq> MaxInt" using d(4) limit later by (auto simp: sint_MaxInt)
    then have "sint (dev_version c) = sint (dev_version d) + 1" by (subst changed(4)) (simp add: sint_plus_1)
    ultimately have c: "sint (dev_version c) \<le> int (spent r)" "sint (dev_version d) < sint (dev_version c)"
      by (auto simp: advances_def)
    have "follows draw host (S(n := r)) c"
      unfolding follows_def
      using changed(1,3) d(2,3) c(1) later by (intro exI [of _ n] exI [of _ c] exI [of _ t]) (auto simp: changed(4))
    moreover have "dev_version e \<noteq> dev_version c" if "present S e" "dev_id e = dev_id c" for e
      using owner [of e t] that changed(2) d(2,3) later c(2) by auto
    ultimately show ?thesis using changed(1) by blast
  qed
qed

lemma in_order_step:
  assumes "inj host" and order: "in_order draw host S" and "network_does draw host S S'" and fair: "fair_draws draw S'"
  shows "in_order draw host S'"
  using assms(3)
proof cases
  case (1 n r)
  note fair' = fair [unfolded 1(1)]
  note new = present_new [OF assms(1) order 1(2) fair']
  have "dev_id d = i" if "stored r i = Some d" for i d
    using 1(2) that by (cases rule: host_step_stored) (auto dest: in_orderD(1) [OF order])
  then have ids: "dev_id d = i" if "stored (S' m) i = Some d" for m i d
    using that in_orderD(1) [OF order] 1(1) by (auto split: if_splits)
  have follow: "follows draw host S' c" if "present S' c" for c
    using follows_step [OF in_orderD(2) [OF order] 1(2) fair'] new [of c] that 1(1) by blast
  have same: "c = d" if "present S' c" "present S' d" "dev_id c = dev_id d" "dev_version c = dev_version d" for c d
    using in_orderD(3) [OF order, of c d] new [of c] new [of d] that 1(1) by (metis option.inject)
  show ?thesis unfolding in_order_def using ids follow same by blast
qed

text \<open>From an ordered state on, in particular from empty stores, a network stays in order.\<close>

lemma network_in_order:
  assumes "inj host" and "in_order draw host S" and "(network_does draw host)\<^sup>*\<^sup>* S S'" and "fair_draws draw S'"
  shows "in_order draw host S'"
  using assms(3,4)
proof (induction rule: rtranclp_induct)
  case (step T S')
  then have "fair_draws draw T" using fair_draws_before network_spent by metis
  then show ?case using in_order_step [OF assms(1) _ step(2,4)] step(3) by blast
qed (rule assms(2))

lemma in_order_empty: "(\<And>n. stored (S n) = Map.empty \<and> told (S n) = {}) \<Longrightarrow> in_order draw host S"
  by (simp add: in_order_def present_def heard_def)


section \<open>Convergence\<close>

text \<open>The owner of a device that is stored somewhere has it, too, and no copy is ahead of it.\<close>

lemma owner_ahead:
  assumes "inj host" and order: "in_order draw host S" and fair: "fair_draws draw S"
    and d: "stored (S a) i = Some d" "dev_owner d = host a" and c: "stored (S n) i = Some c"
  shows "dev_owner c = host a" and "sint (dev_version c) \<le> sint (dev_version d)"
    and "dev_version c = dev_version d \<Longrightarrow> c = d"
proof -
  have id: "dev_id d = i" "dev_id c = i" using in_orderD(1) [OF order] d(1) c by blast+
  note present = stored_present [OF order d(1)] stored_present [OF order c]
  note follow = present [THEN in_orderD(2) [OF order]]
  obtain b t where b: "dev_owner d = host b" "draw b t = Some i" "t < spent (S b)"
    using follow(1) unfolding follows_def id by (elim exE conjE) (rule that)
  obtain b' e t' where b': "dev_owner c = host b'" "stored (S b') i = Some e" "draw b' t' = Some i"
      "t' < spent (S b')" "sint (dev_version c) \<le> sint (dev_version e)"
    using follow(2) unfolding follows_def id by (elim exE conjE) (rule that)
  have "b = a" using b(1) d(2) assms(1) by (simp add: inj_def)
  moreover have "b = b'" using fair_drawsD(1) [OF fair b(3) b'(4) b(2) b'(3)] by blast
  ultimately show "dev_owner c = host a" "sint (dev_version c) \<le> sint (dev_version d)" using b' d(1) by auto
  show "c = d" if "dev_version c = dev_version d"
    using in_orderD(3) [OF order present(2,1)] id that by simp
qed

text \<open>
  A host that hears of the device as its owner has it now stores just that device afterwards, whether
  it knew an earlier version, the same, or none; the owner itself keeps what it has.
\<close>

lemma adopt_current:
  assumes inj: "inj host" and order: "in_order draw host S" and fair: "fair_draws draw S"
    and d: "stored (S a) i = Some d" "dev_owner d = host a" and "i \<noteq> ZeroId"
  shows "sync_devices (host n) d (stored (S n)) i = Some d"
proof (cases "stored (S n) i")
  case None
  then show ?thesis
    using in_orderD(1) [OF order d(1)] assms(6) by (simp add: sync_devices_def save_devices_def)
next
  case (Some c)
  note ahead = owner_ahead [OF inj order fair d Some]
  have "c = d" if "dev_owner c = host n \<or> sint (dev_version d) \<le> sint (dev_version c)"
  proof (cases "n = a")
    case True
    then show ?thesis using Some d(1) by simp
  next
    case False
    then have "sint (dev_version d) = sint (dev_version c)" using that ahead(1,2) inj by (auto simp: inj_def)
    then show ?thesis by (intro ahead(3)) (auto dest: signed_word_eqI)
  qed
  then show ?thesis
    using Some in_orderD(1) [OF order d(1)] assms(6) by (auto simp: sync_devices_def save_devices_def)
qed

end
