(* ===== verification/Hosts.thy ===== *)
theory Hosts
  imports Network Replication
begin

text \<open>
  A host as a part of the replicated store that \<open>Replication\<close> specifies: whatever request it serves and
  whatever datagram of another host it receives, its run is a sequence of the specification's steps.
\<close>

section \<open>A host as the specification sees it\<close>

definition drawn :: "'d external \<Rightarrow> nat \<Rightarrow> Id option" where
  "drawn E t = (case NewRandomId (uuid E) t of Ok i \<Rightarrow> Some i | _ \<Rightarrow> None)"

definition told_of :: "(string \<times> bytes) list \<Rightarrow> Device set" where
  "told_of xs = {c. \<exists>m. datagram m \<in> snd ` set xs \<and> syncs m c}"

definition replica_of :: "'d external \<Rightarrow> 'd world \<Rightarrow> replica" where
  "replica_of E w = \<lparr>stored = devices_of E w, told = told_of (sent w), spent = moment w\<rparr>"

text \<open>A datagram that no reader trips over: one of a message, and a sync event only of a proper device.\<close>

definition readable_mail :: "bytes \<Rightarrow> bool" where
  "readable_mail x \<longleftrightarrow> (\<exists>m. x = datagram m \<and> 
     (msg_type m = MessageTypeEventSync \<longrightarrow> (\<exists>c. NewSyncMessageReader m = Ok c \<and> dev_id c \<noteq> ZeroId)))"

definition mail_ok :: "'d world \<Rightarrow> bool" where
  "mail_ok w \<longleftrightarrow> (\<forall>x \<in> snd ` set (sent w). readable_mail x)"

text \<open>What a run of a host is, in the eyes of the network, while the devices \<open>known\<close> are told of.\<close>

definition plays :: "'d external \<Rightarrow> Id \<Rightarrow> Device set \<Rightarrow> 'd world \<Rightarrow> 'd world \<Rightarrow> bool" where
  "plays E h known w w' \<longleftrightarrow> (ZeroId \<notin> dev_id ` known \<and> steady_ok E h w \<and> mail_ok w \<longrightarrow> steady_ok E h w' \<and> mail_ok w' \<and>
     (host_step (drawn E) h known)\<^sup>*\<^sup>* (replica_of E w) (replica_of E w'))"

interpretation plays: state_order "plays E h known" for E :: "'d external" and h known
  by unfold_locales (auto simp: plays_def)

text \<open>
  The form in which the use cases show it: devices stay, or take one of the steps of the specification;
  and all that is sent is readable and tells of known devices, or stored ones before or after.
\<close>

definition speaks :: "Device set \<Rightarrow> devices \<Rightarrow> (string \<times> bytes) list \<Rightarrow> bool" where
  "speaks known D xs \<longleftrightarrow> (\<forall>x \<in> snd ` set xs. \<exists>m. x = datagram m \<and>
     (msg_type m = MessageTypeEventSync \<longrightarrow> (\<exists>c. NewSyncMessageReader m = Ok c \<and> (c \<in> known \<or> D (dev_id c) = Some c))))"


lemma told_of_append [simp]: "told_of (xs @ ys) = told_of xs \<union> told_of ys" and told_of_Nil [simp]: "told_of [] = {}"
  by (auto simp: told_of_def)

lemma told_of_speaks:
  assumes "speaks known D xs" and "c \<in> told_of xs"
  shows "c \<in> known \<or> D (dev_id c) = Some c"
  using assms by (auto simp: told_of_def speaks_def syncs_def image_iff)

text \<open>A move from devices to devices, in one step of the specification or none.\<close>

definition moves :: "'d external \<Rightarrow> Id \<Rightarrow> Device set \<Rightarrow> 'd world \<Rightarrow> 'd world \<Rightarrow> bool" where
  "moves E h known w w' \<longleftrightarrow> (\<forall>C. (host_step (drawn E) h known)\<^sup>*\<^sup>*
     \<lparr>stored = devices_of E w, told = C, spent = moment w\<rparr> \<lparr>stored = devices_of E w', told = C, spent = moment w'\<rparr>)"

lemma moves_stay: "devices_of E w' = devices_of E w \<Longrightarrow> moment w \<le> moment w' \<Longrightarrow> moves E h known w w'"
  using host_step.wait [of "\<lparr>stored = devices_of E w, told = C, spent = moment w\<rparr>" "moment w'" "drawn E" h known for C]
  by (auto simp: moves_def)

lemma moves_patch:
  "devices_of E w' = patch_devices h i s (devices_of E w) \<Longrightarrow> moment w < moment w' \<Longrightarrow> moves E h known w w'"
  using host_step.set_state [of "\<lparr>stored = devices_of E w, told = C, spent = moment w\<rparr>" "moment w'" "drawn E" h known i s for C]
  by (auto simp: moves_def)

lemma moves_create:
  assumes "devices_of E w' = save_devices (NewDevice i h ty s 0) (devices_of E w)"
    and "drawn E t = Some i" "moment w \<le> t" "t < moment w'"
  shows "moves E h known w w'"
  unfolding moves_def
proof
  fix C
  let ?r = "\<lparr>stored = devices_of E w, told = C, spent = moment w\<rparr>"
  from host_step.create [of "drawn E" t i ?r "moment w'" h known ty s] assms
  show "(host_step (drawn E) h known)\<^sup>*\<^sup>* ?r \<lparr>stored = devices_of E w', told = C, spent = moment w'\<rparr>"
    by (intro r_into_rtranclp) simp
qed

lemma moves_later:
  assumes "host_step (drawn E) h known \<lparr>stored = devices_of E w, told = C, spent = moment w\<rparr>
    \<lparr>stored = devices_of E w', told = C, spent = moment w\<rparr>" and "moment w \<le> moment w'"
  shows "(host_step (drawn E) h known)\<^sup>*\<^sup>* \<lparr>stored = devices_of E w, told = C, spent = moment w\<rparr>
    \<lparr>stored = devices_of E w', told = C, spent = moment w'\<rparr>"
  using assms(1) host_step.wait [of "\<lparr>stored = devices_of E w', told = C, spent = moment w\<rparr>" "moment w'" "drawn E" h known] assms(2)
  by simp

lemma moves_sync:
  "devices_of E w' = sync_devices h c (devices_of E w) \<Longrightarrow> c \<in> known \<Longrightarrow> moment w \<le> moment w' \<Longrightarrow> moves E h known w w'"
  unfolding moves_def
  using host_step.adopt [of c known "drawn E" h "\<lparr>stored = devices_of E w, told = C, spent = moment w\<rparr>" for C]
  by (intro allI moves_later) simp_all

lemma moves_forget:
  "devices_of E w' = (devices_of E w)(i := None) \<Longrightarrow> devices_of E w i = Some d \<Longrightarrow> dev_owner d \<noteq> h \<Longrightarrow>
   moment w \<le> moment w' \<Longrightarrow> moves E h known w w'"
  unfolding moves_def
  using host_step.forget [of "\<lparr>stored = devices_of E w, told = C, spent = moment w\<rparr>" i d h "drawn E" known for C]
  by (intro allI moves_later) simp_all

text \<open>The form in which the use cases play.\<close>

definition performs :: "'d external \<Rightarrow> Id \<Rightarrow> Device set \<Rightarrow> 'd world \<Rightarrow> 'd world \<Rightarrow> bool" where
  "performs E h known w w' \<longleftrightarrow> steady_ok E h w' \<and> moves E h known w w' \<and>
     (\<exists>xs. sent w' = sent w @ xs \<and> speaks known (devices_of E w') xs)"

lemma performs_plays:
  assumes "performs E h known w w'"
  shows "plays E h known w w'"
proof -
  obtain xs where xs: "sent w' = sent w @ xs" "speaks known (devices_of E w') xs"
    using assms by (auto simp: performs_def)
  let ?r = "\<lparr>stored = devices_of E w', told = told_of (sent w), spent = moment w'\<rparr>"
  have "(host_step (drawn E) h known)\<^sup>*\<^sup>* (replica_of E w) ?r"
    using assms by (simp add: performs_def moves_def replica_of_def)
  moreover have "host_step (drawn E) h known ?r (replica_of E w')"
    using host_step.tell [of "told_of xs" ?r known "drawn E" h] told_of_speaks [OF xs(2)]
    by (auto simp: replica_of_def xs(1))
  moreover have "readable_mail x" if zero: "ZeroId \<notin> dev_id ` known" and x: "x \<in> snd ` set xs" for x
  proof -
    obtain m where m: "x = datagram m" "msg_type m = MessageTypeEventSync \<longrightarrow>
        (\<exists>c. NewSyncMessageReader m = Ok c \<and> (c \<in> known \<or> devices_of E w' (dev_id c) = Some c))"
      using xs(2) x unfolding speaks_def by blast
    have "dev_id c \<noteq> ZeroId" if "c \<in> known \<or> devices_of E w' (dev_id c) = Some c" for c
      using that zero repo.dev_id_law [of E h w' "dev_id c" c] assms
      by (auto simp: performs_def steady_ok_def image_iff)
    with m show ?thesis unfolding readable_mail_def by blast
  qed
  then have "mail_ok w'" if "mail_ok w" "ZeroId \<notin> dev_id ` known"
    using that by (auto simp: mail_ok_def xs(1) image_Un)
  ultimately show ?thesis
    using assms by (auto simp: plays_def performs_def)
qed

lemma playsI: "(\<And>w. steady_ok E h w \<Longrightarrow> ZeroId \<notin> dev_id ` known \<Longrightarrow> wp m (\<lambda>_. performs E h known w) w) \<Longrightarrow> within (plays E h known) m"
  unfolding within_def wp_iff using performs_plays by (metis plays_def)

section \<open>The operations that send nothing and keep the devices\<close>

interpretation aloof: querying "\<lambda>w w'. disk w' = disk w \<and> sent w' = sent w \<and> moment w \<le> moment w'" E for E :: "'d external"
  by unfold_locales (auto simp: run_defs database_Get_disk)

lemma speaks_Nil [simp]: "speaks known D []"
  by (simp add: speaks_def)

lemma aloof_plays:
  assumes "within (\<lambda>w w'. disk w' = disk w \<and> sent w' = sent w \<and> moment w \<le> moment w') m" and "within (keeps_ok E h) m"
  shows "within (plays E h known) m"
proof (rule playsI)
  fix w assume "steady_ok E h w" "ZeroId \<notin> dev_id ` known"
  then show "wp m (\<lambda>_. performs E h known w) w"
    using assms devices_of_disk [of "snd (m w)" w E]
    by (auto simp: within_def wp_iff performs_def steady_ok_def intro: moves_stay)
qed

lemma aloof_methods:
  "within (\<lambda>w w'. disk w' = disk w \<and> sent w' = sent w \<and> moment w \<le> moment w') (peers_AddPeer p)"
  "within (\<lambda>w w'. disk w' = disk w \<and> sent w' = sent w \<and> moment w \<le> moment w') (peers_RemovePeer i)"
  "within (\<lambda>w w'. disk w' = disk w \<and> sent w' = sent w \<and> moment w \<le> moment w') (udp_Observe E)"
  "within (\<lambda>w w'. disk w' = disk w \<and> sent w' = sent w \<and> moment w \<le> moment w') (udp_Stop E)"
  "within (\<lambda>w w'. disk w' = disk w \<and> sent w' = sent w \<and> moment w \<le> moment w') (shutdownHandler E)"
  unfolding shutdownHandler_def NewShutdownUseCase_def
  by (simp_all add: run_defs act_simps)

lemma plays_readers:
  "within (plays E h known) (composeInfoUseCase E)" "within (plays E h known) (deviceIdsProvider E)"
  "within (plays E h known) (deviceProvider E i)" "within (plays E h known) (peers_GetAllPeers E)"
  "within (plays E h known) (peers_AddPeer p)" "within (plays E h known) (peers_RemovePeer i)"
  "within (plays E h known) (udp_Observe E)" "within (plays E h known) (udp_Stop E)"
  "within (plays E h known) (shutdownHandler E)"
proof -
  have "within (keeps_ok E h) (composeInfoUseCase E)"
    unfolding composeInfoUseCase_def
    by (intro conj.within_data_usecases keeps_quiet [OF quiet_GetHostId]
        keeps_quiet [OF quiet_GetLocalAddress] keeps_quiet [OF quiet_GetBroadcastAddress])
  then show "within (plays E h known) (composeInfoUseCase E)" by (rule aloof_plays [OF aloof.checks_in(3)])
qed (intro aloof_plays aloof.providers_in aloof.all_peers_in aloof_methods keeps_udp keeps_network keeps_quiet [OF quiet_ids]
    keeps_quiet [OF quiet_device] keeps_quiet [OF quiet_GetAllPeers] keeps_quiet [OF quiet_peer_methods(1)]
    keeps_quiet [OF quiet_peer_methods(2)])+

section \<open>The use cases that change devices or send\<close>

lemma speaks_spread:
  assumes "spreads E i n m w w'"
    and "msg_type m = MessageTypeEventSync \<Longrightarrow> \<exists>c. NewSyncMessageReader m = Ok c \<and> (c \<in> known \<or> D (dev_id c) = Some c)"
  shows "\<exists>xs. sent w' = sent w @ xs \<and> speaks known D xs"
proof -
  obtain qs :: "Peer list" where "sent w' = sent w @ map (\<lambda>p. (peer_address p, datagram m)) qs"
    using assms(1) unfolding spreads_def by blast
  then show ?thesis using assms(2) by (intro exI conjI) (auto simp: speaks_def)
qed

text \<open>Time passes when an operation starts with a question to the outside.\<close>

abbreviation (input) later :: "'d world \<Rightarrow> 'd world \<Rightarrow> bool" where
  "later \<equiv> \<lambda>w w'. moment w < moment w'"

lemma later_bind:
  assumes "within later m" and "\<And>a. within (\<lambda>w w'. moment w \<le> moment w') (f a)"
  shows "within later (bind m f)"
proof (rule withinI)
  fix w
  obtain r v where m: "m w = (r, v)" by (cases "m w")
  have "moment w < moment v" using withinD [OF assms(1) m] .
  moreover have "moment v \<le> moment (snd (f a v))" for a using assms(2) [of a] by (simp add: within_def)
  ultimately show "moment w < moment (snd (bind m f w))"
    using less_le_trans by (cases r) (fastforce simp: bind_def m)+
qed

lemma later_if_err:
  assumes "within later m" and "\<And>e. within (\<lambda>w w'. moment w \<le> moment w') (k e)"
    and "\<And>a. within (\<lambda>w w'. moment w \<le> moment w') (f a)"
  shows "within later (if_err m k f)"
proof (rule withinI)
  fix w
  obtain r v where m: "m w = (r, v)" by (cases "m w")
  have "moment w < moment v" using withinD [OF assms(1) m] .
  moreover have "moment v \<le> moment (snd (f a v))" "moment v \<le> moment (snd (k e v))" for a e
    using assms(2) [of e] assms(3) [of a] by (simp_all add: within_def)
  ultimately show "moment w < moment (snd (if_err m k f w))"
    using less_le_trans by (cases r) (fastforce simp: if_err_def m)+
qed

lemma later_owner: "within later (checkIfOwnerUseCase E i)"
  unfolding checkIfOwnerUseCase_def NewCheckIfOwnerUseCase_def
  by (rule later_bind, simp add: within_def prefs_GetHostId_def on_properties_def case_prod_unfold)
    (intro forth.within_rules forth.providers_in)

lemma later_updates: "within later (patchStateUseCase E i s)"
  "NewPatchMessageReader m = Ok (i, s) \<Longrightarrow> within later (updateStateUseCase E a m)"
  unfolding patchStateUseCase_def NewPatchStateUseCase_def updateStateUseCase_def NewSaveStateUseCase_def
  by (simp_all add: pure_Ok return_bind,
      (rule later_bind, rule later_if_err [OF later_owner];
       intro forth.within_rules forth.providers_in forth.persisters_in forth.messages_in forth.random_peers_in
         forth.send_message_in)+)

text \<open>Setting a state, by a request or a command.\<close>

lemma performs_patch:
  assumes w: "steady_ok E h w"
    and refines: "wp m (\<lambda>r w'. steady_ok E h w' \<and> (devices_of E w' = patch_devices h i s (devices_of E w) \<or>
      devices_of E w' = devices_of E w \<and> (\<exists>e. r = Err e))) w"
    and sends: "wp m (\<lambda>r w'. sent w' = sent w \<and> r \<notin> range Ok \<or>
      r = Ok () \<and> (\<exists>m'. spreads E ZeroId MinInt m' w w' \<and> patch_answer h (devices_of E w) i s P m')) w"
    and P: "\<And>m'. P m' \<Longrightarrow> msg_type m' = MessageTypeCommandPatch"
    and "within later m"
  shows "wp m (\<lambda>_. performs E h known w) w"
proof (rule wp_weaken [OF wp_both_hold [OF refines wp_both_hold [OF sends wp_within [OF assms(5)]]]], goal_cases)
  case (1 r w')
  then have moves: "moves E h known w w'" by (auto intro: moves_patch moves_stay)
  have "\<exists>xs. sent w' = sent w @ xs \<and> speaks known (devices_of E w') xs"
  proof (cases "r = Ok ()")
    case True
    then obtain m' where m': "spreads E ZeroId MinInt m' w w'" "patch_answer h (devices_of E w) i s P m'"
      and patched: "devices_of E w' = patch_devices h i s (devices_of E w)"
      using 1 by blast
    from m'(1) show ?thesis
    proof (rule speaks_spread)
      assume sync: "msg_type m' = MessageTypeEventSync"
      then have "\<not> P m'" using P [of m'] by (auto simp: message_type_defs)
      then obtain d where "devices_of E w' i = Some d" "NewSyncMessageReader m' = Ok d"
        using m'(2) by (auto simp: patch_answer_def patched split: if_splits)
      moreover from this have "dev_id d = i" using repo.dev_id_law [of E h w' i d] 1 by (simp add: steady_ok_def)
      ultimately show "\<exists>c. NewSyncMessageReader m' = Ok c \<and> (c \<in> known \<or> devices_of E w' (dev_id c) = Some c)" by auto
    qed
  qed (use 1 in \<open>auto intro: exI [of _ "[]"]\<close>)
  then show ?case using 1 moves by (simp add: performs_def)
qed

lemma plays_patchState: "within (plays E h known) (patchStateUseCase E i s)"
proof (rule playsI)
  fix w assume w: "steady_ok E h w"
  have "wp (patchStateUseCase E i s) (\<lambda>r w'. steady_ok E h w' \<and> (devices_of E w' = patch_devices h i s (devices_of E w) \<or>
      devices_of E w' = devices_of E w \<and> (\<exists>e. r = Err e))) w"
    using steady.patchState_refines [OF w, of i s] unfolding wired_usecases by (rule wp_weaken) auto
  from performs_patch [OF w this patchState_sends [OF w] _ later_updates(1)]
  show "wp (patchStateUseCase E i s) (\<lambda>_. performs E h known w) w" by simp
qed

lemma performs_updateState:
  assumes w: "steady_ok E h w" and m: "NewPatchMessageReader m = Ok (i, s)" "msg_type m = MessageTypeCommandPatch"
  shows "wp (updateStateUseCase E a m) (\<lambda>_. performs E h known w) w"
proof -
  have "wp (updateStateUseCase E a m) (\<lambda>r w'. steady_ok E h w' \<and> (devices_of E w' = patch_devices h i s (devices_of E w) \<or>
      devices_of E w' = devices_of E w \<and> (\<exists>e. r = Err e))) w"
    using steady.saveState_refines [OF w m(1), of a] unfolding wired_usecases by (rule wp_weaken) auto
  from performs_patch [OF w this patch_sends [OF w m(1)] _ later_updates(2) [OF m(1)]] show ?thesis
    using m(2) by simp
qed


text \<open>A sync event.\<close>

lemma performs_updateDevice:
  assumes w: "steady_ok E h w" and reader: "NewSyncMessageReader m = Ok c" and c: "c \<in> known" "dev_id c \<noteq> ZeroId"
  shows "wp (updateDeviceUseCase E a m) (\<lambda>_. performs E h known w) w"
proof -
  have "wp (updateDeviceUseCase E a m) (\<lambda>r w'. steady_ok E h w' \<and>
      (devices_of E w' = sync_devices h c (devices_of E w) \<or> devices_of E w' = devices_of E w)) w"
    using steady.saveDevice_refines [OF w reader, of a] unfolding wired_usecases by (rule wp_weaken) auto
  moreover have "wp (updateDeviceUseCase E a m) (\<lambda>_ w'. moment w \<le> moment w') w"
    by (rule wp_within [OF forth.updates_in(4)])
  ultimately show ?thesis
  proof (rule wp_weaken [OF wp_both_hold [OF sync_sends [OF w reader] wp_both_hold]], goal_cases)
    case (1 r w')
    then have moves: "moves E h known w w'" using c(1) by (auto intro: moves_sync moves_stay)
    have "\<exists>xs. sent w' = sent w @ xs \<and> speaks known (devices_of E w') xs"
    proof (cases "sent w' = sent w")
      case False
      then obtain m' where m': "spreads E (msg_id m') MinInt m' w w'" "sync_answer h (devices_of E w) c m m'"
        using 1 by blast
      show ?thesis
      proof (rule speaks_spread [OF m'(1)])
        show "\<exists>c. NewSyncMessageReader m' = Ok c \<and> (c \<in> known \<or> devices_of E w' (dev_id c) = Some c)"
        proof (cases "m' = m")
          case True
          then show ?thesis using reader c(1) by auto
        next
          case new: False
          then obtain d where d: "devices_of E w (dev_id c) = Some d" "NewSyncMessageReader m' = Ok d"
              "sint (dev_version c) \<le> sint (dev_version d)"
            using m'(2) c(2) by (auto simp: sync_answer_def split: option.splits if_splits)
          then have "devices_of E w' (dev_id c) = Some d" using 1 by (auto simp: sync_devices_def)
          moreover have "dev_id d = dev_id c" using repo.dev_id_law [OF steady_okD(2) [OF w] d(1)] by simp
          ultimately show ?thesis using d(2) by auto
        qed
      qed
    qed (auto intro: exI [of _ "[]"])
    then show ?case using 1 moves by (simp add: performs_def)
  qed
qed

text \<open>Telling of stored devices: the answer to a hail, and joining.\<close>

lemma speaks_of_stored:
  assumes "list_all2 syncs ms ds" and "\<forall>d \<in> set ds. D (dev_id d) = Some d" and "m \<in> set ms"
  shows "\<exists>c. NewSyncMessageReader m = Ok c \<and> (c \<in> known \<or> D (dev_id c) = Some c)"
proof -
  obtain k where k: "k < length ms" "m = ms ! k" using assms(3) by (auto simp: in_set_conv_nth)
  then have "syncs m (ds ! k)" "ds ! k \<in> set ds"
    using assms(1) by (auto simp: list_all2_conv_all_nth)
  then show ?thesis using assms(2) by (auto simp: syncs_def)
qed

lemma performs_sending:
  assumes "within (same disk) m" and "within (keeps_ok E h) m" and "within (\<lambda>w w'. moment w \<le> moment w') m"
    and "steady_ok E h w"
    and "wp m (\<lambda>_ w'. \<exists>xs. sent w' = sent w @ xs \<and> speaks known (devices_of E w) xs) w"
  shows "wp m (\<lambda>_. performs E h known w) w"
  using assms devices_of_disk [of "snd (m w)" w E]
  by (auto simp: within_def wp_iff performs_def steady_ok_def intro: moves_stay)

lemma performs_salute:
  assumes w: "steady_ok E h w"
  shows "wp (saluteOnHailUseCase E a m) (\<lambda>_. performs E h known w) w"
proof (rule performs_sending [OF disk.peers_in(3) _ forth.peers_in(3) w])
  show "within (keeps_ok E h) (saluteOnHailUseCase E a m)" by (rule keeps_quiet [OF quiet_hail])
  show "wp (saluteOnHailUseCase E a m) (\<lambda>_ w'. \<exists>xs. sent w' = sent w @ xs \<and> speaks known (devices_of E w) xs) w"
  proof (rule wp_weaken [OF salute_sends [OF w]], elim exE conjE)
    fix r w' xs ds
    assume "sent w' = sent w @ xs" "announces a ds xs" "\<forall>d \<in> set ds. devices_of E w (dev_id d) = Some d"
    then show "\<exists>xs. sent w' = sent w @ xs \<and> speaks known (devices_of E w) xs"
      using speaks_of_stored by (intro exI [of _ xs]) (fastforce simp: announces_def speaks_def)
  qed
qed

lemma plays_greetings:
  "within (plays E h known) (sendHailMessage E)" "within (plays E h known) (sendFarewellMessage E)"
proof -
  show "within (plays E h known) (sendHailMessage E)"
  proof (rule playsI, rule performs_sending [OF disk.greetings_in(1) keeps_greetings(1) forth.greetings_in(1)], assumption)
    fix w assume w: "steady_ok E h w"
    show "wp (sendHailMessage E) (\<lambda>_ w'. \<exists>xs. sent w' = sent w @ xs \<and> speaks known (devices_of E w) xs) w"
    proof (rule wp_weaken [OF hail_sends [OF w]], elim conjE disjE exE)
      fix r w' i ps ms ds qms
      assume inv: "invites E w i ps ms ds" and sub: "subseq qms (List.product ps (NewMessage i h MessageTypeCommandHail [] # ms))"
        and sent: "sent w' = sent w @ map mail qms"
      have "\<exists>c. NewSyncMessageReader m = Ok c \<and> (c \<in> known \<or> devices_of E w (dev_id c) = Some c)"
        if "(p, m) \<in> set qms" "msg_type m = MessageTypeEventSync" for p m
      proof -
        have "m \<in> set (NewMessage i h MessageTypeCommandHail [] # ms)"
          using that(1) list_emb_set [OF sub, of "(p, m)"] by auto
        then have "m \<in> set ms" using that(2) by (auto simp: message_type_defs)
        then show ?thesis using inv speaks_of_stored unfolding invites_def by blast
      qed
      then show "\<exists>xs. sent w' = sent w @ xs \<and> speaks known (devices_of E w) xs"
        using sent by (intro exI [of _ "map mail qms"]) (auto simp: speaks_def)
    qed (auto intro: exI [of _ "[]"])
  qed
  show "within (plays E h known) (sendFarewellMessage E)"
  proof (rule playsI, rule performs_sending [OF disk.greetings_in(2) keeps_greetings(2) forth.greetings_in(2)], assumption)
    fix w assume w: "steady_ok E h w"
    have "\<exists>xs. sent w' = sent w @ xs \<and> speaks known (devices_of E w) xs"
      if "spreads E i MaxInt (NewMessage i h MessageTypeEventFarewell []) w w'" for i w'
      by (rule speaks_spread [OF that]) (simp add: message_type_defs)
    then show "wp (sendFarewellMessage E) (\<lambda>_ w'. \<exists>xs. sent w' = sent w @ xs \<and> speaks known (devices_of E w) xs) w"
      by (intro wp_weaken [OF farewell_sends [OF steady_okD(2) [OF w]]]) (auto intro: exI [of _ "[]"])
  qed
qed

text \<open>Creating and deleting.\<close>

lemma silent_stores:
  "within (same sent) (createDeviceUseCase E t s)" "within (same sent) (deleteDeviceUseCase E i)"
proof -
  have "within (same sent) (devicePersister E d)" for d
    using office_persisters(1) [of E d] by (simp add: within_def post_office_def)
  then show "within (same sent) (createDeviceUseCase E t s)"
    unfolding createDeviceUseCase_def by (intro same.within_data_usecases unsent.random_in unsent.host_in)
  have "within (same sent) (db_Delete E i)" for i by (simp add: run_defs)
  then show "within (same sent) (deleteDeviceUseCase E i)"
    unfolding deleteDeviceUseCase_def by (intro same.within_request_usecases unsent.checks_in)
qed

lemma create_draws:
  fixes E :: "'d external"
  shows "wp (createDeviceUseCase E ty s)
     (\<lambda>r w'. \<forall>i. r = Ok i \<longrightarrow> (\<exists>t. moment w \<le> t \<and> t < moment w' \<and> drawn E t = Some i)) w"
  unfolding createDeviceUseCase_def NewCreateDeviceUseCase_def Let_def
proof (rule wp_seqI [OF wp_within [OF forth.host_in]])
  fix h' and v :: "'d world" assume v: "moment w \<le> moment v"
  have draw: "wp (new_random_id E) (\<lambda>r u. moment u = Suc (moment v) \<and> (\<forall>i. r = Ok i \<longrightarrow> drawn E (moment v) = Some i)) v"
    by (simp add: wp_iff new_random_id_def draw_def drawn_def)
  show "wp (bind (new_random_id E) (\<lambda>i. bind (devicePersister E (NewDevice i h' ty s 0)) (\<lambda>_. return i)))
     (\<lambda>r w'. \<forall>i. r = Ok i \<longrightarrow> (\<exists>t. moment w \<le> t \<and> t < moment w' \<and> drawn E t = Some i)) v"
  proof (rule wp_seqI [OF draw])
    fix i and u :: "'d world" assume u: "moment u = Suc (moment v) \<and> (\<forall>j. Ok i = Ok j \<longrightarrow> drawn E (moment v) = Some j)"
    show "wp (bind (devicePersister E (NewDevice i h' ty s 0)) (\<lambda>_. return i))
       (\<lambda>r w'. \<forall>i. r = Ok i \<longrightarrow> (\<exists>t. moment w \<le> t \<and> t < moment w' \<and> drawn E t = Some i)) u"
      by (rule wp_seqI [OF wp_within [OF forth.persisters_in(1)]])
        (use u v in \<open>auto simp: wp_return intro!: exI [of _ "moment v"]\<close>)
  qed auto
qed auto

lemma plays_create: "within (plays E h known) (createDeviceUseCase E ty s)"
proof (rule playsI)
  fix w assume w: "steady_ok E h w"
  have "wp (createDeviceUseCase E ty s) (\<lambda>r w'. world_ok E h w' \<and> r \<noteq> Panic \<and>
      (\<forall>i. r = Ok i \<longrightarrow> devices_of E w' = save_devices (NewDevice i h ty s 0) (devices_of E w)) \<and>
      (r \<notin> range Ok \<longrightarrow> devices_of E w' = devices_of E w)) w"
    unfolding createDeviceUseCase_def
    by (rule net.createDevice_wp [OF steady_okD(2) [OF w] quiet_devices [OF quiet_random]])
  from wp_both_hold [OF this wp_both_hold [OF create_draws wp_both_hold [OF
      wp_within [OF silent_stores(1)] wp_within [OF forth.updates_in(1)]]]]
  show "wp (createDeviceUseCase E ty s) (\<lambda>_. performs E h known w) w"
  proof (rule wp_weaken, goal_cases)
    case (1 r w')
    have "moves E h known w w'"
      using 1 by (cases r) (auto intro: moves_create moves_stay simp: image_iff)
    then show ?case using 1 w by (auto simp: performs_def steady_ok_def intro: exI [of _ "[]"])
  qed
qed

lemma plays_delete:
  assumes "drop_atomic E"
  shows "within (plays E h known) (deleteDeviceUseCase E i)"
proof (rule playsI)
  fix w assume w: "steady_ok E h w"
  have "within (\<lambda>w w'. moment w \<le> moment w') (deleteDeviceUseCase E i)" by (rule forth.delete_device_in)
  from wp_both_hold [OF deleteDevice_wp [OF steady_okD(2) [OF w] assms, of i] wp_both_hold [OF
      wp_within [OF silent_stores(2)] wp_within [OF this]]]
  show "wp (deleteDeviceUseCase E i) (\<lambda>_. performs E h known w) w"
  proof (rule wp_weaken, goal_cases)
    case (1 r w')
    have "moves E h known w w'"
      using 1 by (cases "r = Ok True") (auto intro: moves_forget moves_stay)
    then show ?case using 1 w by (auto simp: performs_def steady_ok_def intro: exI [of _ "[]"])
  qed
qed


section \<open>Requests and datagrams\<close>

lemma plays_network:
  "within (plays E h known) (joinNetwork E)" "within (plays E h known) (leaveNetwork E)"
  unfolding joinNetwork_def leaveNetwork_def by (intro plays.within_rules plays_greetings plays_readers)+

lemma plays_request:
  assumes "drop_atomic E" and "(path, handler) \<in> set (routes E)"
  shows "within (plays E h known) (server_Handle path handler req)"
proof -
  have "within (plays E h known) (handler args content)" for args content
    using assms(2) unfolding routes_def
    by (auto intro!: plays.within_handlers plays.within_request_usecases plays_readers plays_patchState
        plays_create plays_delete [OF assms(1)] plays_network)
  then show ?thesis unfolding server_Handle_def by (intro plays.within_rules)
qed

lemma aloof_performs:
  assumes "disk w' = disk w" and "sent w' = sent w" and "moment w \<le> moment w'" and "steady_ok E h w'"
  shows "performs E h known w w'"
  using assms devices_of_disk [OF assms(1), of E]
  by (auto simp: performs_def intro: moves_stay exI [of _ "[]"])

lemma performs_peers:
  assumes "steady_ok E h w"
  shows "wp (updatePeerUseCase E a m) (\<lambda>_. performs E h known w) w"
    and "wp (deletePeerUseCase E a m) (\<lambda>_. performs E h known w) w"
proof -
  have "within (\<lambda>w w'. disk w' = disk w \<and> sent w' = sent w \<and> moment w \<le> moment w') (updatePeerUseCase E a m)"
    "within (\<lambda>w w'. disk w' = disk w \<and> sent w' = sent w \<and> moment w \<le> moment w') (deletePeerUseCase E a m)"
    unfolding updatePeerUseCase_def deletePeerUseCase_def
    by (intro aloof.within_message_usecases aloof_methods)+
  note frames = this [THEN wp_within, of w]
  note ok = quiet_wp [OF quiet_peer steady_okD(2) [OF assms]] quiet_wp [OF quiet_farewell steady_okD(2) [OF assms]]
  show "wp (updatePeerUseCase E a m) (\<lambda>_. performs E h known w) w" "wp (deletePeerUseCase E a m) (\<lambda>_. performs E h known w) w"
    using assms by (auto intro: wp_weaken [OF wp_both_hold [OF frames(1) ok(1)]] wp_weaken [OF wp_both_hold [OF frames(2) ok(2)]]
        simp: steady_ok_def intro!: aloof_performs)
qed

lemma performs_dispatch:
  assumes w: "steady_ok E h w" and mail: "readable_mail (datagram m)" and known: "\<And>c. syncs m c \<Longrightarrow> c \<in> known"
  shows "wp (dispatch_packet E a m) (\<lambda>r w'. performs E h known w w' \<and> r \<noteq> Panic) w"
proof -
  have stays: "performs E h known w w" by (rule aloof_performs) (simp_all add: w)
  have "wp (dispatch_packet E a m) (\<lambda>_. performs E h known w) w"
  proof (cases rule: dispatch_packet_cases [of m E a])
    case patch
    show ?thesis
    proof (cases "NewPatchMessageReader m \<in> range Ok")
      case True
      then show ?thesis using performs_updateState [OF w _ patch(1)] unfolding patch(2) by auto
    next
      case False
      show ?thesis unfolding patch(2) by (rule wp_weaken [OF updateState_unread [OF False]]) (use stays in simp)
    qed
  next
    case sync
    then obtain c where "NewSyncMessageReader m = Ok c" "dev_id c \<noteq> ZeroId"
      using mail by (auto simp: readable_mail_def)
    then show ?thesis unfolding sync(2) by (intro performs_updateDevice [OF w]) (simp_all add: known syncs_def sync)
  qed (use performs_salute [OF w] performs_peers [OF w] stays in \<open>simp_all add: wp_raise\<close>)
  moreover have "wp (dispatch_packet E a m) (\<lambda>r _. r \<noteq> Panic) w"
    using mail by (auto intro!: wp_weaken [OF dispatch_ok [OF steady_okD(2) [OF w]]] simp: readable_mail_def)
  ultimately show ?thesis by (rule wp_both_hold)
qed

lemma plays_packet:
  assumes w: "steady_ok E h w" and mail: "readable_mail data"
    and known: "\<And>m c. data = datagram m \<Longrightarrow> syncs m c \<Longrightarrow> c \<in> known"
  shows "wp (receivedMessageHandler E a data) (\<lambda>r w'. plays E h known w w' \<and> r \<noteq> Panic) w"
proof -
  obtain m where m: "data = datagram m" using mail by (auto simp: readable_mail_def)
  note ok = steady_okD(2) [OF w]
  show ?thesis
  proof (cases "seen E (msg_id m) w")
    case True
    from wp_both_hold [OF receive_seen [OF ok True] wp_within [OF forth.packet_in]] show ?thesis
      unfolding m by (rule wp_weaken) (use w in \<open>auto simp: steady_ok_def intro!: performs_plays aloof_performs\<close>)
  next
    case False
    show ?thesis
      unfolding m
    proof (rule receive_new [OF ok False])
      fix v assume v: "world_ok E h v" "handled_in E m w v"
      then have st: "steady_ok E h v" using w by (simp add: steady_ok_def)
      then have "plays E h known w v"
        using v(2) by (intro performs_plays aloof_performs) (simp_all add: handled_in_def)
      then show "wp (dispatch_packet E a m) (\<lambda>r w'. plays E h known w w' \<and> r \<noteq> Panic) v"
        by (intro wp_weaken [OF performs_dispatch [OF st mail [unfolded m] known [OF m]]])
          (auto intro: plays.order_trans performs_plays)
    qed
  qed
qed

end
