(* ===== verification/Demo.thy ===== *)
theory Demo
  imports Network
begin

text \<open>
  A concrete outside world and concrete states of a process: a store in memory, a clock that ticks
  once per call, one private address, a socket that accepts every datagram. The theorems about the
  wired program are applied to it.
\<close>

section \<open>An example of a process\<close>

definition demo_machine :: string where
  "demo_machine = ''6ba7b810-9dad-11d1-80b4-00c04fd430c8''"

definition demo :: "(bytes \<times> bytes) list external" where
  "demo =
     \<lparr>uuid = demo_uuid, badger_db = demo_badger, clock = int, key_order = (\<lambda>t ks. ks), peer_order = (\<lambda>t ps. ps),
      machine_ID = (\<lambda>t. Inr demo_machine),
      InterfaceAddrs = (\<lambda>t. Inr [IPNet [127, 0, 0, 1], IPNet [192, 168, 1, 7]]),
      ListenPacket = (\<lambda>t. Inr 3), ResolveUDPAddr = (\<lambda>t a. None), WriteTo = (\<lambda>t a d. None),
      CloseConn = (\<lambda>t. None), ListenTCP = (\<lambda>t a. None), Shutdown = (\<lambda>t d. None)\<rparr>"

definition demo_host :: Id where
  "demo_host = NewSHA1 demo_uuid ZeroId (StringToBytes demo_machine)"

lemma demo_env_ok: "env_ok demo"
  by (simp add: env_ok_def demo_def demo_badger_ok demo_ids monoI) (simp add: demo_uuid_def)

lemma demo_opens: "opens demo"
  by (simp add: opens_def demo_def demo_badger_def)

lemma demo_drops: "drops demo"
  by (simp add: drops_def demo_def demo_badger_def)

lemma demo_drop_atomic: "drop_atomic demo"
  by (rule drops_atomic [OF demo_drops])

lemma demo_able: "able demo"
  by (simp add: able_def demo_def demo_accepts) (simp add: demo_uuid_def)

lemma empty_table_ok: "table_ok U (\<lambda>_. Map.empty)"
  by (simp add: table_ok_def rows_ok_def index_ok_def)

lemma demo_start_ok: "start_ok demo demo_host a b []"
proof -
  have "store demo_badger [] = (\<lambda>_. Map.empty)"
    by (intro ext) (simp add: store_def demo_kv)
  then have "table_ok (uuid demo) (store (badger_db demo) [])"
    by (simp add: demo_def empty_table_ok)
  moreover have "keys_ok (badger_db demo) []"
    by (simp add: keys_ok_def demo_def demo_kv)
  moreover have "fst (preferences_GetHostId (uuid demo) (machine_ID demo t) (NewPreferences a b)) = Ok demo_host" for t
    by (simp add: preferences_GetHostId_def NewPreferences_def demo_def demo_uuid_def demo_machine_def
        demo_host_def Let_def)
  ultimately show ?thesis using demo_env_ok by (simp add: start_ok_def)
qed

definition demo_world :: "(bytes \<times> bytes) list world" where
  "demo_world = (NewWorld 8080 8081 [])\<lparr>udp := \<lparr>port = 8081, connection = Some 3\<rparr>\<rparr>"

lemma demo_world_ok: "world_ok demo demo_host demo_world"
  using world_ok_start [OF demo_start_ok] by (simp add: demo_world_def)

text \<open>The same process after it has stored a device.\<close>

definition demo_with :: "Device \<Rightarrow> (bytes \<times> bytes) list world" where
  "demo_with d = snd (devicePersister demo d demo_world)"

lemma demo_persists: "fst (devicePersister demo d w) = Ok ()"
  using persisters_Ok(1) [of demo d w] demo_able by (simp add: wp_iff able_def)

lemma demo_world_empty: "devices_of demo demo_world = Map.empty"
  by (intro ext) (simp add: devices_of_def world_table_def store_def stored_device_def demo_def demo_kv
      demo_world_def NewWorld_def)

lemma demo_with:
  shows "steady_ok demo demo_host (demo_with d)"
    and "dev_id d \<noteq> ZeroId \<Longrightarrow> devices_of demo (demo_with d) = [dev_id d \<mapsto> d]"
    and "message_cache (demo_with d) = NewMessageCache"
    and "peer_cache (demo_with d) = NewPeerCache"
    and "udp (demo_with d) = \<lparr>port = 8081, connection = Some 3\<rparr>"
proof -
  have "wp (devicePersister demo d) (\<lambda>r w'. world_ok demo demo_host w' \<and>
      (r = Ok () \<longrightarrow> devices_of demo w' = save_devices d (devices_of demo demo_world))) demo_world"
    by (rule wp_weaken [OF devicePersister_law [OF demo_world_ok]]) simp
  then show "steady_ok demo demo_host (demo_with d)"
    and "dev_id d \<noteq> ZeroId \<Longrightarrow> devices_of demo (demo_with d) = [dev_id d \<mapsto> d]"
    using demo_persists [of d demo_world]
    by (simp_all add: wp_iff demo_with_def steady_ok_def demo_opens save_devices_def demo_world_empty)
  have "post_office (demo_with d) = post_office demo_world"
    using office_persisters(1) [of demo d] by (simp add: within_def demo_with_def)
  then show "message_cache (demo_with d) = NewMessageCache" "peer_cache (demo_with d) = NewPeerCache"
    "udp (demo_with d) = \<lparr>port = 8081, connection = Some 3\<rparr>"
    by (simp_all add: post_office_def demo_world_def NewWorld_def)
qed

lemma demo_unseen: "\<not> seen demo i demo_world" "\<not> seen demo i (demo_with d)"
  by (simp_all add: seen_def demo_with(3)) (simp add: demo_world_def NewWorld_def)

lemma demo_reaches: "reaches demo"
  by (simp add: reaches_def demo_def)

text \<open>The same process among peers.\<close>

definition demo_among :: "Peer list \<Rightarrow> (bytes \<times> bytes) list world" where
  "demo_among ps = demo_world\<lparr>peer_cache := foldr peerCache_AddPeer ps NewPeerCache\<rparr>"

lemma demo_among:
  shows "steady_ok demo demo_host (demo_among ps)" and "\<not> seen demo i (demo_among ps)"
    and "devices_of demo (demo_among ps) = Map.empty" and "deadline (message_cache (demo_among ps)) m p = None"
    and "udp (demo_among ps) = \<lparr>port = 8081, connection = Some 3\<rparr>" and "sent (demo_among ps) = []"
    and "peer_cache (demo_among ps) = foldr peerCache_AddPeer ps NewPeerCache"
proof -
  have "peers_ok (foldr peerCache_AddPeer ps NewPeerCache)"
    by (induction ps) (auto intro: peers_ok_intros)
  then show "steady_ok demo demo_host (demo_among ps)"
    using world_ok_peers [OF demo_world_ok] demo_opens by (simp add: demo_among_def steady_ok_def)
  show "devices_of demo (demo_among ps) = Map.empty"
    using demo_world_empty by (simp add: demo_among_def devices_of_def world_table_def)
qed (simp_all add: demo_among_def seen_def demo_world_def NewWorld_def)

lemma demo_one_peer:
  "ran (known_peer (peer_cache (demo_among [p]))) = {p}" "length (peers (peer_cache (demo_among [p]))) = 1"
  by (simp_all add: demo_among(7)) (simp add: peerCache_AddPeer_def NewPeerCache_def)

definition demo_request :: "string \<Rightarrow> request" where
  "demo_request s = \<lparr>PathValue = (\<lambda>k. s), ParseForm = Inr [], ReadAll = ''''\<rparr>"

lemma demo_request [simp]:
  "PathValue (demo_request s) k = s" "ParseForm (demo_request s) = Inr []" "ReadAll (demo_request s) = []"
  by (simp_all add: demo_request_def)

text \<open>The same outside, but while another handler has the store open, until moment \<open>n\<close>.\<close>

definition demo_locked :: "nat \<Rightarrow> (bytes \<times> bytes) list external" where
  "demo_locked n = demo\<lparr>badger_db := demo_badger\<lparr>Open := (\<lambda>t d. if t < n then Some (ErrExternal ''lock'') else None)\<rparr>\<rparr>"

lemma demo_locked:
  "world_ok (demo_locked n) demo_host w = world_ok demo demo_host w" "devices_of (demo_locked n) w = devices_of demo w"
  "seen (demo_locked n) i w = seen demo i w"
proof -
  let ?B = "demo_badger\<lparr>Open := (\<lambda>t d. if t < n then Some (ErrExternal ''lock'') else None)\<rparr>"
  have B: "kv ?B = kv demo_badger" by (intro ext) (simp add: kv_def)
  have "badger_ok ?B" using demo_badger_ok unfolding badger_ok_def B by simp
  then have env: "env_ok (demo_locked n)"
    using demo_env_ok unfolding env_ok_def demo_locked_def by (simp add: demo_def)
  have table: "world_table (demo_locked n) w = world_table demo w" for w
    by (intro ext, simp add: world_table_def store_def B demo_locked_def) (simp add: demo_def)
  have keys: "keys_ok (badger_db (demo_locked n)) d = keys_ok (badger_db demo) d" for d
    by (simp add: keys_ok_def demo_locked_def B) (simp add: demo_def)
  have rest: "uuid (demo_locked n) = uuid demo" "machine_ID (demo_locked n) = machine_ID demo"
    "clock (demo_locked n) = clock demo" by (simp_all add: demo_locked_def)
  show "world_ok (demo_locked n) demo_host w = world_ok demo demo_host w"
    using env demo_env_ok by (simp add: world_ok_def disk_ok_def table keys host_is_def rest)
  show "devices_of (demo_locked n) w = devices_of demo w" by (simp add: devices_of_def table rest)
  show "seen (demo_locked n) i w = seen demo i w" by (simp add: seen_def rest)
qed

lemma setTransaction_Open: "setTransaction (B\<lparr>Open := f\<rparr>) i pairs d = setTransaction B i pairs d"
proof -
  have "setAttributes (B\<lparr>Open := f\<rparr>) i pairs d = setAttributes B i pairs d" for d
    by (induction B i pairs d rule: setAttributes.induct) (simp_all split: result.split sum.split)
  then show ?thesis by (simp add: setTransaction_def split: result.split sum.split)
qed

lemma demo_locked_persists:
  assumes "n \<le> moment v"
  shows "fst (devicePersister (demo_locked n) d v) = Ok ()"
proof -
  let ?B = "demo_badger\<lparr>Open := (\<lambda>t d. if t < n then Some (ErrExternal ''lock'') else None)\<rparr>"
  have "fst (database_Set ?B (moment v) ks i data e) = Ok ()" for ks i data e
    using setTransaction_accepts [OF demo_accepts, of i "in_order data ks" e] assms
    unfolding database_Set_def setTransaction_Open by (auto simp: demo_badger_def)
  then show ?thesis
    by (simp add: devicePersister_def NewCreateDeviceDataAdapter_def db_Set_def on_disk_def case_prod_unfold demo_locked_def)
qed

end
