(* ===== verification/Cluster.thy ===== *)
theory Cluster
  imports Hosts Demo
begin

text \<open>
  A network of hosts that each run the program, with a disk and an outside of their own. The datagrams
  between them may be lost, repeated, delayed and reordered, and hosts may stop and start again. The
  network refines the specification in \<open>Replication\<close>; the theorems state what that means for the
  devices the hosts store.
\<close>

section \<open>The network\<close>

text \<open>
  All hosts use the same ports. A datagram is handed to a host under any sender's address, as often as
  one likes, if some host sent it at some time; a host that ends and starts again keeps its disk.
\<close>

type_synonym ('n, 'd) network = "'n \<Rightarrow> 'd world"

definition on_wire :: "('n, 'd) network \<Rightarrow> bytes \<Rightarrow> bool" where
  "on_wire N data \<longleftrightarrow> (\<exists>n. data \<in> snd ` set (sent (N n)))"

definition restarted :: "int \<Rightarrow> int \<Rightarrow> 'd world \<Rightarrow> 'd world" where
  "restarted a b w = (NewWorld a b (disk w))\<lparr>moment := moment w, sent := sent w\<rparr>"

inductive network_step :: "('n \<Rightarrow> 'd external) \<Rightarrow> int \<Rightarrow> int \<Rightarrow> ('n, 'd) network \<Rightarrow> ('n, 'd) network \<Rightarrow> bool"
  for E a b where
  request: "(path, handler) \<in> set (routes (E n)) \<Longrightarrow> server_Handle path handler req (N n) = (r, w) \<Longrightarrow>
    network_step E a b N (N(n := w))"
| packet: "on_wire N data \<Longrightarrow> connection (udp (N n)) = Some c \<Longrightarrow>
    receivedMessageHandler (E n) sender data (N n) = (r, w) \<Longrightarrow> network_step E a b N (N(n := w))"
| idle: "network_step E a b N (N(n := (N n)\<lparr>moment := moment (N n) + k\<rparr>))"
| restart: "network_step E a b N (N(n := restarted a b (N n)))"

text \<open>
  The hosts have different identifiers and start with empty stores that open whenever they are asked, and no
  deletion fails with the work half done.
\<close>

definition network_start :: "('n \<Rightarrow> 'd external) \<Rightarrow> ('n \<Rightarrow> Id) \<Rightarrow> int \<Rightarrow> int \<Rightarrow> ('n, 'd) network \<Rightarrow> bool" where
  "network_start E host a b N \<longleftrightarrow> inj host \<and> (\<forall>n. \<exists>d. N n = NewWorld a b d \<and> start_ok (E n) (host n) a b d \<and>
     opens (E n) \<and> drop_atomic (E n) \<and> devices_of (E n) (N n) = Map.empty)"

definition replicas_of :: "('n \<Rightarrow> 'd external) \<Rightarrow> ('n, 'd) network \<Rightarrow> 'n replicas" where
  "replicas_of E N = (\<lambda>n. replica_of (E n) (N n))"

lemma replicas_of_upd: "replicas_of E (N(n := w)) = (replicas_of E N)(n := replica_of (E n) w)"
  by (auto simp: replicas_of_def)

definition network_ok :: "('n \<Rightarrow> 'd external) \<Rightarrow> ('n \<Rightarrow> Id) \<Rightarrow> ('n, 'd) network \<Rightarrow> bool" where
  "network_ok E host N \<longleftrightarrow> (\<forall>n. steady_ok (E n) (host n) (N n) \<and> mail_ok (N n))"


section \<open>The network refines the specification\<close>

lemma host_step_mono: "host_step ids h K r r' \<Longrightarrow> K \<subseteq> K' \<Longrightarrow> host_step ids h K' r r'"
  by (induction rule: host_step.induct) (auto intro: host_step.intros)

lemma host_step_told_grows: "host_step ids h K r r' \<Longrightarrow> told r \<subseteq> told r'"
  by (induction rule: host_step.induct) auto

text \<open>The steps of one host, while the events under way stay, are steps of the network.\<close>

lemma network_does_many:
  assumes "(host_step (ids n) (host n) (heard S))\<^sup>*\<^sup>* (S n) r"
  shows "(network_does ids host)\<^sup>*\<^sup>* S (S(n := r))"
proof -
  have "(network_does ids host)\<^sup>*\<^sup>* S (S(n := r)) \<and> told (S n) \<subseteq> told r"
    using assms
  proof (induction rule: rtranclp_induct)
    case (step r r')
    have "heard S \<subseteq> heard (S(n := r))" 
      unfolding heard_def by (rule UN_mono) (use step.IH in auto)
    then have "host_step (ids n) (host n) (heard (S(n := r))) ((S(n := r)) n) r'"
      using step.hyps(2) by (simp add: host_step_mono)
    then have "network_does ids host (S(n := r)) ((S(n := r))(n := r'))" by (rule network_does.intros)
    then have "(network_does ids host)\<^sup>*\<^sup>* S (S(n := r'))"
      unfolding fun_upd_upd by (rule rtranclp.rtrancl_into_rtrancl [OF conjunct1 [OF step.IH]])
    then show ?case using step.IH host_step_told_grows [OF step.hyps(2)] by blast
  qed simp
  then show ?thesis ..
qed

lemma heard_replicas: "heard (replicas_of E N) = {c. \<exists>m. on_wire N (datagram m) \<and> syncs m c}"
  by (auto simp: heard_def replicas_of_def replica_of_def told_of_def on_wire_def)

lemma heard_proper: "network_ok E host N \<Longrightarrow> ZeroId \<notin> dev_id ` heard (replicas_of E N)"
  unfolding heard_replicas
  by (auto simp: network_ok_def mail_ok_def on_wire_def readable_mail_def syncs_def) (force)

lemma plays_refines:
  assumes "network_ok E host N" and "plays (E n) (host n) (heard (replicas_of E N)) (N n) w"
  shows "network_ok E host (N(n := w)) \<and>
    (network_does (\<lambda>n. drawn (E n)) host)\<^sup>*\<^sup>* (replicas_of E N) (replicas_of E (N(n := w)))"
proof -
  have "steady_ok (E n) (host n) w \<and> mail_ok w \<and> (host_step (drawn (E n)) (host n) (heard (replicas_of E N)))\<^sup>*\<^sup>*
      (replicas_of E N n) (replica_of (E n) w)"
    using assms(2) heard_proper [OF assms(1)] assms(1) by (simp add: plays_def network_ok_def replicas_of_def)
  then show ?thesis
    using network_does_many [of "\<lambda>n. drawn (E n)" n host "replicas_of E N"] assms(1)
    by (simp add: replicas_of_upd network_ok_def)
qed

lemma restarted_ok: "start_ok E h a b d \<Longrightarrow> world_ok E h w \<Longrightarrow> world_ok E h (restarted a b w)"
  by (simp add: world_ok_def disk_ok_def world_table_def host_is_def restarted_def NewWorld_def start_ok_def
      peers_ok_New cache_ok_New)

lemma restarted_plays:
  assumes "start_ok E h a b d"
  shows "plays E h known w (restarted a b w)"
proof -
  have "steady_ok E h (restarted a b w)" if "steady_ok E h w"
    using that restarted_ok [OF assms] by (simp add: steady_ok_def)
  moreover have "disk (restarted a b w) = disk w" "sent (restarted a b w) = sent w" "moment (restarted a b w) = moment w"
    by (simp_all add: restarted_def NewWorld_def)
  ultimately show ?thesis
    using performs_plays [OF aloof_performs, of "restarted a b w" w E h known] by (auto simp: plays_def)
qed

lemma network_step_refines:
  assumes hosts: "\<And>n. \<exists>d. start_ok (E n) (host n) a b d" "\<And>n. drop_atomic (E n)"
    and "network_step E a b N N'" and ok: "network_ok E host N"
  shows "network_ok E host N' \<and> (network_does (\<lambda>n. drawn (E n)) host)\<^sup>*\<^sup>* (replicas_of E N) (replicas_of E N')"
  using assms(3)
proof cases
  case (request path handler n req r w)
  show ?thesis
    unfolding request(1) by (rule plays_refines [OF ok withinD [OF plays_request [OF hosts(2) request(2)] request(3)]])
next
  case (packet data n c sender r w)
  have "readable_mail data" using packet(2) ok by (auto simp: on_wire_def network_ok_def mail_ok_def)
  from plays_packet [OF _ this, of "E n" "host n" "N n" "heard (replicas_of E N)" sender] ok packet(2)
  have "plays (E n) (host n) (heard (replicas_of E N)) (N n) w"
    by (auto simp: heard_replicas network_ok_def wp_iff packet(4))
  then show ?thesis unfolding packet(1) by (rule plays_refines [OF ok])
next
  case (idle n k)
  have "plays (E n) (host n) (heard (replicas_of E N)) (N n) ((N n)\<lparr>moment := moment (N n) + k\<rparr>)"
    using ok by (intro performs_plays aloof_performs) (simp_all add: network_ok_def steady_ok_def)
  then show ?thesis unfolding idle(1) by (rule plays_refines [OF ok])
next
  case (restart n)
  from hosts(1) [of n] show ?thesis
    unfolding restart(1) using plays_refines [OF ok restarted_plays] by blast
qed

lemma network_refines:
  assumes start: "network_start E host a b N" and "(network_step E a b)\<^sup>*\<^sup>* N N'"
  shows "network_ok E host N' \<and> (network_does (\<lambda>n. drawn (E n)) host)\<^sup>*\<^sup>* (replicas_of E N) (replicas_of E N')"
  using assms(2)
proof (induction rule: rtranclp_induct)
  case base
  have "steady_ok (E n) (host n) (N n) \<and> mail_ok (N n)" for n
  proof -
    obtain d where "N n = NewWorld a b d" "start_ok (E n) (host n) a b d" "opens (E n)"
      using start by (auto simp: network_start_def)
    then show ?thesis using world_ok_start by (auto simp: steady_ok_def mail_ok_def NewWorld_def)
  qed
  then show ?case by (simp add: network_ok_def)
next
  case (step M N')
  have "\<exists>d. start_ok (E n) (host n) a b d" "drop_atomic (E n)" for n using start unfolding network_start_def by blast+
  from network_step_refines [OF this step.hyps(2)] step.IH show ?case by (meson rtranclp_trans)
qed

lemma network_start_order:
  "network_start E host a b N \<Longrightarrow> in_order ids host (replicas_of E N)"
  by (rule in_order_empty)
    (metis network_start_def replicas_of_def replica_of_def replica.select_convs(1,2) told_of_Nil NewWorld_def world.select_convs(8))

text \<open>
  No two of the hosts' random identifiers up to now are the same, and no host has called the outside
  so often that a version might wrap around.
\<close>

abbreviation (input) fair_network :: "('n \<Rightarrow> 'd external) \<Rightarrow> ('n, 'd) network \<Rightarrow> bool" where
  "fair_network E N \<equiv> fair_draws (\<lambda>n. drawn (E n)) (replicas_of E N)"

lemma network_in_order':
  assumes "network_start E host a b N" and "(network_step E a b)\<^sup>*\<^sup>* N N'" and "fair_network E N'"
  shows "in_order (\<lambda>n. drawn (E n)) host (replicas_of E N')"
  using network_refines [OF assms(1,2)] network_in_order [OF _ network_start_order [OF assms(1)] _ assms(3)] assms(1)
  by (auto simp: network_start_def)


section \<open>How often a message is handled\<close>

text \<open>
  Only a shutdown forgets the messages in quarantine: every other request keeps their deadlines.
\<close>

lemma holds_request:
  assumes "(path, handler) \<in> set (routes E)" and "path \<noteq> ''POST /shutdown''"
  shows "within (holds E) (server_Handle path handler req)"
proof -
  have others: "within (holds E) (peers_AddPeer p)" "within (holds E) (db_Delete E i)" "within (holds E) (udp_Observe E)"
    "within (holds E) (udp_Stop E)" for p i
    by (rule withinI, rule holds_other; simp add: run_defs)+
  have network: "within (holds E) (joinNetwork E)" "within (holds E) (leaveNetwork E)"
    unfolding joinNetwork_def leaveNetwork_def by (intro holds.within_rules holds.greetings_in others)+
  have delete: "within (holds E) (deleteDeviceUseCase E i)" for i
    unfolding deleteDeviceUseCase_def by (intro holds.within_request_usecases holds.checks_in others)
  have "within (holds E) (handler args content)" for args content
    using assms unfolding routes_def
    by (auto intro!: holds.within_handlers holds.within_request_usecases holds.checks_in holds.providers_in
        holds.updates_in holds.all_peers_in others network delete)
  then show ?thesis unfolding server_Handle_def by (intro holds.within_rules)
qed

text \<open>
  A run of the network from \<open>N\<close> to \<open>N'\<close> that counts, for each host, in \<open>c\<close> how often a message was handled: it
  was delivered so often while the host had not seen it; and in \<open>F\<close> how often the host forgot the messages
  that it had seen, by a request to shut down or a restart. Any other datagrams may be delivered in
  between, also ones that no host sent, and anything may be requested.
\<close>

inductive handlings :: "('n \<Rightarrow> 'd external) \<Rightarrow> int \<Rightarrow> int \<Rightarrow> Message \<Rightarrow> ('n, 'd) network \<Rightarrow>
    ('n \<Rightarrow> nat) \<Rightarrow> ('n \<Rightarrow> nat) \<Rightarrow> ('n, 'd) network \<Rightarrow> bool"
  for E a b m N where
  start: "handlings E a b m N (\<lambda>_. 0) (\<lambda>_. 0) N"
| handled: "handlings E a b m N c F N' \<Longrightarrow> \<not> seen (E n) (msg_id m) (N' n) \<Longrightarrow>
    receivedMessageHandler (E n) sender (datagram m) (N' n) = (r, w) \<Longrightarrow>
    handlings E a b m N (c(n := Suc (c n))) F (N'(n := w))"
| dropped: "handlings E a b m N c F N' \<Longrightarrow> seen (E n) (msg_id m) (N' n) \<Longrightarrow>
    receivedMessageHandler (E n) sender (datagram m) (N' n) = (r, w) \<Longrightarrow> handlings E a b m N c F (N'(n := w))"
| other: "handlings E a b m N c F N' \<Longrightarrow> data \<noteq> datagram m \<Longrightarrow>
    receivedMessageHandler (E n) sender data (N' n) = (r, w) \<Longrightarrow> handlings E a b m N c F (N'(n := w))"
| request: "handlings E a b m N c F N' \<Longrightarrow> (path, handler) \<in> set (routes (E n)) \<Longrightarrow> path \<noteq> ''POST /shutdown'' \<Longrightarrow>
    server_Handle path handler req (N' n) = (r, w) \<Longrightarrow> handlings E a b m N c F (N'(n := w))"
| shutdown: "handlings E a b m N c F N' \<Longrightarrow> (''POST /shutdown'', handler) \<in> set (routes (E n)) \<Longrightarrow>
    server_Handle ''POST /shutdown'' handler req (N' n) = (r, w) \<Longrightarrow>
    handlings E a b m N c (F(n := Suc (F n))) (N'(n := w))"
| restart: "handlings E a b m N c F N' \<Longrightarrow>
    handlings E a b m N c (F(n := Suc (F n))) (N'(n := restarted a b (N' n)))"
| idle: "handlings E a b m N c F N' \<Longrightarrow> handlings E a b m N c F (N'(n := (N' n)\<lparr>moment := moment (N' n) + j\<rparr>))"

text \<open>The message is held by a host until a time \<open>T\<close> at least.\<close>

definition held_until :: "int \<Rightarrow> Id \<Rightarrow> 'd world \<Rightarrow> bool" where
  "held_until T i w \<longleftrightarrow> (\<exists>p D. deadline (message_cache w) i p = Some D \<and> T \<le> D)"

lemma held_until_seen: "held_until T i w \<Longrightarrow> clock E (moment w) \<le> T \<Longrightarrow> seen E i w"
  by (force simp: held_until_def seen_def)

lemma held_until_holds:
  "held_until T i w \<Longrightarrow> holds E w w' \<Longrightarrow> world_ok E h w \<Longrightarrow> clock E (moment w') \<le> T \<Longrightarrow> held_until T i w'"
  using holdsD(3) [of E w w'] world_okD(6,7) [of E h w] by (fastforce simp: held_until_def env_ok_def)

lemma handled_held:
  assumes w: "world_ok E h w" and new: "\<not> seen E (msg_id m) w"
    and run: "receivedMessageHandler E a (datagram m) w = (r, w')"
    and soon: "clock E (moment w') \<le> T" and T: "T \<le> clock E (moment w) + timeToLive"
  shows "held_until T (msg_id m) w'"
proof -
  have "wp (receivedMessageHandler E a (datagram m)) (\<lambda>_ v. \<exists>u. world_ok E h u \<and> handled_in E m w u \<and> holds E u v) w"
  proof (rule receive_new [OF w new])
    fix u assume u: "world_ok E h u" "handled_in E m w u"
    have "within (holds E) (dispatch_packet E a m)"
      unfolding dispatch_packet_def dispatch_def by (intro holds.within_rules holds.peers_in holds.updates_in)
    then show "wp (dispatch_packet E a m) (\<lambda>_ v. \<exists>u. world_ok E h u \<and> handled_in E m w u \<and> holds E u v) u"
      using u by (auto intro: wp_weaken [OF wp_within])
  qed
  then obtain u where u: "world_ok E h u" "handled_in E m w u" "holds E u w'" using run by (auto simp: wp_iff)
  then have "held_until T (msg_id m) u" using T by (fastforce simp: handled_in_def held_until_def)
  then show ?thesis using held_until_holds u(1,3) soon by blast
qed

text \<open>
  What holds of a host that handled the message \<open>c\<close> times and forgot it \<open>F\<close> times, as long as its clock has
  not passed the window: it handled the message no more often than it forgot it, or once more, and then
  still holds it.
\<close>

definition counted :: "'d external \<Rightarrow> Id \<Rightarrow> Id \<Rightarrow> int \<Rightarrow> nat \<Rightarrow> nat \<Rightarrow> 'd world \<Rightarrow> bool" where
  "counted E h i T c F w \<longleftrightarrow> world_ok E h w \<and>
     (clock E (moment w) \<le> T \<longrightarrow> c \<le> F \<or> c = Suc F \<and> held_until T i w)"

lemma clock_before:
  assumes "world_ok E h w" and "moment w \<le> moment w'" and "clock E (moment w') \<le> T"
  shows "clock E (moment w) \<le> T"
  using env_okD(6) [OF world_okD(7) [OF assms(1)], of "moment w" "moment w'"] assms(2,3) by simp

lemma counted_stays:
  assumes "counted E h i T c F w" and "world_ok E h w'" and "holds E w w'"
  shows "counted E h i T c F w'"
  using assms clock_before [of E h w w' T] held_until_holds [of T i w E w' h]
  by (auto simp: counted_def holds_def)

lemma counted_forgets:
  assumes "counted E h i T c F w" and "world_ok E h w'" and "moment w \<le> moment w'"
  shows "counted E h i T c (Suc F) w'"
  using assms clock_before [of E h w w' T] by (auto simp: counted_def)

lemma counted_handles:
  assumes w: "counted E h (msg_id m) T c F w" and "\<not> seen E (msg_id m) w"
    and run: "receivedMessageHandler E a (datagram m) w = (r, w')" and T: "T \<le> clock E (moment w) + timeToLive"
  shows "counted E h (msg_id m) T (Suc c) F w'"
proof -
  have ok: "world_ok E h w" using w by (simp add: counted_def)
  have w': "world_ok E h w'" using wpD [OF receive_ok [OF ok] run] by simp
  moreover have "Suc c \<le> Suc F \<and> held_until T (msg_id m) w'" if soon: "clock E (moment w') \<le> T"
  proof
    have "clock E (moment w) \<le> T" by (rule clock_before [OF ok withinD [OF forth.packet_in run] soon])
    then show "Suc c \<le> Suc F" using w assms(2) held_until_seen by (auto simp: counted_def)
    show "held_until T (msg_id m) w'" by (rule handled_held [OF ok assms(2) run soon T])
  qed
  ultimately show ?thesis by (auto simp: counted_def le_Suc_eq)
qed

text \<open>The bound for each host, by induction on the run.\<close>

lemma handlings_counted:
  assumes "handlings E a b m N c F N'" and start: "\<And>n. world_ok (E n) (host n) (N n)" and drop: "\<And>n. drop_atomic (E n)"
    and ports: "\<And>n. \<exists>d. start_ok (E n) (host n) a b d" and T: "\<And>n. T n = clock (E n) (moment (N n)) + timeToLive"
  shows "counted (E n) (host n) (msg_id m) (T n) (c n) (F n) (N' n) \<and> moment (N n) \<le> moment (N' n)"
  using assms(1)
proof (induction arbitrary: n)
  case start
  show ?case using assms(2) by (simp add: counted_def)
next
  case (handled c F N' k sender r w)
  have "T k \<le> clock (E k) (moment (N' k)) + timeToLive"
    using env_okD(6) [OF world_okD(7), of "E k" "host k" "N' k"] handled.IH [of k] T [of k] by (simp add: counted_def)
  from counted_handles [OF conjunct1 [OF handled.IH] handled.hyps(2,3) this]
  show ?case using handled.IH [of n] handled.IH [of k] withinD [OF forth.packet_in handled.hyps(3)] by (cases "n = k") auto
next
  case (dropped c F N' k sender r w)
  have ok: "world_ok (E k) (host k) (N' k)" using dropped.IH [of k] by (simp add: counted_def)
  from counted_stays [OF conjunct1 [OF dropped.IH] conjunct1 [OF wpD [OF receive_ok [OF ok] dropped.hyps(3)]]
      withinD [OF holds.packet_in dropped.hyps(3)]]
  show ?case using dropped.IH [of n] dropped.IH [of k] withinD [OF forth.packet_in dropped.hyps(3)] by (cases "n = k") auto
next
  case (other c F N' data k sender r w)
  have ok: "world_ok (E k) (host k) (N' k)" using other.IH [of k] by (simp add: counted_def)
  from counted_stays [OF conjunct1 [OF other.IH] conjunct1 [OF wpD [OF receive_ok [OF ok] other.hyps(3)]]
      withinD [OF holds.packet_in other.hyps(3)]]
  show ?case using other.IH [of n] other.IH [of k] withinD [OF forth.packet_in other.hyps(3)] by (cases "n = k") auto
next
  case (request c F N' path handler k req r w)
  have ok: "world_ok (E k) (host k) w"
    using withinD [OF keeps_handler [OF drop request.hyps(2)] request.hyps(4)] request.IH [of k] by (simp add: counted_def)
  from counted_stays [OF conjunct1 [OF request.IH] this withinD [OF holds_request [OF request.hyps(2,3)] request.hyps(4)]]
  show ?case using request.IH [of n] request.IH [of k] withinD [OF forth.request_in [OF request.hyps(2)] request.hyps(4)]
    by (cases "n = k") auto
next
  case (shutdown c F N' handler k req r w)
  have ok: "world_ok (E k) (host k) w"
    using withinD [OF keeps_handler [OF drop shutdown.hyps(2)] shutdown.hyps(3)] shutdown.IH [of k] by (simp add: counted_def)
  note moment = withinD [OF forth.request_in [OF shutdown.hyps(2)] shutdown.hyps(3)]
  from counted_forgets [OF conjunct1 [OF shutdown.IH] ok moment]
  show ?case using shutdown.IH [of n] shutdown.IH [of k] moment by (cases "n = k") auto
next
  case (restart c F N' k)
  obtain d where "start_ok (E k) (host k) a b d" using ports by blast
  then have ok: "world_ok (E k) (host k) (restarted a b (N' k))"
    using restart.IH [of k] by (auto intro: restarted_ok simp: counted_def)
  have moment: "moment (N' k) \<le> moment (restarted a b (N' k))" by (simp add: restarted_def)
  from counted_forgets [OF conjunct1 [OF restart.IH] ok moment]
  show ?case using restart.IH [of n] restart.IH [of k] moment by (cases "n = k") auto
next
  case (idle c F N' k j)
  have ok: "world_ok (E k) (host k) ((N' k)\<lparr>moment := moment (N' k) + j\<rparr>)" using idle.IH [of k] by (simp add: counted_def)
  from counted_stays [OF conjunct1 [OF idle.IH] ok holds_other]
  show ?case using idle.IH [of n] idle.IH [of k] by (cases "n = k") auto
qed

end
