(* ===== verification/Cluster_Demo.thy ===== *)
theory Cluster_Demo
  imports Cluster
begin

text \<open>
  A run of a network of two hosts, evaluated from the code's definitions: the first host creates a
  device, learns of the second one as a peer and joins the network, which sends its hail and a sync
  event; the second host joins and receives the event.
\<close>

section \<open>Two hosts\<close>

definition demo_machine_of :: "bool \<Rightarrow> string" where
  "demo_machine_of n = (if n then ''7ba7b810-9dad-11d1-80b4-00c04fd430c8'' else demo_machine)"

definition demo_at :: "bool \<Rightarrow> (bytes \<times> bytes) list external" where
  "demo_at n = demo\<lparr>machine_ID := (\<lambda>t. Inr (demo_machine_of n)),
     uuid := demo_uuid\<lparr>NewRandom := (\<lambda>t. Ok (array_of ((if n then 2 else 1) # replicate 7 0xFF @ Int64ToBytes (of_nat t))))\<rparr>\<rparr>"

definition demo_id :: "bool \<Rightarrow> Id" where
  "demo_id n = NewSHA1 demo_uuid ZeroId (StringToBytes (demo_machine_of n))"

definition demo_args :: "(string \<times> string list) list \<Rightarrow> request" where
  "demo_args xs = \<lparr>PathValue = (\<lambda>k. ''''), ParseForm = Inr xs, ReadAll = ''''\<rparr>"

definition demo_serve :: "bool \<Rightarrow> string \<Rightarrow> (string \<times> string list) list \<Rightarrow> (bytes \<times> bytes) list world \<Rightarrow> (bytes \<times> bytes) list world" where
  "demo_serve n path xs w = snd (server_Handle path (the (map_of (routes (demo_at n)) path)) (demo_args xs) w)"

definition demo_new :: "(bytes \<times> bytes) list world" where
  "demo_new = NewWorld 1 2 []"

definition demo_created :: "(bytes \<times> bytes) list world" where
  "demo_created = demo_serve False ''POST /device'' [(''type'', [''1'']), (''state'', [''1''])] demo_new"

definition demo_joined :: "(bytes \<times> bytes) list world" where
  "demo_joined = demo_serve False ''POST /network'' []
     (demo_serve False ''POST /peer'' [(''id'', [demo_machine_of True]), (''address'', [''10.0.0.2:80''])] demo_created)"

definition demo_other :: "(bytes \<times> bytes) list world" where
  "demo_other = demo_serve True ''POST /network'' [] demo_new"

definition demo_lamp :: Device where
  "demo_lamp = NewDevice (array_of (1 # replicate 7 0xFF @ Int64ToBytes 1)) (demo_id False) 1 1 0"

definition demo_event :: Message where
  "demo_event = NewMessage (array_of (1 # replicate 7 0xFF @ Int64ToBytes 17)) (demo_id False) MessageTypeEventSync (syncPayload demo_lamp)"

text \<open>The second host receives the event.\<close>

definition demo_received :: "(bytes \<times> bytes) list world" where
  "demo_received = snd (receivedMessageHandler (demo_at True) ''10.0.0.1:80'' (datagram demo_event) demo_other)"

section \<open>What the run computes\<close>

lemma demo_moments: "moment demo_joined = 24" "moment demo_other = 8" "moment demo_received = 19"
  by code_simp+

lemma demo_stored: "devices_of (demo_at False) demo_joined (dev_id demo_lamp) = Some demo_lamp"
  by code_simp

lemma demo_sent: "map snd (sent demo_joined) ! 1 = datagram demo_event" "length (sent demo_joined) = 2"
  by code_simp+

lemma demo_open: "connection (udp demo_other) = Some 3" "entries (message_cache demo_other) = []"
  by code_simp+

lemma demo_copy: "map_option dev_version (devices_of (demo_at True) demo_received (dev_id demo_lamp)) = Some 0"
  by code_simp


section \<open>The network of the run\<close>

definition demo_net :: "(bool, (bytes \<times> bytes) list) network" where
  "demo_net = (\<lambda>_. demo_new)(False := demo_joined, True := demo_other)"

lemma demo_net [simp]: "demo_net False = demo_joined" "demo_net True = demo_other"
  by (simp_all add: demo_net_def)

lemma demo_at_uuid: "NewStringId (uuid (demo_at n)) = NewStringId demo_uuid" "attribute_ids_ok (uuid (demo_at n))"
proof -
  have "NewStringId (uuid (demo_at n)) s = NewStringId demo_uuid s" for s
    by (simp add: NewStringId_def demo_at_def)
  then show "NewStringId (uuid (demo_at n)) = NewStringId demo_uuid" by blast
  then show "attribute_ids_ok (uuid (demo_at n))"
    using demo_ids unfolding attribute_ids_ok_def by simp
qed

lemma demo_at_store: "badger_db (demo_at n) = demo_badger"
  by (simp add: demo_at_def demo_def)

lemma demo_at_start: "start_ok (demo_at n) (demo_id n) a b []"
proof -
  have "env_ok (demo_at n)"
    using demo_env_ok demo_at_uuid(2) [of n] unfolding env_ok_def demo_at_store
    by (simp add: demo_at_def) (simp add: demo_def)
  moreover have "store demo_badger [] = (\<lambda>_. Map.empty)"
    by (intro ext) (simp add: store_def demo_kv)
  moreover have "fst (preferences_GetHostId (uuid (demo_at n)) (machine_ID (demo_at n) t) (NewPreferences a b)) = Ok (demo_id n)" for t
    by (simp add: preferences_GetHostId_def NewPreferences_def demo_at_def demo_uuid_def demo_machine_of_def demo_machine_def
        demo_id_def Let_def)
  ultimately show ?thesis
    by (simp add: start_ok_def demo_at_store empty_table_ok keys_ok_def demo_kv)
qed

lemma demo_id_inj: "inj demo_id"
proof -
  have "demo_id True \<noteq> demo_id False"
    by (simp add: demo_id_def demo_machine_of_def demo_machine_def demo_uuid_def StringToBytes_def)
  then show ?thesis by (auto simp: inj_def) (metis (full_types))+
qed

lemma demo_net_start: "network_start demo_at demo_id 1 2 (\<lambda>_. demo_new)"
proof -
  have "devices_of (demo_at n) demo_new = Map.empty" for n
    by (intro ext) (simp add: devices_of_def world_table_def store_def stored_device_def demo_at_store demo_kv demo_new_def NewWorld_def)
  moreover have "opens (demo_at n)" "drop_atomic (demo_at n)" for n
    by (simp_all add: opens_def drop_atomic_def demo_at_store) (simp_all add: demo_badger_def)
  ultimately show ?thesis
    using demo_at_start demo_id_inj unfolding network_start_def demo_new_def by blast
qed

lemma demo_serves:
  assumes "path \<in> fst ` set (routes (demo_at n))"
  shows "network_step demo_at a b N (N(n := demo_serve n path xs (N n)))"
proof -
  obtain handler where h: "map_of (routes (demo_at n)) path = Some handler"
    using assms by (metis map_of_eq_None_iff option.exhaust)
  obtain r w where "server_Handle path handler (demo_args xs) (N n) = (r, w)" by fastforce
  with network_step.request [where E = demo_at and n = n and N = N, OF map_of_SomeD [OF h] this] h
  show ?thesis by (simp add: demo_serve_def)
qed

lemma demo_net_run: "(network_step demo_at 1 2)\<^sup>*\<^sup>* (\<lambda>_. demo_new) demo_net"
proof -
  have paths: "path \<in> fst ` set (routes (demo_at n))" if "path \<in> {''POST /device'', ''POST /peer'', ''POST /network''}" for path n
    using that by (auto simp: routes_def)
  let ?N1 = "(\<lambda>_. demo_new)(False := demo_created)"
  have 1: "network_step demo_at 1 2 (\<lambda>_. demo_new) ?N1"
    using demo_serves [where path = "''POST /device''" and n = False and a = 1 and b = 2 and N = "\<lambda>_. demo_new", OF paths] by (simp add: demo_created_def)
  let ?p = "demo_serve False ''POST /peer'' [(''id'', [demo_machine_of True]), (''address'', [''10.0.0.2:80''])] demo_created"
  have 2: "network_step demo_at 1 2 ?N1 (?N1(False := ?p))"
    using demo_serves [where path = "''POST /peer''" and n = False and a = 1 and b = 2 and N = ?N1, OF paths] by simp
  have 3: "network_step demo_at 1 2 (?N1(False := ?p)) (?N1(False := demo_joined))"
    using demo_serves [where path = "''POST /network''" and n = False and a = 1 and b = 2 and N = "?N1(False := ?p)" and xs = "[]", OF paths] by (simp add: demo_joined_def)
  have "network_step demo_at 1 2 (?N1(False := demo_joined)) (?N1(False := demo_joined, True := demo_other))"
    using demo_serves [where path = "''POST /network''" and n = True and a = 1 and b = 2 and N = "?N1(False := demo_joined)" and xs = "[]", OF paths] by (simp add: demo_other_def)
  then have 4: "network_step demo_at 1 2 (?N1(False := demo_joined)) demo_net" by (simp add: demo_net_def)
  from 1 2 3 4 show ?thesis by (meson converse_rtranclp_into_rtranclp r_into_rtranclp)
qed

lemma demo_draws:
  assumes "drawn (demo_at n) s = Some i" "drawn (demo_at m) t = Some i" "s < 2 ^ 63" "t < 2 ^ 63"
  shows "n = m \<and> s = t"
proof -
  have len: "length ((if k then 2 else 1) # replicate 7 0xFF @ Int64ToBytes v) = 16" for k v by simp
  have "array_of ((if n then 2 else 1) # replicate 7 0xFF @ Int64ToBytes (of_nat s)) =
      array_of ((if m then 2 else 1) # replicate 7 0xFF @ Int64ToBytes (of_nat t))"
    using assms(1,2) by (simp add: drawn_def NewRandomId_def demo_at_def)
  from arg_cong [OF this, of Bytes]
  have "(if n then 2 else 1) # replicate 7 0xFF @ Int64ToBytes (of_nat s) =
      (if m then 2 else 1 :: byte) # replicate 7 0xFF @ Int64ToBytes (of_nat t)"
    by (simp add: Bytes_array_of len)
  then have "n = m" "Int64ToBytes (of_nat s) = Int64ToBytes (of_nat t)" by (auto split: if_splits)
  moreover from this have "(of_nat s :: int64) = of_nat t"
    by (metis BytesToInt64_Int64ToBytes result.inject(1))
  then have "unat (of_nat s :: int64) = unat (of_nat t :: int64)" by simp
  then have "s = t" using assms(3,4) by (simp add: unsigned_of_nat take_bit_nat_eq_self)
  ultimately show ?thesis by simp
qed

lemma demo_fair:
  assumes "\<And>n. moment (N n) < 2 ^ 62"
  shows "fair_network demo_at N"
proof -
  have b: "moment (N n) < 2 ^ 63" "int (moment (N n)) < 2 ^ 63 - 1" for n using assms [of n] by simp_all
  show ?thesis
    unfolding fair_draws_def replicas_of_def replica_of_def replica.select_convs
    using demo_draws b by (meson less_trans)
qed

lemma demo_net_fair: "fair_network demo_at demo_net"
proof (rule demo_fair)
  fix n show "moment (demo_net n) < 2 ^ 62" by (cases n) (simp_all add: demo_moments)
qed

lemma demo_wire: "on_wire demo_net (datagram demo_event)" "syncs demo_event demo_lamp"
proof -
  have "datagram demo_event \<in> set (map snd (sent demo_joined))"
    unfolding demo_sent(1) [symmetric] by (rule nth_mem) (simp add: demo_sent(2))
  then show "on_wire demo_net (datagram demo_event)" by (auto simp: on_wire_def intro!: exI [of _ False])
  show "syncs demo_event demo_lamp" by (simp add: syncs_def demo_event_def sync.decode_sent)
qed

lemma demo_unseen_event: "\<not> seen (demo_at True) i (demo_net True)"
  using demo_open(2) by (simp add: seen_def deadline_def)

text \<open>After the event was received.\<close>

definition demo_spread :: "(bool, (bytes \<times> bytes) list) network" where
  "demo_spread = demo_net(True := demo_received)"

lemma demo_spread_run: "(network_step demo_at 1 2)\<^sup>*\<^sup>* (\<lambda>_. demo_new) demo_spread"
proof -
  obtain r where "receivedMessageHandler (demo_at True) ''10.0.0.1:80'' (datagram demo_event) (demo_net True) = (r, demo_received)"
    by (metis demo_received_def demo_net(2) prod.collapse)
  then have "network_step demo_at 1 2 demo_net demo_spread"
    using network_step.packet [where E = demo_at and n = True and N = demo_net, OF demo_wire(1)] demo_open(1)
    by (simp add: demo_spread_def)
  then show ?thesis by (rule rtranclp.rtrancl_into_rtrancl [OF demo_net_run])
qed

lemma demo_spread_fair: "fair_network demo_at demo_spread"
proof (rule demo_fair)
  fix n show "moment (demo_spread n) < 2 ^ 62" by (cases n) (simp_all add: demo_spread_def demo_moments)
qed

lemma demo_spread_devices:
  "devices_of (demo_at False) (demo_spread False) (dev_id demo_lamp) = Some demo_lamp"
  "\<exists>d. devices_of (demo_at True) (demo_spread True) (dev_id demo_lamp) = Some d \<and> dev_version d = 0"
  using demo_stored demo_copy by (auto simp: demo_spread_def)

end
