(* ===== verification/Cluster_Theorems.thy ===== *)
theory Cluster_Theorems
  imports Cluster_Demo
begin

text \<open>
  What the replication of devices over a network of hosts guarantees. Every host runs the program as it
  is wired in \<open>Controller\<close>; a datagram that any of them sent at any time may reach any of them, under any
  sender's address, any number of times, or never; hosts serve any requests, and may stop and start again.
\<close>

section \<open>The replicated devices\<close>

lemma stored_replicas [simp]: "stored (replicas_of E N n) = devices_of (E n) (N n)"
  by (simp add: replicas_of_def replica_of_def)

text \<open>
  C1. A device belongs to its owner. In every state of a network that started with empty stores, a device
  that a host stores, or that a sync event on the wire tells of, is one of a host of the network; that host
  stores the device itself, with the same type and a version that is not behind, and with the same state
  when the version is the same. No identifier was drawn twice so far, and no host has asked the outside
  more than 2^63 times.
\<close>

theorem copies_follow_their_owner:
  assumes "network_start E host a b N" and "(network_step E a b)\<^sup>*\<^sup>* N N'" and "fair_network E N'"
    and c: "devices_of (E n) (N' n) i = Some c \<or> (\<exists>m. on_wire N' (datagram m) \<and> syncs m c \<and> dev_id c = i)"
  shows "\<exists>k d. dev_owner c = host k \<and> devices_of (E k) (N' k) i = Some d \<and> dev_owner d = host k \<and> dev_type d = dev_type c \<and>
    sint (dev_version c) \<le> sint (dev_version d) \<and> (dev_version c = dev_version d \<longrightarrow> c = d)"
proof -
  note order = network_in_order' [OF assms(1-3)]
  have present: "present (replicas_of E N') c" "dev_id c = i"
    using c in_orderD(1) [OF order, of n i c] by (auto simp: present_def heard_replicas)
  from in_orderD(2) [OF order present(1)] obtain k d t where d: "dev_owner c = host k"
      "stored (replicas_of E N' k) i = Some d" "dev_owner d = host k" "dev_type d = dev_type c"
      "sint (dev_version c) \<le> sint (dev_version d)"
    unfolding follows_def present(2) by (elim exE conjE) (rule that)
  have "c = d" if "dev_version c = dev_version d"
    using in_orderD(3) [OF order present(1) stored_present [OF order d(2)]] in_orderD(1) [OF order d(2)] present(2) that by simp
  with d show ?thesis by auto
qed

theorem copies_follow_their_owner_witness:
  "\<exists>k d. dev_owner demo_lamp = demo_id k \<and> devices_of (demo_at k) (demo_net k) (dev_id demo_lamp) = Some d \<and> dev_owner d = demo_id k \<and>
    dev_type d = dev_type demo_lamp \<and> sint (dev_version demo_lamp) \<le> sint (dev_version d) \<and>
    (dev_version demo_lamp = dev_version d \<longrightarrow> demo_lamp = d)"
  by (rule copies_follow_their_owner [OF demo_net_start demo_net_run demo_net_fair, of False "dev_id demo_lamp" demo_lamp])
    (use demo_stored demo_wire in auto)

text \<open>
  C2. Versions identify states: two hosts that hold a device with the same identifier and the same version
  hold the same device, with the same owner, type and state.
\<close>

theorem same_version_same_device:
  assumes "network_start E host a b N" and "(network_step E a b)\<^sup>*\<^sup>* N N'" and "fair_network E N'"
    and "devices_of (E n) (N' n) i = Some c" and "devices_of (E k) (N' k) i = Some d" and "dev_version c = dev_version d"
  shows "c = d"
proof -
  note order = network_in_order' [OF assms(1-3)]
  have c: "stored (replicas_of E N' n) i = Some c" and d: "stored (replicas_of E N' k) i = Some d" using assms(4,5) by simp_all
  show ?thesis
    using in_orderD(3) [OF order stored_present [OF order c] stored_present [OF order d]]
      in_orderD(1) [OF order c] in_orderD(1) [OF order d] assms(6) by simp
qed

theorem same_version_same_device_witness:
  "\<exists>d. devices_of (demo_at True) (demo_spread True) (dev_id demo_lamp) = Some d \<and> d = demo_lamp"
proof -
  obtain d where d: "devices_of (demo_at True) (demo_spread True) (dev_id demo_lamp) = Some d" "dev_version d = 0"
    using demo_spread_devices(2) by blast
  have "d = demo_lamp"
    by (rule same_version_same_device [OF demo_net_start demo_spread_run demo_spread_fair d(1) demo_spread_devices(1)])
      (simp add: d(2) demo_lamp_def)
  with d show ?thesis by blast
qed

text \<open>
  C3. The program implements the replicated store of \<open>Replication\<close>: every run of a network is a sequence of
  steps in which one host creates a device under an identifier that it draws, sets the state of its own
  device under the next version, merges a device that was told of, drops a copy, tells of what it stores
  or heard, or waits.
\<close>

theorem network_refines_replication:
  assumes "network_start E host a b N" and "(network_step E a b)\<^sup>*\<^sup>* N N'"
  shows "(network_does (\<lambda>n. drawn (E n)) host)\<^sup>*\<^sup>* (replicas_of E N) (replicas_of E N')"
  using network_refines [OF assms] ..

theorem network_refines_replication_witness:
  "(network_does (\<lambda>n. drawn (demo_at n)) demo_id)\<^sup>*\<^sup>* (replicas_of demo_at (\<lambda>_. demo_new)) (replicas_of demo_at demo_net)"
  by (rule network_refines_replication [OF demo_net_start demo_net_run])

text \<open>
  C4. Replicas converge: when a host receives, as a new message, a sync event of a device as its owner has it
  now, the handler succeeds on a store that accepts the write, and the host then stores exactly the
  owner's device, whatever it stored for it before.
\<close>

theorem current_event_converges:
  assumes "network_start E host a b N" and "(network_step E a b)\<^sup>*\<^sup>* N N'" and "fair_network E N'"
    and current: "devices_of (E k) (N' k) i = Some d" "dev_owner d = host k" and event: "syncs m d"
    and "\<not> seen (E n) (msg_id m) (N' n)" and "accepts (badger_db (E n))"
  shows "wp (receivedMessageHandler (E n) sender (datagram m)) (\<lambda>r w. r = Ok () \<and> devices_of (E n) w i = Some d) (N' n)"
proof -
  have st: "steady_ok (E l) (host l) (N' l)" for l
    using network_refines [OF assms(1,2)] by (simp add: network_ok_def)
  note order = network_in_order' [OF assms(1-3)]
  have "i \<noteq> ZeroId" using repo.dev_id_law [OF steady_okD(2) [OF st] current(1)] by simp
  then have merge: "sync_devices (host n) d (devices_of (E n) (N' n)) i = Some d"
    using adopt_current [OF _ order assms(3), of k i d n] current assms(1) by (simp add: network_start_def)
  show ?thesis
  proof (rule receive_new [OF steady_okD(2) [OF st] assms(7)])
    fix v assume v: "world_ok (E n) (host n) v" "handled_in (E n) m (N' n) v"
    then have "steady_ok (E n) (host n) v" using st [of n] by (simp add: steady_ok_def)
    moreover have "devices_of (E n) v = devices_of (E n) (N' n)" using v(2) by (intro devices_of_disk) (simp add: handled_in_def)
    moreover have "dispatch_packet (E n) sender m = updateDeviceUseCase (E n) sender m"
      using event by (cases rule: dispatch_packet_cases [of m "E n" sender]) (auto simp: syncs_def message_type_defs)
    ultimately show "wp (dispatch_packet (E n) sender m) (\<lambda>r w. r = Ok () \<and> devices_of (E n) w i = Some d) v"
      using updateDevice_Ok [of "E n" "host n" v m d sender] event assms(8) merge by (auto simp: syncs_def elim!: wp_weaken)
  qed
qed

theorem current_event_converges_witness:
  "devices_of (demo_at True) (snd (receivedMessageHandler (demo_at True) ''10.0.0.1:80'' (datagram demo_event) (demo_net True)))
    (dev_id demo_lamp) = Some demo_lamp"
proof -
  show ?thesis
    using current_event_converges [OF demo_net_start demo_net_run demo_net_fair, of False "dev_id demo_lamp" demo_lamp demo_event True]
      demo_unseen_event demo_stored demo_wire(2) demo_accepts by (simp add: wp_iff demo_at_store demo_lamp_def)
qed

section \<open>Datagrams among hosts\<close>

text \<open>
  C5. Datagrams of the program are well formed for the program: one that any host ever sent is of a message,
  with a device in it if it is a sync event, and no host panics on it. (A datagram that none sent can end
  the process.)
\<close>

theorem own_datagrams_never_crash:
  assumes "network_start E host a b N" and "(network_step E a b)\<^sup>*\<^sup>* N N'" and "on_wire N' data"
  shows "readable_mail data \<and> fst (receivedMessageHandler (E n) sender data (N' n)) \<noteq> Panic"
proof -
  have ok: "network_ok E host N'" using network_refines [OF assms(1,2)] ..
  have mail: "readable_mail data" using ok assms(3) by (auto simp: network_ok_def mail_ok_def on_wire_def)
  from plays_packet [OF _ this, of "E n" "host n" "N' n" UNIV sender] show ?thesis
    using ok mail by (simp add: network_ok_def wp_iff)
qed

theorem own_datagrams_never_crash_witness:
  "fst (receivedMessageHandler (demo_at True) ''10.0.0.1:80'' (datagram demo_event) (demo_net True)) \<noteq> Panic"
  using own_datagrams_never_crash [OF demo_net_start demo_net_run demo_wire(1)] by blast



end
