(* ===== verification/Program.thy ===== *)
theory Program
  imports Process
begin

text \<open>
  \<open>main/main.go\<close>: the options of the command line, and the controller that is set up with the two ports. The
  package \<open>go-args\<close> is not part of the repository: what it answers for an option is a parameter.
\<close>

section \<open>The command line\<close>

text \<open>An option with its short and long name and its description; a strict one with the pattern of its values.\<close>

datatype option_def = OptionStrict string string string string | OptionHelp string string string

definition portPattern :: string where
  "portPattern = ''^[0-9]{4,5}$''"

definition main_options :: "option_def list" where
  "main_options =
     [OptionStrict ''m'' ''message-port'' ''The network messages port. Default: 8881'' portPattern,
      OptionStrict ''r'' ''request-port'' ''The REST API port. Default: 8880'' portPattern,
      OptionHelp ''h'' ''help'' ''Prints this help text.'']"

text \<open>
  The parameter is \<open>GetOptionIntValue\<close> after \<open>Parse\<close>, for the options that were defined: the value of an option
  that was given, or the default. \<open>main\<close> hands the ports on; the disk is what the last run left.
\<close>

type_synonym args_pkg = "option_def list \<Rightarrow> string \<Rightarrow> int \<Rightarrow> int"

definition main_ports :: "args_pkg \<Rightarrow> int \<times> int" where
  "main_ports GetOptionIntValue =
     (let httpPort' = GetOptionIntValue main_options ''r'' 8880;
          udpPort' = GetOptionIntValue main_options ''m'' 8881
      in (httpPort', udpPort'))"

definition main :: "args_pkg \<Rightarrow> 'd \<Rightarrow> 'd process" where
  "main GetOptionIntValue d =
     (case main_ports GetOptionIntValue of (httpPort', udpPort') \<Rightarrow> Running (NewWorld httpPort' udpPort' d))"

section \<open>The ports\<close>

text \<open>What the package documents of a strict option: the default, or the number of a text of the pattern.\<close>

fun digits :: "nat \<Rightarrow> string \<Rightarrow> nat option" where
  "digits n [] = Some n"
| "digits n (c # cs) = (if CHR ''0'' \<le> c \<and> c \<le> CHR ''9'' then digits (10 * n + (of_char c - 48)) cs else None)"

definition args_ok :: "args_pkg \<Rightarrow> bool" where
  "args_ok G \<longleftrightarrow> (\<forall>ops name long about default. OptionStrict name long about portPattern \<in> set ops \<longrightarrow>
     G ops name default = default \<or>
     (\<exists>t n. length t \<in> {4, 5} \<and> digits 0 t = Some n \<and> G ops name default = int n))"


lemma digits_bound: "digits n cs = Some k \<Longrightarrow> k < (n + 1) * 10 ^ length cs"
proof (induction n cs rule: digits.induct)
  case (2 n c cs)
  from 2(2) have c: "CHR ''0'' \<le> c \<and> c \<le> CHR ''9''" by (auto split: if_splits)
  then have "of_char c \<le> (57 :: nat)" by (simp add: less_eq_char_def)
  then have "10 * n + (of_char c - 48) + 1 \<le> 10 * (n + 1)" by simp
  then have "(10 * n + (of_char c - 48) + 1) * 10 ^ length cs \<le> 10 * (n + 1) * 10 ^ length cs" by (rule mult_right_mono) simp
  moreover have "k < (10 * n + (of_char c - 48) + 1) * 10 ^ length cs" by (rule "2.IH" [OF c]) (use 2(2) c in simp)
  ultimately show ?case by (simp add: algebra_simps)
qed simp

text \<open>
  The ports are numbers of at most five digits. (Ports end at 65535: the pattern is wider than what a server
  can listen on.)
\<close>

lemma main_ports_bound:
  assumes "args_ok G" and "main_ports G = (r, m)"
  shows "0 \<le> r \<and> r < 100000 \<and> 0 \<le> m \<and> m < 100000"
proof -
  have bound: "0 \<le> G main_options name default \<and> G main_options name default < 100000"
    if opt: "OptionStrict name long about portPattern \<in> set main_options" and "0 \<le> default" "default < 100000"
    for name long about default
  proof -
    consider "G main_options name default = default"
      | t n where "length t \<in> {4, 5}" "digits 0 t = Some n" "G main_options name default = int n"
      using assms(1) opt unfolding args_ok_def by blast
    then show ?thesis
    proof cases
      case 2
      then have "n < 10 ^ length t" using digits_bound [of 0 t n] by simp
      then show ?thesis using 2(1,3) by auto
    qed (use that in simp)
  qed
  show ?thesis
    using bound [of "''r''" _ _ 8880] bound [of "''m''" _ _ 8881] assms(2)
    by (auto simp: main_ports_def main_options_def)
qed

text \<open>
  The program starts a process that is not serving yet: with the ports of the command line, no peers and
  messages, a closed socket and an API on the local host, and that is reachable as \<open>reachable\<close> starts.
\<close>

lemma main_starts:
  assumes "main_ports G = (r, m)"
  shows "main G d = Running (NewWorld r m d)" and "reachable E r m d (main G d)"
    and "Addr (api (NewWorld r m d)) = withPort ''localhost'' r" and "port (udp (NewWorld r m d)) = m"
    and "connection (udp (NewWorld r m d)) = None" and "serverState (api (NewWorld r m d)) = NotStarted"
  using reachable.start [of E r m d]
  by (simp_all add: main_def assms) (simp_all add: NewWorld_def NewUdpServer_def NewHttpServer_def)

end
