(* ===== verification/Spec2Isabelle.thy ===== *)
theory Spec2Isabelle
  imports Cluster_Theorems Program
begin

text \<open>
  Fudpucker is a peer that keeps a replicated table of devices. A user drives it over a small REST
  API; hosts tell each other of devices, commands and peers in datagrams over UDP; devices are kept
  in an embedded key-value store. The library models the Go code under \<open>src/main\<close>, from the encoding of
  an integer in a payload up to the steps of the running process, and of a network of such hosts.

  \<^bold>\<open>The program and its model.\<close>

  \<^item> \<open>Prelude\<close>: actions on a state that return a value, an error or a panic (\<open>act\<close>, \<open>result\<close>), Go maps
    and slices, the predicates \<open>wp\<close> (what holds after an action) and \<open>within\<close> (a relation that every run
    of an action keeps), the locale \<open>state_order\<close> of such relations.
  \<^item> \<open>Byte_Slices\<close>: \<open>entity/utils/byteslice.go\<close> and \<open>entity/unit\<close>, with the slice operations that panic.
  \<^item> \<open>Entities\<close>: identifiers, devices, events, hosts, messages and peers (\<open>entity/*.go\<close>). The package
    \<open>uuid\<close> is a parameter.
  \<^item> \<open>Database\<close>: \<open>data/database.go\<close> over the package \<open>badger\<close>, a parameter whose contract is \<open>badger_ok\<close>. The
    keys of the store encode a table of attributes per device and an index of the devices; the
    abstraction is \<open>store\<close>, and the locale \<open>attribute_store\<close> is what it promises to its clients.
  \<^item> \<open>Data_Adapters\<close>: \<open>data/adapters.go\<close>, devices as rows of that table, inside \<open>attribute_store\<close>.
  \<^item> \<open>Preferences\<close>, \<open>Peer_Cache\<close>, \<open>Message_Cache\<close>: the state of \<open>data/preferences.go\<close>,
    \<open>data/peercache.go\<close> and \<open>data/messagecache.go\<close>.
  \<^item> \<open>Udp_Server\<close>: the socket and the read loop of \<open>message/updserver.go\<close>.
  \<^item> \<open>Data_Usecases\<close>, \<open>Message_Usecases\<close>: \<open>data/usecases.go\<close> and \<open>message/usecases.go\<close>. A constructor of the
    code that takes functions and returns a function is a definition with the same arguments.
  \<^item> \<open>Message_Adapters\<close>: \<open>message/adapters.go\<close>, payloads and datagrams; the locale \<open>payload_codec\<close> is the
    contract of a pair of provider and reader.
  \<^item> \<open>Json\<close>, \<open>Http_Server\<close>, \<open>Handlers\<close>: \<open>request/*.go\<close>, from the arguments of a request to the response.
  \<^item> \<open>World\<close>, \<open>Controller\<close>: \<open>lib.go\<close>. The record \<open>world\<close> is the state of the process (the struct
    \<open>controller\<close>: preferences, store, caches, socket), with the history of the datagrams that were sent;
    each local variable of \<open>SetupInfrastructure\<close> is a definition of that name over the outside
    \<open>external\<close>; \<open>routes\<close> is the table of handlers; \<open>process_step\<close> and \<open>reachable\<close> are the runs, from the
    start of the API server to its shutdown.
  \<^item> \<open>Program\<close>: \<open>main.go\<close>, the options of the command line and the process that is started with them.

  \<^bold>\<open>The proofs.\<close> \<open>Device_Repository\<close> states, as a locale, a repository of devices as the use cases see
  it and proves the use cases for every such repository against the abstract updates \<open>save_devices\<close>,
  \<open>patch_devices\<close>, \<open>sync_devices\<close> and the answers they send; \<open>Wiring\<close> shows that the adapters over the
  store are such a repository (\<open>devices_of\<close> is the abstraction). \<open>Frames\<close> shows what the parts leave
  alone, \<open>Gossip\<close> the choice of the peers and what is sent to them, \<open>Packets\<close> a whole packet (\<open>handled_in\<close>: the
  state in which the receiver of a new message starts), \<open>Process\<close> the invariant \<open>world_ok\<close> of all reachable
  states, \<open>Liveness\<close> what succeeds when nothing outside fails, \<open>Hail\<close> the announcement of devices,
  \<open>Network\<close> joining and leaving.
  \<open>Demo\<close> is a concrete outside with an in-memory store, on which every theorem below is applied.
  The properties of single components stand in their theories; those of the wired program are here,
  and those of a network of hosts in \<open>Cluster_Theorems\<close>.

  \<^bold>\<open>The network.\<close> \<open>Replication\<close> is an abstract replicated store: every host has a table of devices
  (\<open>stored\<close>), the devices it ever announced (\<open>told\<close>) and the identifiers it has used (\<open>spent\<close>). A step creates a
  device, sets the state of an own one under the next version, adopts an announced one that is newer,
  forgets one of another host, or announces what it stores. \<open>in_order\<close> is what all copies keep: the
  owner has the device, in a version that is not behind. \<open>Hosts\<close> shows that one host, whatever request or
  packet it handles, makes such steps only (\<open>plays\<close>, \<open>speaks\<close>); \<open>Cluster\<close> puts hosts together: a \<open>network\<close>
  gives each name an outside and a state, \<open>network_step\<close> is a request to a host, the arrival of a datagram
  that some host has sent (any number of times, at any time, or never: datagrams are lost, repeated and
  reordered), the passing of time, or the restart of a host with its store. \<open>network_refines\<close> takes it to
  the abstract store. Its hypotheses are \<open>network_start\<close> (hosts start with empty stores and distinct
  identities) and \<open>fair_network\<close> (no device identifier is drawn twice, and no host lives to ask the outside
  2^63 times, so that no version wraps). Datagrams are sent by hosts of the network only: a forged one
  can take any device of others over, as \<open>sync_event_merges\<close> says. \<open>handlings\<close> counts,
  for each host, how often it handles a message and how often it forgets the messages it has seen.
  \<open>Cluster_Demo\<close> is a network of two hosts that exchange a device.

  \<^bold>\<open>The invariant.\<close> \<open>world_ok E h w\<close>: the outside keeps its contracts, every key of the store is one or two
  identifiers long, every row of the table is a whole device whose identifier is in the index, both
  caches are maps without repeated keys, and the identity of the host, once known, is \<open>h\<close>.
  \<open>steady_ok\<close> adds that the store opens whenever it is asked.

  \<^bold>\<open>Hypotheses about code that is not here.\<close> Every call to the outside is answered by the record
  \<open>external\<close> as a function of the moment of the call, so that no two answers need agree. \<open>env_ok\<close>: \<open>badger\<close>
  reads what was written in the order of the keys, the names of the four attributes have distinct
  identifiers, an iteration over a map visits every key once, and the clock does not run back.
  \<open>opens\<close>: no other handler has the store open (the code opens it in every call, under a file lock);
  the section on a store that cannot be opened says what happens otherwise. \<open>accepts\<close>, \<open>able\<close>,
  \<open>reaches\<close>: writes, random numbers and the socket do not fail; they appear only where a theorem says that a call succeeds. The contract of
  \<open>badger\<close> says nothing of a \<open>DropPrefix\<close> that fails: \<open>drop_atomic\<close> is an operating condition like \<open>opens\<close>, that
  none fails with the work half done (it holds when no deletion fails, \<open>drops\<close>), for the theorems on an
  invariant of whole runs; what a single deletion leaves is stated without it.

  \<^bold>\<open>Integers and bounds.\<close> Go's \<open>int\<close> is \<open>64 word\<close>, as on the platforms of the release workflow; bytes are
  \<open>8 word\<close>. No definition needs fuel: every loop of the code runs over a slice, a map, a transaction's
  items, or the packets the socket delivers, which are an argument of \<open>readBlocking\<close>.

  \<^bold>\<open>Not modelled.\<close> Logging and its set-up in \<open>main\<close>; the matching of a request to its route and the accept
  loop of \<open>net/http\<close> (a request names its route here); the inside of \<open>go-args\<close>, \<open>badger\<close> and \<open>uuid\<close>, which are
  parameters; and the data races between handlers: the code takes no locks, and handlers run here one
  after the other.
\<close>

section \<open>Devices: sync events and commands\<close>

text \<open>
  C7. A sync event that was not seen before, on a host whose store opens: afterwards the devices are
  the merge of the event into what was there (the host's own device and any device that is not older
  than the event's stay as they are, any other is replaced by it), or they are unchanged and the
  handler reports an error. It keeps the invariant and does not panic, and when the store accepts
  every write, it succeeds.
\<close>

theorem sync_event_merges:
  assumes "steady_ok E h w" and "\<not> seen E i w"
  shows "wp (receivedMessageHandler E a (datagram (NewMessage i s MessageTypeEventSync (syncPayload c))))
    (\<lambda>r w'. steady_ok E h w' \<and> r \<noteq> Panic \<and>
      (devices_of E w' = sync_devices h c (devices_of E w) \<or> devices_of E w' = devices_of E w \<and> r \<in> range Err) \<and>
      (accepts (badger_db E) \<longrightarrow> r = Ok () \<and> devices_of E w' = sync_devices h c (devices_of E w))) w"
    (is "wp (receivedMessageHandler E a (datagram ?m)) ?Q w")
proof (rule receive_steady [OF assms])
  fix v assume v: "steady_ok E h v" "devices_of E v = devices_of E w"
  have m: "NewSyncMessageReader ?m = Ok c" by (rule sync.decode_sent)
  have "wp (updateDeviceUseCase E a ?m) (\<lambda>r w'. steady_ok E h w' \<and> r \<noteq> Panic \<and>
      (devices_of E w' = sync_devices h c (devices_of E v) \<or> devices_of E w' = devices_of E v \<and> (\<exists>e. r = Err e))) v"
    unfolding wired_usecases by (rule steady.saveDevice_refines [OF v(1) m])
  then show "wp (dispatch_packet E a ?m) ?Q v"
    unfolding dispatch_by_type using updateDevice_Ok [OF v(1) _ m, of a] v(2) by (auto simp: wp_iff)
qed

text \<open>The host hears of a newer version of a device of another host, and takes it.\<close>

theorem sync_event_merges_witness:
  "devices_of demo (snd (receivedMessageHandler demo ''10.0.0.2:80'' (datagram (NewMessage (small_id 9) (small_id 2)
     MessageTypeEventSync (syncPayload (NewDevice (small_id 1) (small_id 2) 1 1 8))))
     (demo_with (NewDevice (small_id 1) (small_id 2) 1 0 7)))) (small_id 1) =
   Some (NewDevice (small_id 1) (small_id 2) 1 1 8)"
proof -
  let ?d = "NewDevice (small_id 1) (small_id 2) 1 0 7"
  have other: "small_id 2 \<noteq> demo_host"
    by (simp add: demo_host_def demo_uuid_def small_id_def demo_machine_def StringToBytes_def)
  show ?thesis
    using sync_event_merges [where i = "small_id 9" and a = "''10.0.0.2:80''" and s = "small_id 2"
        and c = "NewDevice (small_id 1) (small_id 2) 1 1 8", OF demo_with(1) [of ?d] demo_unseen(2)] demo_able other demo_with(2) [of ?d]
    by (simp add: wp_iff able_def sync_devices_def save_devices_def)
qed

text \<open>
  C8. A command to set a state, received in a message that was not seen before: the device it names
  gets the state and the next version when this host owns it, and no device changes when it does not;
  or the handler reports an error and the devices are unchanged or already updated. When nothing
  outside fails and the device's type can be read, it succeeds.
\<close>

theorem patch_event_sets_state:
  assumes "steady_ok E h w" and "\<not> seen E i w"
  shows "wp (receivedMessageHandler E a (datagram (NewMessage i s MessageTypeCommandPatch (patchPayload j st))))
    (\<lambda>r w'. steady_ok E h w' \<and> r \<noteq> Panic \<and>
      (devices_of E w' = patch_devices h j st (devices_of E w) \<or> devices_of E w' = devices_of E w \<and> r \<in> range Err) \<and>
      (able E \<and> (\<forall>d. devices_of E w j = Some d \<longrightarrow> dev_type d \<noteq> DeviceTypeUnknown) \<longrightarrow>
        r = Ok () \<and> devices_of E w' = patch_devices h j st (devices_of E w))) w"
    (is "wp (receivedMessageHandler E a (datagram ?m)) ?Q w")
proof (rule receive_steady [OF assms])
  fix v assume v: "steady_ok E h v" "devices_of E v = devices_of E w"
  have m: "NewPatchMessageReader ?m = Ok (j, st)" using patch.decode_sent [of _ _ _ "(j, st)"] by simp
  have "wp (updateStateUseCase E a ?m) (\<lambda>r w'. steady_ok E h w' \<and> r \<noteq> Panic \<and>
      (devices_of E w' = patch_devices h j st (devices_of E v) \<or> devices_of E w' = devices_of E v \<and> (\<exists>e. r = Err e))) v"
    unfolding wired_usecases by (rule steady.saveState_refines [OF v(1) m])
  then show "wp (dispatch_packet E a ?m) ?Q v"
    unfolding dispatch_by_type using updateState_Ok [OF _ v(1) m, of a] v(2) by (auto simp: wp_iff)
qed

theorem patch_event_sets_state_witness:
  "devices_of demo (snd (receivedMessageHandler demo ''10.0.0.2:80'' (datagram (NewMessage (small_id 9) (small_id 2)
     MessageTypeCommandPatch (patchPayload (small_id 1) 1)))
     (demo_with (NewDevice (small_id 1) demo_host 1 0 7)))) (small_id 1) =
   Some (NewDevice (small_id 1) demo_host 1 1 8)"
  using patch_event_sets_state [where i = "small_id 9" and a = "''10.0.0.2:80''" and s = "small_id 2"
      and j = "small_id 1" and st = 1, OF demo_with(1) [of "NewDevice (small_id 1) demo_host 1 0 7"] demo_unseen(2)]
    demo_able demo_with(2) [of "NewDevice (small_id 1) demo_host 1 0 7"]
  by (simp add: wp_iff patch_devices_def DeviceTypeUnknown_def NewDevice_def)

text \<open>
  C9. The request \<open>PATCH /device/{id}\<close>: a state that is not a number is answered with 400 and nothing
  happens. Otherwise, with 200, the device that the path names has the state and the next version
  when this host owns it, and no device has changed when it does not; with 500 the devices are
  unchanged or already updated. When nothing outside fails the answer is 200.
\<close>

theorem patch_request:
  assumes w: "steady_ok E h w"
    and args: "requestArgs ''PATCH /device/{id}'' req = args" and i: "i = NewStringId (uuid E) (PathValue req ''id'')"
  shows "wp (server_Handle ''PATCH /device/{id}'' (NewPatchStateRequestHandler (uuid E) (patchStateUseCase E)) req)
    (\<lambda>r w'. \<exists>res. r = Ok res \<and> steady_ok E h w' \<and>
      (case stateArgument args of
         None \<Rightarrow> response_status res = 400 \<and> w' = w
       | Some st \<Rightarrow>
           (response_status res = 200 \<and> devices_of E w' = patch_devices h i st (devices_of E w) \<or>
            response_status res = 500 \<and> devices_of E w' \<in> {devices_of E w, patch_devices h i st (devices_of E w)}) \<and>
           (able E \<and> (\<forall>d. devices_of E w i = Some d \<longrightarrow> dev_type d \<noteq> DeviceTypeUnknown) \<longrightarrow> response_status res = 200))) w"
    (is "wp _ ?Q w")
proof -
  obtain vs where vs: "map_of args ''id'' = Some (PathValue req ''id'' # vs)"
    using id_argument(2) [of req] unfolding args by blast
  show ?thesis
  proof (cases "stateArgument args")
    case None
    then show ?thesis
      using w by (simp add: server_Handle_def NewPatchStateRequestHandler_def args vs first_def Let_def status_def wp_simps)
  next
    case (Some st)
    have "wp (patchStateUseCase E i st) (\<lambda>r w'. steady_ok E h w' \<and> r \<noteq> Panic \<and>
        (devices_of E w' = patch_devices h i st (devices_of E w) \<or> devices_of E w' = devices_of E w \<and> (\<exists>e. r = Err e))) w"
      unfolding wired_usecases by (rule steady.patchState_refines [OF w])
    then have "wp (patchStateUseCase E i st) (\<lambda>r w'. steady_ok E h w' \<and> r \<noteq> Panic \<and>
        (devices_of E w' = patch_devices h i st (devices_of E w) \<or> devices_of E w' = devices_of E w \<and> (\<exists>e. r = Err e)) \<and>
        (able E \<and> (\<forall>d. devices_of E w i = Some d \<longrightarrow> dev_type d \<noteq> DeviceTypeUnknown) \<longrightarrow> r = Ok ())) w"
      using patchState_Ok [OF _ w, of i st] by (auto simp: wp_iff)
    then show ?thesis
      unfolding server_Handle_def NewPatchStateRequestHandler_def args vs first_def Let_def status_def i [symmetric]
        option.case list.case pure_Ok return_bind Some wp_simps
      by (rule wp_weaken) (auto split: result.split simp: wp_simps)
  qed
qed

theorem patch_request_witness:
  "\<exists>res. fst (server_Handle ''PATCH /device/{id}'' (NewPatchStateRequestHandler (uuid demo) (patchStateUseCase demo))
       (demo_request ''lamp'') demo_world) = Ok res \<and> response_status res = 200"
  using patch_request [OF _ refl refl, of demo demo_host demo_world
      "demo_request ''lamp''"]
    demo_opens demo_world_ok demo_able
  by (auto simp: steady_ok_def demo_world_empty wp_iff requestArgs_def parseQueryAndFormValues_def Let_def keyChar_def
      stateArgument_def)

text \<open>
  C10. On a host whose store opens whenever it is asked (no other handler has it open; the section on
  the store that cannot be opened shows what a packet can do otherwise), whatever arrives on the socket, in any number and order: a device of this host
  stays stored, with its owner and its type. Only its state and version change, by commands.
\<close>

theorem own_devices_stay:
  assumes "steady_ok E h w" and "devices_of E w i = Some d" and "dev_owner d = h"
  shows "wp (readBlocking events (receivedMessageHandler E)) (\<lambda>_ w'. \<exists>d'. devices_of E w' i = Some d' \<and>
    dev_id d' = i \<and> dev_owner d' = h \<and> dev_type d' = dev_type d) w"
proof -
  let ?I = "\<lambda>v. steady_ok E h v \<and> (\<exists>d'. devices_of E v i = Some d' \<and> dev_id d' = i \<and> dev_owner d' = h \<and>
    dev_type d' = dev_type d)"
  have "wp (readBlocking events (receivedMessageHandler E)) (\<lambda>_. ?I) w"
  proof (rule readBlocking_invariant)
    show "?I w" using assms repo.dev_id_law [OF steady_okD(2) [OF assms(1)] assms(2)] by blast
    fix s data v assume v: "?I v"
    then obtain d' where d': "devices_of E v i = Some d'" "dev_id d' = i" "dev_owner d' = h" "dev_type d' = dev_type d"
      by blast
    have "\<exists>d''. packet_devices h m (devices_of E v) i = Some d'' \<and> dev_id d'' = i \<and> dev_owner d'' = h \<and>
        dev_type d'' = dev_type d" for m
      using packet_devices_owned [of "devices_of E v" i d' h m] d' by force
    with receive_refines [of E h v s data] v show "wp (receivedMessageHandler E s data) (\<lambda>_. ?I) v"
      by (auto simp: wp_iff)
  qed
  then show ?thesis by (rule wp_weaken) blast
qed

theorem own_devices_stay_witness:
  "\<exists>d'. devices_of demo (snd (readBlocking [Packet ''10.0.0.2:80'' (datagram (NewMessage (small_id 9) (small_id 2)
       MessageTypeEventSync (syncPayload (NewDevice (small_id 1) (small_id 2) 2 1 MaxInt))))]
     (receivedMessageHandler demo) (demo_with (NewDevice (small_id 1) demo_host 1 0 7)))) (small_id 1) = Some d' \<and>
     dev_owner d' = demo_host"
proof -
  let ?d = "NewDevice (small_id 1) demo_host 1 0 7"
  have "devices_of demo (demo_with ?d) (small_id 1) = Some ?d" using demo_with(2) [of ?d] by simp
  from own_devices_stay [OF demo_with(1) this, of "[Packet ''10.0.0.2:80'' (datagram (NewMessage (small_id 9)
      (small_id 2) MessageTypeEventSync (syncPayload (NewDevice (small_id 1) (small_id 2) 2 1 MaxInt))))]"]
  show ?thesis by (auto simp: wp_iff)
qed

text \<open>
  C11. On a host whose store opens whenever it is asked (the section on the store that cannot be
  opened shows what happens otherwise), no packet makes a stored device disappear or go back to an earlier version, as long as its version is not the largest
  integer (from which the next one wraps to the smallest).
\<close>

theorem versions_never_decrease:
  assumes "steady_ok E h w" and "devices_of E w i = Some d" and "dev_version d \<noteq> MaxInt"
  shows "wp (receivedMessageHandler E a data) (\<lambda>_ w'. \<exists>d'. devices_of E w' i = Some d' \<and>
    sint (dev_version d) \<le> sint (dev_version d')) w"
proof -
  have "i \<noteq> ZeroId" using repo.dev_id_law [OF steady_okD(2) [OF assms(1)] assms(2)] by simp
  then have "\<exists>d'. packet_devices h m (devices_of E w) i = Some d' \<and> sint (dev_version d) \<le> sint (dev_version d')" for m
    by (rule packet_devices_version [of "devices_of E w" i d, OF assms(2) _ assms(3)])
  with receive_refines [OF assms(1), of a data] assms(2) show ?thesis
    by (auto simp: wp_iff)
qed

theorem versions_never_decrease_witness:
  "\<exists>d'. devices_of demo (snd (receivedMessageHandler demo ''10.0.0.2:80'' (datagram (NewMessage (small_id 9) (small_id 2)
       MessageTypeEventSync (syncPayload (NewDevice (small_id 1) (small_id 2) 2 1 3))))
     (demo_with (NewDevice (small_id 1) (small_id 2) 1 0 7)))) (small_id 1) = Some d' \<and> 7 \<le> sint (dev_version d')"
  using versions_never_decrease [where i = "small_id 1" and d = "NewDevice (small_id 1) (small_id 2) 1 0 7",
      OF demo_with(1) [of "NewDevice (small_id 1) (small_id 2) 1 0 7"]]
    demo_with(2) [of "NewDevice (small_id 1) (small_id 2) 1 0 7"]
  by (simp add: wp_iff MaxInt_def)

text \<open>
  C12. A message is handled once: a packet with the identifier of a message that was received less than
  ten seconds ago is dropped without an error, whatever else it holds, whoever sends it and whatever
  packets came in between. Devices, peers and the socket stay as they are and nothing is sent.
\<close>

theorem duplicate_dropped:
  assumes "world_ok E h w" and "\<not> seen E (msg_id m) w"
    and "receivedMessageHandler E a (datagram m) w = (r, v)"
    and "readBlocking events (receivedMessageHandler E) v = (q, w')"
    and "clock E (moment w') \<le> clock E (moment w) + timeToLive" and "msg_id m' = msg_id m"
  shows "wp (receivedMessageHandler E a' (datagram m')) (\<lambda>r u. r = Ok () \<and> disk u = disk w' \<and>
    peer_cache u = peer_cache w' \<and> sent u = sent w' \<and> udp u = udp w') w'"
  using new_then_seen [OF assms(1-5)] receive_seen [of E h w' m' a'] assms(6) by (auto elim: wp_weaken)

theorem duplicate_dropped_witness:
  "let m = NewMessage (small_id 9) (small_id 2) MessageTypeEventFarewell [];
       w' = snd (receivedMessageHandler demo ''a'' (datagram m) demo_world)
   in fst (receivedMessageHandler demo ''b'' (datagram (m\<lparr>msg_type := MessageTypeCommandHail\<rparr>)) w') = Ok () \<and>
     peer_cache (snd (receivedMessageHandler demo ''b'' (datagram (m\<lparr>msg_type := MessageTypeCommandHail\<rparr>)) w')) = peer_cache w'"
proof -
  let ?m = "NewMessage (small_id 9) (small_id 2) MessageTypeEventFarewell []"
  obtain r v where run: "receivedMessageHandler demo ''a'' (datagram ?m) demo_world = (r, v)"
    by (cases "receivedMessageHandler demo ''a'' (datagram ?m) demo_world")
  have "moment v = 5"
    using run unfolding receive_datagram_eq dispatch_by_type
    by (auto simp: cache_ContainsMessage_def cache_Hold_def on_cache_def act_simps deletePeerUseCase_def
        NewDeletePeerUseCase_def peers_RemovePeer_def on_peers_def demo_world_def NewWorld_def
        messageCache_ContainsMessage_def messageCache_clearOutdated_def NewMessageCache_def)
  then have "clock demo (moment v) \<le> clock demo (moment demo_world) + timeToLive"
    by (simp add: demo_def timeToLive_def)
  then show ?thesis
    using duplicate_dropped [OF demo_world_ok demo_unseen(1) run, of "[]" "Ok ()" v "?m\<lparr>msg_type := MessageTypeCommandHail\<rparr>" "''b''"]
    by (simp add: run wp_iff act_simps)
qed

text \<open>
  C13. What ends the process: the handler of a packet panics exactly when the packet is a message that
  was not seen before, a sync event with 35 to 41 bytes of data; and so a process with an open socket
  can be crashed, by any sender, with any such message.
\<close>

theorem crash_iff_truncated_sync:
  assumes "world_ok E h w"
  shows "wp (receivedMessageHandler E a data) (\<lambda>r w'. world_ok E h w' \<and>
      (r = Panic \<longleftrightarrow> (\<exists>m. data = datagram m \<and> truncated_sync m \<and> \<not> seen E (msg_id m) w))) w \<and>
    ((\<exists>w'. process_step E (Running w) (Crashed w')) \<longleftrightarrow>
      connection (udp w) \<noteq> None \<and> (\<exists>m. truncated_sync m \<and> \<not> seen E (msg_id m) w))"
proof (intro conjI iffI)
  show "wp (receivedMessageHandler E a data) (\<lambda>r w'. world_ok E h w' \<and>
      (r = Panic \<longleftrightarrow> (\<exists>m. data = datagram m \<and> truncated_sync m \<and> \<not> seen E (msg_id m) w))) w"
    by (rule receive_ok [OF assms])
  assume "\<exists>w'. process_step E (Running w) (Crashed w')"
  then obtain c sender d w' where c: "connection (udp w) = Some c"
    and run: "receivedMessageHandler E sender d w = (Panic, w')"
    by (auto elim: process_stepE)
  show "connection (udp w) \<noteq> None" "\<exists>m. truncated_sync m \<and> \<not> seen E (msg_id m) w"
    using c wpD [OF receive_ok [OF assms] run] by auto
next
  assume "connection (udp w) \<noteq> None \<and> (\<exists>m. truncated_sync m \<and> \<not> seen E (msg_id m) w)"
  then obtain c m where c: "connection (udp w) = Some c" and m: "truncated_sync m" "\<not> seen E (msg_id m) w" by blast
  obtain r w' where run: "receivedMessageHandler E '''' (datagram m) w = (r, w')"
    by (cases "receivedMessageHandler E '''' (datagram m) w")
  then have "r = Panic" using wpD [OF receive_ok [OF assms] run] m by blast
  then show "\<exists>w'. process_step E (Running w) (Crashed w')" using process_step.crash [OF c] run by blast
qed

theorem crash_iff_truncated_sync_witness: "\<exists>w'. process_step demo (Running demo_world) (Crashed w')"
proof -
  have "truncated_sync (NewMessage (small_id 9) (small_id 2) MessageTypeEventSync (replicate 35 0))"
    by (simp add: truncated_sync_def)
  then show ?thesis
    using crash_iff_truncated_sync [OF demo_world_ok] demo_unseen(1) by (auto simp: demo_world_def)
qed

text \<open>
  C14. In every state that a process can reach from a disk the program has written, whatever is
  requested, received and refused in whatever order, and whether the store opens or not, the invariant
  holds as long as no deletion from the store fails with the work half done: the store is a table of whole
  devices with an index of them, its keys are one or two identifiers long, the host is asked for one
  identity, and the caches are in order, also in the state a crash leaves behind.
\<close>

theorem reachable_states_ok:
  assumes "drop_atomic E" and "start_ok E h a b d" and "reachable E a b d p"
  shows "world_ok E h (process_world p)"
  using assms(3)
proof induction
  case start
  show ?case using world_ok_start [OF assms(2)] by simp
next
  case (step p q)
  then show ?case using world_ok_step [OF assms(1)] by blast
qed

theorem reachable_states_ok_witness:
  "world_ok demo demo_host (snd (server_Handle ''POST /network'' (NewJoinNetworkRequestHandler (joinNetwork demo))
     (demo_request '''') (snd (api_Serve demo (NewWorld 8080 8081 [])))))"
proof -
  let ?w = "snd (api_Serve demo (NewWorld 8080 8081 []))"
  have start: "serverState (api (NewWorld 8080 8081 [])) = NotStarted" by (simp add: NewWorld_def NewHttpServer_def)
  have serving: "serverState (api ?w) = Serving"
    by (simp add: api_Serve_def on_api_def server_Serve_def ListenAndServe_def NewWorld_def NewHttpServer_def demo_def)
  have "reachable demo 8080 8081 [] (Running ?w)"
    by (rule reachable.step [OF reachable.start process_step.serve [OF start prod.collapse [symmetric]]])
  moreover have "(''POST /network'', NewJoinNetworkRequestHandler (joinNetwork demo)) \<in> set (routes demo)"
    by (simp add: routes_def)
  from process_step.request [OF serving this prod.collapse [symmetric]]
  have "process_step demo (Running ?w) (Running (snd (server_Handle ''POST /network''
     (NewJoinNetworkRequestHandler (joinNetwork demo)) (demo_request '''') ?w)))" .
  ultimately have "reachable demo 8080 8081 [] (Running (snd (server_Handle ''POST /network''
     (NewJoinNetworkRequestHandler (joinNetwork demo)) (demo_request '''') ?w)))"
    by (rule reachable.step)
  from reachable_states_ok [OF demo_drop_atomic demo_start_ok this] show ?thesis by simp
qed

section \<open>Messages between hosts\<close>

text \<open>
  C15. What a new sync event makes the host send: nothing; or, to at most five different known peers,
  the event itself when its device was saved, and otherwise the device the host has, in a message of
  its own. Nothing is sent for a device of the host itself, and an event that is passed on does not go
  back to the peer it came from within ten seconds.
\<close>

theorem sync_event_gossip:
  assumes w: "steady_ok E h w" and new: "\<not> seen E i w"
    and m: "m = NewMessage i s MessageTypeEventSync (syncPayload c)"
  shows "wp (receivedMessageHandler E a (datagram m)) (\<lambda>r w'. sent w' = sent w \<or>
    (\<exists>m' qs. sync_answer h (devices_of E w) c m m' \<and>
      sent w' = sent w @ map (\<lambda>p. (peer_address p, datagram m')) qs \<and>
      distinct (map peer_id qs) \<and> set qs \<subseteq> ran (known_peer (peer_cache w)) \<and> length qs \<le> 5 \<and>
      (msg_id m' = i \<and> clock E (moment w') < clock E (moment w) + timeToLive \<longrightarrow> s \<notin> peer_id ` set qs))) w"
    (is "wp _ ?Q w")
  unfolding m
proof (rule receive_steady [OF w new], fold m)
  fix v assume v: "steady_ok E h v" "devices_of E v = devices_of E w"
      "post_office v = (sent w, udp w, peer_cache w, message_cache v)" "handled_in E m w v"
  have reader: "NewSyncMessageReader m = Ok c" unfolding m by (rule sync.decode_sent)
  have mono: "mono (clock E)" using world_okD(7) [OF steady_okD(2) [OF w]] by (simp add: env_ok_def)
  obtain D where D: "clock E (moment w) + timeToLive \<le> D" "deadline (message_cache v) i s = Some D"
    using v(4) by (auto simp: handled_in_def m)
  show "wp (dispatch_packet E a m) ?Q v"
    unfolding m dispatch_by_type
  proof (fold m, rule wp_weaken [OF sync_sends [OF v(1) reader]], elim disjE exE conjE)
    fix r w' m' assume "spreads E (msg_id m') MinInt m' v w'" and ans: "sync_answer h (devices_of E v) c m m'"
    from spreads_recipients [OF this(1) mono] obtain qs
      where "sent w' = sent v @ map (\<lambda>p. (peer_address p, datagram m')) qs" "distinct (map peer_id qs)"
        "set qs \<subseteq> ran (known_peer (peer_cache v))" "length qs \<le> 5"
        "\<And>p D. p \<in> set qs \<Longrightarrow> deadline (message_cache v) (msg_id m') (peer_id p) = Some D \<Longrightarrow> D \<le> clock E (moment w')"
      by (auto simp: sint_MinInt)
    then show "?Q r w'"
      using ans v(2,3) D by (intro disjI2 exI [of _ m'] exI [of _ qs]) (force simp: post_office_def)
  qed (use v(3) in \<open>simp add: post_office_def\<close>)
qed

theorem sync_event_gossip_witness:
  "sent (snd (receivedMessageHandler demo ''10.0.0.2:80'' (datagram (NewMessage (small_id 9) (small_id 2)
     MessageTypeEventSync (syncPayload (NewDevice (small_id 1) (small_id 2) 1 1 8))))
     (demo_with (NewDevice (small_id 1) demo_host 1 0 7)))) = sent (demo_with (NewDevice (small_id 1) demo_host 1 0 7))"
  using sync_event_gossip [where i = "small_id 9" and a = "''10.0.0.2:80''" and s = "small_id 2"
      and c = "NewDevice (small_id 1) (small_id 2) 1 1 8",
      OF demo_with(1) [of "NewDevice (small_id 1) demo_host 1 0 7"] demo_unseen(2) refl]
    demo_with(2) [of "NewDevice (small_id 1) demo_host 1 0 7"]
  by (auto simp: wp_iff sync_answer_def)

text \<open>
  C16. A command for a device of another host is passed on as it came. The peers for it are selected for
  the identifier \<open>ZeroId\<close>, so that the quarantine of the message itself has no say in the selection:
  when nothing outside fails and at most five peers are known, it goes to every one of them, the one
  it came from included.
\<close>

theorem command_relayed_to_all:
  assumes w: "steady_ok E h w" and new: "\<not> seen E i w"
    and m: "m = NewMessage i s MessageTypeCommandPatch (patchPayload j st)"
    and other: "\<forall>d. devices_of E w j = Some d \<longrightarrow> dev_owner d \<noteq> h \<and> dev_type d \<noteq> DeviceTypeUnknown"
    and fine: "able E" "reaches E" "connection (udp w) \<noteq> None"
    and few: "length (peers (peer_cache w)) \<le> 5" and zero: "\<forall>p. deadline (message_cache w) ZeroId p = None" and i: "i \<noteq> ZeroId"
  shows "wp (receivedMessageHandler E a (datagram m)) (\<lambda>r w'. r = Ok () \<and> (\<exists>qs.
    sent w' = sent w @ map (\<lambda>p. (peer_address p, datagram m)) qs \<and> distinct (map peer_id qs) \<and>
    set qs = ran (known_peer (peer_cache w)))) w" (is "wp _ ?Q w")
  unfolding m
proof (rule receive_new_by_type [OF steady_okD(2) [OF w] new], fold m)
  fix v assume v: "world_ok E h v" "handled_in E m w v"
  have st: "steady_ok E h v" using w v(1) by (simp add: steady_ok_def)
  have dv: "devices_of E v = devices_of E w" using v(2) by (intro devices_of_disk) (simp add: handled_in_def)
  have mono: "mono (clock E)" using world_okD(7) [OF v(1)] by (simp add: env_ok_def)
  have reader: "NewPatchMessageReader m = Ok (j, st)" unfolding m using patch.decode_sent [of _ _ _ "(j, st)"] by simp
  have quarantine: "\<forall>p. deadline (message_cache v) ZeroId p = None"
    using v(2) zero i by (auto simp: handled_in_def m)
  have "wp (updateStateUseCase E a m) ?Q v"
  proof (rule wp_weaken [OF wp_both_hold [OF patch_sends [OF st reader] updateState_Ok [OF fine(1) st reader]]])
    show "\<forall>d. devices_of E v j = Some d \<longrightarrow> dev_type d \<noteq> DeviceTypeUnknown" using other dv by simp
    fix r w'
    assume run: "(sent w' = sent v \<and> r \<notin> range Ok \<or> r = Ok () \<and> (\<exists>m'. spreads E ZeroId MinInt m' v w' \<and>
        patch_answer h (devices_of E v) j st (\<lambda>m'. m' = m) m')) \<and>
      r = Ok () \<and> devices_of E w' = patch_devices h j st (devices_of E v)"
    then have "spreads E ZeroId MinInt m v w'" using other dv by (auto simp: patch_answer_def)
    from spreads_recipients [OF this mono] fine v(2) quarantine obtain qs
      where qs: "sent w' = sent v @ map (\<lambda>p. (peer_address p, datagram m)) qs" "distinct (map peer_id qs)"
        "set qs \<subseteq> ran (known_peer (peer_cache v))" "length qs = min 5 (length (peers (peer_cache v)))"
      by (auto simp: handled_in_def sint_MinInt)
    have "set qs = ran (known_peer (peer_cache v))"
      by (rule all_known) (use qs few v(2) in \<open>auto simp: handled_in_def distinct_map\<close>)
    then show "?Q r w'" using run qs(1,2) v(2) by (auto simp: handled_in_def)
  qed
  then show "wp (dispatch_packet E a m) ?Q v" unfolding m dispatch_by_type .
qed

theorem command_relayed_to_all_witness:
  "\<exists>qs. sent (snd (receivedMessageHandler demo ''10.0.0.2:80'' (datagram (NewMessage (small_id 9) (small_id 2)
       MessageTypeCommandPatch (patchPayload (small_id 1) 1))) (demo_among [NewPeer (small_id 2) ''10.0.0.2:80'']))) =
     map (\<lambda>p. (peer_address p, datagram (NewMessage (small_id 9) (small_id 2) MessageTypeCommandPatch (patchPayload (small_id 1) 1)))) qs \<and>
     set qs = {NewPeer (small_id 2) ''10.0.0.2:80''}"
proof -
  let ?w = "demo_among [NewPeer (small_id 2) ''10.0.0.2:80'']"
  have "\<not> seen demo (small_id 9) ?w" by (rule demo_among)
  note run = command_relayed_to_all [OF demo_among(1) this refl, where j = "small_id 1" and a = "''10.0.0.2:80''" and s = "small_id 2" and st = 1]
  show ?thesis
    using run demo_able demo_reaches by (auto simp: wp_iff demo_among(3-6) demo_one_peer)
qed

text \<open>
  C17. The peers for a message: different peers, all known, none of them with a deadline for the message
  that still lies ahead; no more than were asked for (five, for a count of zero or less), and exactly
  as many, or all known peers when there are fewer, if the message is new to all of them. The answer
  never fails, and choosing peers sends nothing.
\<close>

theorem random_peers_selection:
  assumes "world_ok E h w"
  shows "wp (getRandomPeersUseCase E m n) (\<lambda>r w'. world_ok E h w' \<and> disk w' = disk w \<and> sent w' = sent w \<and>
    (\<exists>ps. r = Ok ps \<and> distinct (map peer_id ps) \<and> set ps \<subseteq> ran (known_peer (peer_cache w)) \<and>
      (\<forall>p \<in> set ps. \<forall>D. deadline (message_cache w) m (peer_id p) = Some D \<longrightarrow> D \<le> clock E (moment w')) \<and>
      length ps \<le> nat (if sint n \<le> 0 then 5 else sint n) \<and>
      ((\<forall>i. known_peer (peer_cache w) i \<noteq> None \<longrightarrow> deadline (message_cache w) m i = None) \<longrightarrow>
        length ps = min (nat (if sint n \<le> 0 then 5 else sint n)) (length (peers (peer_cache w)))))) w"
  by (rule wp_weaken [OF random_peers_wp [OF assms]]) (auto simp: selection_def)

theorem random_peers_selection_witness:
  "\<exists>ps. fst (getRandomPeersUseCase demo (small_id 9) 0 (demo_among [NewPeer (small_id 2) ''10.0.0.2:80''])) = Ok ps \<and> length ps = 1"
  using random_peers_selection [OF steady_okD(2) [OF demo_among(1)], of "small_id 9" 0 "[NewPeer (small_id 2) ''10.0.0.2:80'']"]
  by (auto simp: wp_iff demo_among(4) demo_one_peer)

text \<open>
  C18. A hail that was not seen before: its sender becomes a known peer at the address the packet came
  from, the devices stay, and the sender is sent sync events, at most one for each device and with the
  device as it is stored; when nothing outside fails, every device is among them whose type can be
  read and whose identifier is not that of an attribute name.
\<close>

theorem hail_answered:
  assumes w: "steady_ok E h w" and new: "\<not> seen E i w"
  shows "wp (receivedMessageHandler E a (datagram (NewMessage i s MessageTypeCommandHail b))) (\<lambda>r w'. r = Ok () \<and>
    devices_of E w' = devices_of E w \<and>
    known_peer (peer_cache w') = (known_peer (peer_cache w))(s \<mapsto> NewPeer s a) \<and>
    (\<exists>xs ds. sent w' = sent w @ xs \<and> announces a ds xs \<and> distinct ds \<and>
      (\<forall>d \<in> set ds. devices_of E w (dev_id d) = Some d) \<and>
      (able E \<and> reaches E \<and> connection (udp w) \<noteq> None \<longrightarrow>
        (\<forall>j d. devices_of E w j = Some d \<and> dev_type d \<noteq> DeviceTypeUnknown \<and> j \<notin> set (attribute_ids (uuid E)) \<longrightarrow>
          d \<in> set ds)))) w" (is "wp (receivedMessageHandler E a (datagram ?m)) ?Q w")
proof (rule receive_steady [OF w new])
  fix v assume v: "steady_ok E h v" "devices_of E v = devices_of E w" "handled_in E ?m w v"
  have same: "disk v = disk w" "peer_cache v = peer_cache w" "sent v = sent w" "udp v = udp w"
    using v(3) by (simp_all add: handled_in_def)
  show "wp (dispatch_packet E a ?m) ?Q v"
    unfolding dispatch_by_type
    using wp_both_hold [OF salute_wp [OF steady_okD(2) [OF v(1)], of a ?m] salute_sends [OF v(1), of a ?m]]
  proof (rule wp_weaken, goal_cases)
    case (1 r w')
    then have "devices_of E w' = devices_of E w" using same(1) by (intro devices_of_disk) simp
    with 1 show ?case using v(2) same by simp
  qed
qed

theorem hail_answered_witness:
  "\<exists>xs ds. sent (snd (receivedMessageHandler demo ''10.0.0.2:80'' (datagram (NewMessage (small_id 9) (small_id 2)
       MessageTypeCommandHail [])) (demo_with (NewDevice (small_id 1) demo_host 1 0 7)))) =
     sent (demo_with (NewDevice (small_id 1) demo_host 1 0 7)) @ xs \<and> announces ''10.0.0.2:80'' ds xs \<and>
     set ds = {NewDevice (small_id 1) demo_host 1 0 7}"
proof -
  let ?d = "NewDevice (small_id 1) demo_host 1 0 7" and ?m = "NewMessage (small_id 9) (small_id 2) MessageTypeCommandHail []"
  let ?w' = "snd (receivedMessageHandler demo ''10.0.0.2:80'' (datagram ?m) (demo_with ?d))"
  have one: "devices_of demo (demo_with ?d) = [small_id 1 \<mapsto> ?d]" using demo_with(2) [of ?d] by simp
  have name: "small_id 1 \<notin> set (attribute_ids (uuid demo))"
    by (simp add: attribute_ids_def demo_def NewStringId_def demo_uuid_def StringToBytes_def small_id_def)
  have "\<exists>xs ds. sent ?w' = sent (demo_with ?d) @ xs \<and> announces ''10.0.0.2:80'' ds xs \<and> distinct ds \<and>
      (\<forall>d \<in> set ds. devices_of demo (demo_with ?d) (dev_id d) = Some d) \<and>
      (able demo \<and> reaches demo \<and> connection (udp (demo_with ?d)) \<noteq> None \<longrightarrow>
        (\<forall>j d. devices_of demo (demo_with ?d) j = Some d \<and> dev_type d \<noteq> DeviceTypeUnknown \<and>
          j \<notin> set (attribute_ids (uuid demo)) \<longrightarrow> d \<in> set ds))"
    using hail_answered [where i = "small_id 9" and a = "''10.0.0.2:80''" and s = "small_id 2" and b = "[]",
        OF demo_with(1) [of ?d] demo_unseen(2)] unfolding wp_iff by blast
  then obtain xs ds where ds: "sent ?w' = sent (demo_with ?d) @ xs" "announces ''10.0.0.2:80'' ds xs"
    and stored: "\<forall>d \<in> set ds. devices_of demo (demo_with ?d) (dev_id d) = Some d"
    and all: "able demo \<and> reaches demo \<and> connection (udp (demo_with ?d)) \<noteq> None \<longrightarrow>
        (\<forall>j d. devices_of demo (demo_with ?d) j = Some d \<and> dev_type d \<noteq> DeviceTypeUnknown \<and>
          j \<notin> set (attribute_ids (uuid demo)) \<longrightarrow> d \<in> set ds)" by blast
  have type: "dev_type ?d \<noteq> DeviceTypeUnknown" by (simp add: DeviceTypeUnknown_def)
  have at: "devices_of demo (demo_with ?d) (small_id 1) = Some ?d" by (simp add: one)
  have "connection (udp (demo_with ?d)) \<noteq> None" by (simp add: demo_with(5))
  then have "?d \<in> set ds" using all demo_able demo_reaches at type name by blast
  moreover have "d = ?d" if "d \<in> set ds" for d
    using stored [THEN bspec, OF that] unfolding one by (cases "dev_id d = small_id 1") simp_all
  ultimately show ?thesis using ds by blast
qed

text \<open>
  C21. Peers come and go by messages: a farewell that was not seen before makes the host forget its
  sender and no one else; a peer event makes it know the sender, at the address of the packet, and the
  peer that the event names. Neither changes a device or sends anything.
\<close>

theorem peers_come_and_go:
  assumes "world_ok E h w" and "\<not> seen E i w"
  shows "wp (receivedMessageHandler E a (datagram (NewMessage i s MessageTypeEventFarewell b))) (\<lambda>r w'. r = Ok () \<and>
      devices_of E w' = devices_of E w \<and> sent w' = sent w \<and>
      known_peer (peer_cache w') = (known_peer (peer_cache w))(s := None)) w \<and>
    wp (receivedMessageHandler E a (datagram (NewMessage i s MessageTypeEventPeer (peerPayload p)))) (\<lambda>r w'. r = Ok () \<and>
      devices_of E w' = devices_of E w \<and> sent w' = sent w \<and>
      known_peer (peer_cache w') = (known_peer (peer_cache w))(s \<mapsto> NewPeer s a, peer_id p \<mapsto> p)) w"
    (is "wp _ ?F w \<and> wp (receivedMessageHandler E a (datagram ?m)) ?P w")
proof
  show "wp (receivedMessageHandler E a (datagram (NewMessage i s MessageTypeEventFarewell b))) ?F w"
  proof (rule receive_new_by_type [OF assms])
    fix v assume v: "handled_in E (NewMessage i s MessageTypeEventFarewell b) w v"
    show "wp (dispatch_packet E a (NewMessage i s MessageTypeEventFarewell b)) ?F v"
      unfolding dispatch_by_type
      by (rule wp_weaken [OF farewell_wp]) (use v in \<open>auto simp: handled_in_def intro: devices_of_disk\<close>)
  qed
  show "wp (receivedMessageHandler E a (datagram ?m)) ?P w"
  proof (rule receive_new_by_type [OF assms])
    fix v assume v: "handled_in E ?m w v"
    show "wp (dispatch_packet E a ?m) ?P v"
      unfolding dispatch_by_type
      by (rule wp_weaken [OF peer_wp [OF peer.decode_sent]]) (use v in \<open>auto simp: handled_in_def intro: devices_of_disk\<close>)
  qed
qed

theorem peers_come_and_go_witness:
  "known_peer (peer_cache (snd (receivedMessageHandler demo ''10.0.0.2:80'' (datagram (NewMessage (small_id 9) (small_id 2)
     MessageTypeEventFarewell [])) (demo_among [NewPeer (small_id 2) ''10.0.0.2:80''])))) (small_id 2) = None"
  using peers_come_and_go [OF steady_okD(2) [OF demo_among(1)] demo_among(2)] by (simp add: wp_iff)

section \<open>The requests of the REST API\<close>

text \<open>
  C22. The check of the owner in \<open>DELETE /device/{id}\<close> is the wrong way round. The API documents the request as
  "Delete a device previously created by you", and the comment beside the check says "We can only delete
  our devices"; but with 403 the device is one of this host and nothing has changed, and with 200 it was
  another host's and its copy is gone, with no other device changed. With 404 nothing has changed either,
  unless the deletion itself failed on the way. On a store that opens, a device of this host is always
  refused, and one of another host, when no deletion fails, is always deleted.
\<close>

theorem delete_refuses_the_owner:
  assumes w: "world_ok E h w" and i: "i = NewStringId (uuid E) (PathValue req ''id'')"
  shows "wp (server_Handle ''DELETE /device/{id}'' (NewDeleteDeviceRequestHandler (uuid E) (deleteDeviceUseCase E)) req)
    (\<lambda>r w'. \<exists>res. r = Ok res \<and>
      (response_status res = 200 \<and> (\<exists>d. devices_of E w i = Some d \<and> dev_owner d \<noteq> h) \<and> world_ok E h w' \<and>
         devices_of E w' = (devices_of E w)(i := None) \<or>
       response_status res = 403 \<and> (\<exists>d. devices_of E w i = Some d \<and> dev_owner d = h) \<and> world_ok E h w' \<and>
         devices_of E w' = devices_of E w \<or>
       response_status res = 404 \<and> (world_ok E h w' \<and> devices_of E w' = devices_of E w \<or> half_dropped E i (disk w) (disk w'))) \<and>
      (opens E \<longrightarrow> (\<forall>d. devices_of E w i = Some d \<longrightarrow> (dev_owner d = h \<longrightarrow> response_status res = 403) \<and>
         (dev_owner d \<noteq> h \<and> drops E \<longrightarrow> response_status res = 200)))) w"
    (is "wp _ ?Q w")
proof -
  obtain vs where vs: "map_of (requestArgs ''DELETE /device/{id}'' req) ''id'' = Some (PathValue req ''id'' # vs)"
    using id_argument(3) [of req] by blast
  show ?thesis
    unfolding server_Handle_def NewDeleteDeviceRequestHandler_def vs status_def i [symmetric] option.case list.case wp_simps
  proof (rule wp_weaken [OF deleteDevice_any [OF w, of i]], goal_cases)
    case (1 r w')
    then show ?case
      using devices_of_disk [of w' w E] by (cases r rule: result.exhaust) (auto simp: wp_simps)
  qed
qed

theorem delete_refuses_the_owner_witness:
  "\<exists>res res'. fst (server_Handle ''DELETE /device/{id}'' (NewDeleteDeviceRequestHandler (uuid demo) (deleteDeviceUseCase demo))
       (demo_request ''lamp'')
       (demo_with (NewDevice (NewStringId demo_uuid ''lamp'') demo_host 1 0 7))) = Ok res \<and> response_status res = 403 \<and>
     fst (server_Handle ''DELETE /device/{id}'' (NewDeleteDeviceRequestHandler (uuid demo) (deleteDeviceUseCase demo))
       (demo_request ''lamp'')
       (demo_with (NewDevice (NewStringId demo_uuid ''lamp'') (small_id 2) 1 0 7))) = Ok res' \<and> response_status res' = 200"
proof -
  let ?d = "\<lambda>h. NewDevice (NewStringId demo_uuid ''lamp'') h 1 0 7"
  have "dev_id (?d h) \<noteq> ZeroId" for h
    by (simp add: NewStringId_def demo_uuid_def StringToBytes_def ZeroId_array)
  then have d: "devices_of demo (demo_with (?d h)) (NewStringId (uuid demo) ''lamp'') = Some (?d h)" for h
    using demo_with(2) [of "?d h"] by (simp add: demo_def)
  have other: "small_id 2 \<noteq> demo_host"
    by (simp add: demo_host_def demo_uuid_def small_id_def demo_machine_def StringToBytes_def)
  note deletes = delete_refuses_the_owner [where req = "demo_request ''lamp''", OF steady_okD(2) [OF demo_with(1)] refl]
  show ?thesis
    using deletes [of "?d demo_host"] deletes [of "?d (small_id 2)"] d [of demo_host] d [of "small_id 2"] demo_opens demo_drops other
    by (auto simp: wp_iff)
qed

text \<open>
  C23. The request \<open>POST /device\<close> with a type and a state: with 200 there is one device more (or one
  replaced, if the drawn identifier is taken), owned by this host, with the type and state of the
  request taken modulo 256 and version 0, and the body is its identifier; with 500 no device has
  changed. Nothing is sent to any peer. When nothing outside fails the answer is 200.
\<close>

theorem create_request:
  assumes w: "world_ok E h w" and args: "requestArgs ''POST /device'' req = args"
    and type: "map_of args ''type'' = Some (text # vs)" "Atoi text = Ok n" and state: "stateArgument args = Some st"
  shows "wp (server_Handle ''POST /device'' (NewCreateDeviceRequestHandler (uuid E) (createDeviceUseCase E)) req)
    (\<lambda>r w'. \<exists>res. r = Ok res \<and> world_ok E h w' \<and> sent w' = sent w \<and>
      (response_status res = 200 \<and> (\<exists>i. Ok (response_body res) = idToJson (uuid E) i \<and>
         devices_of E w' = save_devices (NewDevice i h (word_of_int n) st 0) (devices_of E w)) \<or>
       response_status res = 500 \<and> devices_of E w' = devices_of E w) \<and>
      (able E \<longrightarrow> response_status res = 200)) w"
proof -
  let ?create = "createDeviceUseCase E (word_of_int n) st"
  have "wp ?create (\<lambda>r w'. (world_ok E h w' \<and> r \<noteq> Panic \<and>
      (\<forall>i. r = Ok i \<longrightarrow> devices_of E w' = save_devices (NewDevice i h (word_of_int n) st 0) (devices_of E w)) \<and>
      (r \<notin> range Ok \<longrightarrow> devices_of E w' = devices_of E w)) \<and> post_office w' = post_office w) w"
    unfolding createDeviceUseCase_def
    by (rule wp_both_hold [OF net.createDevice_wp [OF w quiet_devices [OF quiet_random]] wp_within])
      (intro same.within_data_usecases office.random_in office.host_in office_persisters)
  moreover have "wp ?create (\<lambda>r _. able E \<longrightarrow> r \<in> range Ok) w"
  proof (cases "able E")
    case True
    have "wp ?create (\<lambda>r _. r \<in> range Ok) w"
      unfolding createDeviceUseCase_def NewCreateDeviceUseCase_def wp_bind wp_return Let_def
    proof (rule quiet_law_wpI [OF quiet_GetHostId w host_Ok [OF w]], simp, rule wp_weaken [OF random_Ok [OF True]], goal_cases)
      case (1 u v q x)
      have "wp (devicePersister E d) (after (\<lambda>_ _. True) (\<lambda>r _. r \<in> range Ok)) v" for d v
        by (rule wp_weaken [OF persisters_Ok(1)]) (use True in \<open>simp_all add: able_def\<close>)
      then show ?case using 1 by auto
    qed
    then show ?thesis by (rule wp_weaken) simp
  qed (simp add: wp_iff)
  ultimately have "wp ?create (\<lambda>r w'. ((world_ok E h w' \<and> r \<noteq> Panic \<and>
      (\<forall>i. r = Ok i \<longrightarrow> devices_of E w' = save_devices (NewDevice i h (word_of_int n) st 0) (devices_of E w)) \<and>
      (r \<notin> range Ok \<longrightarrow> devices_of E w' = devices_of E w)) \<and> post_office w' = post_office w) \<and> (able E \<longrightarrow> r \<in> range Ok)) w"
    by (rule wp_both_hold)
  then show ?thesis
    unfolding server_Handle_def NewCreateDeviceRequestHandler_def args type state status_def Let_def
      option.case list.case result.case wp_simps
    by (rule wp_weaken) (auto split: result.split simp: wp_simps idToJson_def Marshal_def post_office_def)
qed

theorem create_request_witness:
  "\<exists>res. fst (server_Handle ''POST /device'' (NewCreateDeviceRequestHandler (uuid demo) (createDeviceUseCase demo))
       \<lparr>PathValue = (\<lambda>k. ''''), ParseForm = Inr [(''type'', [''1''])], ReadAll = ''''\<rparr> demo_world) = Ok res \<and>
     response_status res = 200"
proof -
  let ?req = "\<lparr>PathValue = (\<lambda>k. ''''), ParseForm = Inr [(''type'', [''1''])], ReadAll = ''''\<rparr>"
  have "requestArgs ''POST /device'' ?req = [(''type'', [''1''])]"
    by (simp add: requestArgs_def parseQueryAndFormValues_def Let_def keyChar_def)
  moreover have "Atoi ''1'' = Ok 1" by (simp add: Atoi_def isDigit_def digitsValue_def)
  moreover have "stateArgument [(''type'', [''1''])] = Some DeviceStateOff" by (simp add: stateArgument_def)
  ultimately show ?thesis
    using create_request [OF demo_world_ok, of ?req "[(''type'', [''1''])]" "''1''" "[]" 1 DeviceStateOff] demo_able
    by (auto simp: wp_iff)
qed

text \<open>
  C24. The request \<open>GET /device\<close> on a store that opens is answered with 200 and a list of identifiers
  without repetition, which holds exactly the identifiers of the stored devices, apart from the four
  identifiers of the attribute names. It changes no device and sends nothing.
\<close>

theorem device_ids_request:
  assumes w: "steady_ok E h w"
  shows "wp (server_Handle ''GET /device'' (NewGetDeviceIdsRequestHandler (uuid E) (deviceIdsProvider E)) req)
    (\<lambda>r w'. \<exists>res ids. r = Ok res \<and> response_status res = 200 \<and> Ok (response_body res) = idsToJson (uuid E) ids \<and>
      distinct ids \<and> ZeroId \<notin> set ids \<and>
      (\<forall>i. i \<notin> set (attribute_ids (uuid E)) \<longrightarrow> i \<in> set ids \<longleftrightarrow> devices_of E w i \<noteq> None) \<and>
      devices_of E w' = devices_of E w \<and> sent w' = sent w) w"
  unfolding server_Handle_def NewGetDeviceIdsRequestHandler_def wp_simps
proof (rule wp_weaken [OF device_ids_wp [OF w]], goal_cases)
  case (1 r w')
  then obtain ids where "r = Ok ids" "distinct ids" "ZeroId \<notin> set ids"
    "\<forall>i. i \<notin> set (attribute_ids (uuid E)) \<longrightarrow> i \<in> set ids \<longleftrightarrow> devices_of E w i \<noteq> None" by blast
  then show ?case
    using 1 by (simp add: wp_simps idsToJson_def Marshal_def post_office_def) blast
qed

theorem device_ids_request_witness:
  "\<exists>res ids. fst (server_Handle ''GET /device'' (NewGetDeviceIdsRequestHandler (uuid demo) (deviceIdsProvider demo)) (demo_request '''')
       (demo_with (NewDevice (small_id 1) demo_host 1 0 7))) = Ok res \<and> response_status res = 200 \<and>
     Ok (response_body res) = idsToJson (uuid demo) ids \<and> small_id 1 \<in> set ids"
proof -
  let ?d = "NewDevice (small_id 1) demo_host 1 0 7"
  have name: "small_id 1 \<notin> set (attribute_ids (uuid demo))"
    by (simp add: attribute_ids_def demo_def NewStringId_def demo_uuid_def StringToBytes_def small_id_def)
  have at: "devices_of demo (demo_with ?d) (small_id 1) \<noteq> None" using demo_with(2) [of ?d] by simp
  show ?thesis
    using device_ids_request [OF demo_with(1) [of ?d], of "demo_request ''''"] name at unfolding wp_iff by blast
qed

text \<open>
  C25. The request \<open>GET /device/{id}\<close> on a store that opens: 200 with the device as it is stored, and 404
  when there is none or its type is the one that stands for unknown. It changes no device and sends
  nothing.
\<close>

theorem device_request:
  assumes w: "steady_ok E h w" and i: "i = NewStringId (uuid E) (PathValue req ''id'')" "i \<noteq> ZeroId"
  shows "wp (server_Handle ''GET /device/{id}'' (NewGetDeviceRequestHandler (uuid E) (deviceProvider E)) req)
    (\<lambda>r w'. \<exists>res. r = Ok res \<and> devices_of E w' = devices_of E w \<and> sent w' = sent w \<and>
      (case devices_of E w i of
         None \<Rightarrow> response_status res = 404
       | Some d \<Rightarrow>
           (if dev_type d = DeviceTypeUnknown then response_status res = 404
            else response_status res = 200 \<and> Ok (response_body res) = deviceToJson (uuid E) d))) w"
proof -
  obtain vs where vs: "map_of (requestArgs ''GET /device/{id}'' req) ''id'' = Some (PathValue req ''id'' # vs)"
    using id_argument(1) [of req] by blast
  have "wp (deviceProvider E i) (\<lambda>_ w'. post_office w' = post_office w) w" by (rule wp_within [OF office.providers_in(1)])
  moreover have "wp (deviceProvider E i) (\<lambda>_ w'. devices_of E w' = devices_of E w) w"
    by (rule quiet_wpI [OF steady.device_quiet w])
  ultimately show ?thesis
    unfolding server_Handle_def NewGetDeviceRequestHandler_def vs first_def status_def i(1) [symmetric] option.case list.case
      pure_Ok return_bind wp_simps
    using device_read [OF w i(2)]
    by (auto simp: wp_iff deviceToJson_def Marshal_def post_office_def act_simps split: option.split)
qed

theorem device_request_witness:
  "\<exists>res. fst (server_Handle ''GET /device/{id}'' (NewGetDeviceRequestHandler (uuid demo) (deviceProvider demo))
       (demo_request ''lamp'') demo_world) = Ok res \<and> response_status res = 404"
proof -
  have "NewStringId (uuid demo) ''lamp'' \<noteq> ZeroId"
    by (simp add: demo_def NewStringId_def demo_uuid_def StringToBytes_def ZeroId_array)
  then show ?thesis
    using device_request [OF _ refl, of demo demo_host demo_world "demo_request ''lamp''"]
      demo_opens demo_world_ok
    by (auto simp: steady_ok_def demo_world_empty wp_iff)
qed

text \<open>
  C26. A device that is stored is read back as it was, through the adapters and the key-value store:
  when saving succeeds, the devices are what they were with this one set, and reading it gives every
  field of it, or an error when its type is the one that stands for unknown. On a store that accepts
  every write, saving succeeds.
\<close>

theorem saved_device_is_loaded:
  assumes w: "steady_ok E h w" and i: "dev_id d \<noteq> ZeroId"
  shows "wp (devicePersister E d) (\<lambda>r v.
    (r = Ok () \<longrightarrow> devices_of E v = (devices_of E w)(dev_id d \<mapsto> d) \<and>
      wp (deviceProvider E (dev_id d)) (\<lambda>q _. q = (if dev_type d = DeviceTypeUnknown then Err ErrDataFormat else Ok d)) v) \<and>
    (r \<noteq> Ok () \<longrightarrow> devices_of E v = devices_of E w) \<and> (accepts (badger_db E) \<longrightarrow> r = Ok ())) w"
proof (rule wp_weaken [OF wp_both_hold [OF steady.saveDevice_law [OF w, of d]]])
  show "wp (devicePersister E d) (\<lambda>r _. accepts (badger_db E) \<longrightarrow> r = Ok ()) w"
    by (cases "accepts (badger_db E)") (simp_all add: persisters_Ok, simp add: wp_iff)
  fix r v
  assume *: "(steady_ok E h v \<and> r \<noteq> Panic \<and>
      devices_of E v = (if r = Ok () then save_devices d (devices_of E w) else devices_of E w)) \<and>
    (accepts (badger_db E) \<longrightarrow> r = Ok ())"
  have "wp (deviceProvider E (dev_id d)) (\<lambda>q _. q = (if dev_type d = DeviceTypeUnknown then Err ErrDataFormat else Ok d)) v"
    if "r = Ok ()"
    using device_read [of E h v "dev_id d"] * that i by (simp add: save_devices_def)
  then show "(r = Ok () \<longrightarrow> devices_of E v = (devices_of E w)(dev_id d \<mapsto> d) \<and>
      wp (deviceProvider E (dev_id d)) (\<lambda>q _. q = (if dev_type d = DeviceTypeUnknown then Err ErrDataFormat else Ok d)) v) \<and>
    (r \<noteq> Ok () \<longrightarrow> devices_of E v = devices_of E w) \<and> (accepts (badger_db E) \<longrightarrow> r = Ok ())"
    using * i by (simp add: save_devices_def)
qed

theorem saved_device_is_loaded_witness:
  "fst (deviceProvider demo (small_id 1) (snd (devicePersister demo (NewDevice (small_id 1) (small_id 2) 1 1 (- 5)) demo_world))) =
     Ok (NewDevice (small_id 1) (small_id 2) 1 1 (- 5))"
proof -
  have "steady_ok demo demo_host demo_world" using demo_opens demo_world_ok by (simp add: steady_ok_def)
  from saved_device_is_loaded [OF this, of "NewDevice (small_id 1) (small_id 2) 1 1 (- 5)"] show ?thesis
    using demo_able by (simp add: wp_iff able_def DeviceTypeUnknown_def)
qed

text \<open>
  C27. A host that has not joined the network is silent: while its socket is closed, no request but the
  one to join makes it send a datagram or opens the socket.
\<close>

theorem offline_host_is_silent:
  assumes "(path, handler) \<in> set (routes E)" and "path \<noteq> ''POST /network''" and "connection (udp w) = None"
  shows "wp (server_Handle path handler req) (\<lambda>_ w'. connection (udp w') = None \<and> sent w' = sent w) w"
  using wp_within [OF offline.answer_in [OF assms(1)], of req w] assms(2,3) by (auto elim: wp_weaken)

theorem offline_host_is_silent_witness:
  "sent (snd (server_Handle ''DELETE /network'' (NewLeaveNetworkRequestHandler (leaveNetwork demo)) (demo_request '''') (NewWorld 8080 8081 []))) = []"
proof -
  have "(''DELETE /network'', NewLeaveNetworkRequestHandler (leaveNetwork demo)) \<in> set (routes demo)"
    by (simp add: routes_def)
  from offline_host_is_silent [OF this, of "NewWorld 8080 8081 []" "demo_request ''''"] show ?thesis
    by (simp add: wp_iff NewWorld_def NewUdpServer_def)
qed

text \<open>
  C28. The request \<open>POST /shutdown\<close> is answered with 200; it forgets all peers and all messages, keeps the
  devices and sends nothing, and cancels the main context, so that the process can end, which closes the
  socket and shuts the server of the API down.
\<close>

theorem shutdown_request:
  "wp (server_Handle ''POST /shutdown'' (NewShutdownRequestHandler (shutdownHandler E)) req)
    (\<lambda>r w'. \<exists>res. r = Ok res \<and> response_status res = 200 \<and> known_peer (peer_cache w') = Map.empty \<and>
      (\<forall>m p. deadline (message_cache w') m p = None) \<and> disk w' = disk w \<and> sent w' = sent w \<and> cancelled w' \<and>
      (\<exists>u. process_step E (Running w') (Ended u) \<and> connection (udp u) = None \<and> serverState (api u) = ShutDown)) w"
proof -
  have "\<exists>u. process_step E (Running v) (Ended u) \<and> connection (udp u) = None \<and> serverState (api u) = ShutDown" if "cancelled v" for v
  proof -
    obtain r u where stop: "stopServers E v = (r, u)" by (cases "stopServers E v")
    have "connection (udp u) = None \<and> serverState (api u) = ShutDown"
      using wpD [OF stopServers_wp stop] by simp
    then show ?thesis using process_step.finish [OF that stop] by blast
  qed
  then show ?thesis
    by (simp add: wp_def server_Handle_def NewShutdownRequestHandler_def shutdownHandler_def NewShutdownUseCase_def
        act_simps peers_Reset_def cache_Reset_def on_peers_def on_cache_def context_cancel_def modify_def status_def)
qed

section \<open>When the store cannot be opened\<close>

text \<open>
  C39. A sync event overwrites what it should not when the store cannot be opened for its two checks: an
  error of the check of the owner counts as "not the owner", an error of the check of the version as
  "newer". When the store opens again for the write, the event's device replaces the stored one,
  also one that this host owns or that has a later version.
\<close>

theorem locked_store_overwrites:
  assumes w: "world_ok E h w" and new: "\<not> seen E i w" and id: "dev_id c \<noteq> ZeroId"
    and locked: "\<forall>d. Open (badger_db E) (moment w + 5) d \<noteq> None" "\<forall>d. Open (badger_db E) (moment w + 6) d \<noteq> None"
    and free: "\<forall>v. moment v = moment w + 7 \<longrightarrow> fst (devicePersister E c v) = Ok ()"
  shows "wp (receivedMessageHandler E a (datagram (NewMessage i s MessageTypeEventSync (syncPayload c))))
    (\<lambda>r w'. r = Ok () \<and> devices_of E w' = (devices_of E w)(dev_id c \<mapsto> c)) w"
    (is "wp (receivedMessageHandler E a (datagram ?m)) ?Q w")
proof (rule receive_new_by_type [OF w new])
  fix v assume v: "world_ok E h v" "handled_in E ?m w v"
  have m: "NewSyncMessageReader ?m = Ok c" by (rule sync.decode_sent)
  have t: "moment v = moment w + 4" using v(2) by (simp add: handled_in_def)
  have same: "devices_of E v = devices_of E w" using v(2) by (intro devices_of_disk) (simp add: handled_in_def)
  have "wp (updateDeviceUseCase E a ?m) (\<lambda>r w'. r = Ok () \<and> devices_of E w' = save_devices c (devices_of E v)) v"
    by (rule updateDevice_locked [OF v(1) m]) (use t locked free in \<open>simp_all add: eval_nat_numeral\<close>)
  then show "wp (dispatch_packet E a ?m) ?Q v"
    unfolding dispatch_by_type by (rule wp_weaken) (use same id in \<open>simp add: save_devices_def\<close>)
qed

text \<open>The host's own lamp, at version 7, is replaced by what another host says it is, at version 3.\<close>

theorem locked_store_overwrites_witness:
  "devices_of (demo_locked 8) (snd (receivedMessageHandler (demo_locked 8) ''10.0.0.2:80''
     (datagram (NewMessage (small_id 9) (small_id 2) MessageTypeEventSync
       (syncPayload (NewDevice (small_id 1) (small_id 2) 1 1 3))))
     (demo_with (NewDevice (small_id 1) demo_host 1 0 7)))) (small_id 1) =
   Some (NewDevice (small_id 1) (small_id 2) 1 1 3)"
proof -
  let ?d = "NewDevice (small_id 1) demo_host 1 0 7" and ?c = "NewDevice (small_id 1) (small_id 2) 1 1 3"
  have at: "moment (demo_with ?d) = 1"
    by (simp add: demo_with_def devicePersister_def NewCreateDeviceDataAdapter_def db_Set_def on_disk_def case_prod_unfold
        demo_world_def NewWorld_def)
  have "Open (badger_db (demo_locked 8)) t d \<noteq> None" if "t < 8" for t d using that by (simp add: demo_locked_def)
  then show ?thesis
    using locked_store_overwrites [where E = "demo_locked 8" and h = demo_host and w = "demo_with ?d" and i = "small_id 9"
        and a = "''10.0.0.2:80''" and s = "small_id 2" and c = ?c] demo_locked_persists [of 8]
      steady_okD(2) [OF demo_with(1) [of ?d]] demo_unseen(2)
    by (simp add: demo_locked at wp_iff)
qed

section \<open>Joining and leaving the network\<close>

text \<open>
  C19. The request \<open>POST /network\<close> is answered with 202. It opens the socket, unless it is open or cannot
  be opened, and keeps devices and peers. When the hail cannot be made, nothing is sent. Otherwise at
  most five different known peers are chosen, as many as there are if the message is new to them, and
  each is sent the hail and the sync events of the stored devices, one for each, of all that can be read;
  nothing else is sent, nothing at all on a closed socket, and everything when the network takes it.
\<close>

theorem join_request:
  assumes w: "steady_ok E h w"
  shows "wp (server_Handle ''POST /network'' (NewJoinNetworkRequestHandler (joinNetwork E)) req)
    (\<lambda>r w'. \<exists>res. r = Ok res \<and> response_status res = 202 \<and> disk w' = disk w \<and> peer_cache w' = peer_cache w \<and>
      connection (udp w') = (case connection (udp w) of Some c \<Rightarrow> Some c
        | None \<Rightarrow> (case ListenPacket E (moment w) of Inr c \<Rightarrow> Some c | Inl err \<Rightarrow> None)) \<and>
      (sent w' = sent w \<and> \<not> able E \<or>
       (\<exists>i ps ms ds qms. invites E w i ps ms ds \<and>
          subseq qms (List.product ps (NewMessage i h MessageTypeCommandHail [] # ms)) \<and>
          sent w' = sent w @ map mail qms \<and> (connection (udp w') = None \<longrightarrow> qms = []) \<and>
          (reaches E \<and> connection (udp w') \<noteq> None \<longrightarrow>
             qms = List.product ps (NewMessage i h MessageTypeCommandHail [] # ms))))) w"
    (is "wp _ ?Q w")
proof -
  obtain r v where v: "udp_Observe E w = (r, v)" and opened: "r \<noteq> Panic" "v = w\<lparr>udp := udp v, moment := Suc (moment w)\<rparr>"
      "connection (udp v) = (case connection (udp w) of Some c \<Rightarrow> Some c
        | None \<Rightarrow> (case ListenPacket E (moment w) of Inr c \<Rightarrow> Some c | Inl err \<Rightarrow> None))"
    by (cases "udp_Observe E w")
      (auto simp: udp_Observe_def on_udp_def udpServer_Observe_def split: option.splits sum.splits if_splits)
  have same: "disk v = disk w" "peer_cache v = peer_cache w" "message_cache v = message_cache w" "sent v = sent w"
    by (subst opened(2), simp)+
  have st: "steady_ok E h v" using w by (subst opened(2)) (simp add: steady_ok_def)
  have inv: "invites E v = invites E w"
    using devices_of_disk [OF same(1), of E] same by (intro ext) (simp add: invites_def)
  have stays: "wp (sendHailMessage E) (\<lambda>_ w'. disk w' = disk v \<and> peer_cache w' = peer_cache v \<and> udp w' = udp v) v"
    using withinD [OF disk.greetings_in(1)] withinD [OF known.greetings_in(1)] withinD [OF socket.greetings_in(1)]
    by (intro wpI) (fastforce)
  have "ignore (udp_Observe E) w = (Ok (), v)" using v opened(1) by (cases r) (simp_all add: act_simps)
  then show ?thesis
    unfolding server_Handle_def NewJoinNetworkRequestHandler_def joinNetwork_def status_def wp_bind wp_if_err
      wp_iff [of "ignore (udp_Observe E)"]
    by (simp add: wp_simps, intro wp_weaken [OF wp_both_hold [OF hail_sends [OF st] stays]])
       (auto simp: same inv opened(3) split: result.split)
qed

theorem join_request_witness:
  "\<exists>i. sent (snd (server_Handle ''POST /network'' (NewJoinNetworkRequestHandler (joinNetwork demo)) (demo_request '''')
       (demo_among [NewPeer (small_id 2) ''10.0.0.2:80'']))) =
     [(''10.0.0.2:80'', datagram (NewMessage i demo_host MessageTypeCommandHail []))]"
proof -
  let ?p = "NewPeer (small_id 2) ''10.0.0.2:80''"
  let ?w = "demo_among [?p]"
  have one: "ps = [?p]" "ms = []" if inv: "invites demo ?w i ps ms ds" for i ps ms ds
  proof -
    have "length ps = 1" "set ps \<subseteq> {?p}" using inv demo_one_peer demo_among(4) by (simp_all add: invites_def)
    then show "ps = [?p]" by (cases ps) auto
    have "ds = []" using inv demo_among(3) by (cases ds) (auto simp: invites_def)
    then show "ms = []" using inv by (simp add: invites_def)
  qed
  show ?thesis
    using join_request [OF demo_among(1) [of "[?p]"], of "demo_request ''''"] demo_able demo_reaches one demo_among(5,6)
    by (fastforce simp: wp_iff)
qed

text \<open>
  C20. The request \<open>DELETE /network\<close> is answered with 202, closes the socket, and keeps devices and peers.
  Before that a farewell is sent, unless it cannot be made: to different known peers, to none on a closed
  socket, and to all of them when the message is new to them and the network takes it.
\<close>

theorem leave_request:
  assumes w: "world_ok E h w"
  shows "wp (server_Handle ''DELETE /network'' (NewLeaveNetworkRequestHandler (leaveNetwork E)) req)
    (\<lambda>r w'. \<exists>res. r = Ok res \<and> response_status res = 202 \<and> disk w' = disk w \<and> peer_cache w' = peer_cache w \<and>
      connection (udp w') = None \<and>
      (sent w' = sent w \<and> \<not> able E \<or>
       (\<exists>i qs. sent w' = sent w @ map (\<lambda>p. (peer_address p, datagram (NewMessage i h MessageTypeEventFarewell []))) qs \<and>
          distinct (map peer_id qs) \<and> set qs \<subseteq> ran (known_peer (peer_cache w)) \<and> (connection (udp w) = None \<longrightarrow> qs = []) \<and>
          (reaches E \<and> connection (udp w) \<noteq> None \<and> (\<forall>p. deadline (message_cache w) i p = None) \<and>
            int (length (peers (peer_cache w))) \<le> sint MaxInt \<longrightarrow> set qs = ran (known_peer (peer_cache w)))))) w"
    (is "wp _ ?Q w")
proof -
  have mono: "mono (clock E)" using world_okD(7) [OF w] by (simp add: env_ok_def)
  let ?told = "\<lambda>w'. sent w' = sent w \<and> \<not> able E \<or>
       (\<exists>i qs. sent w' = sent w @ map (\<lambda>p. (peer_address p, datagram (NewMessage i h MessageTypeEventFarewell []))) qs \<and>
          distinct (map peer_id qs) \<and> set qs \<subseteq> ran (known_peer (peer_cache w)) \<and> (connection (udp w) = None \<longrightarrow> qs = []) \<and>
          (reaches E \<and> connection (udp w) \<noteq> None \<and> (\<forall>p. deadline (message_cache w) i p = None) \<and>
            int (length (peers (peer_cache w))) \<le> sint MaxInt \<longrightarrow> set qs = ran (known_peer (peer_cache w))))"
  have told: "?told w'" if s: "spreads E i MaxInt (NewMessage i h MessageTypeEventFarewell []) w w'" for i w'
  proof -
    from spreads_recipients [OF s mono] obtain qs
      where qs: "sent w' = sent w @ map (\<lambda>p. (peer_address p, datagram (NewMessage i h MessageTypeEventFarewell []))) qs"
        "distinct (map peer_id qs)" "set qs \<subseteq> ran (known_peer (peer_cache w))" "connection (udp w) = None \<longrightarrow> qs = []"
      and many: "reaches E \<and> connection (udp w) \<noteq> None \<and>
          (\<forall>j. known_peer (peer_cache w) j \<noteq> None \<longrightarrow> deadline (message_cache w) i j = None) \<longrightarrow>
          length qs = min (nat (if sint MaxInt \<le> 0 then 5 else sint MaxInt)) (length (peers (peer_cache w)))"
      by (elim exE conjE) (rule that)
    have "set qs = ran (known_peer (peer_cache w))"
      if "reaches E \<and> connection (udp w) \<noteq> None \<and> (\<forall>p. deadline (message_cache w) i p = None) \<and>
        int (length (peers (peer_cache w))) \<le> sint MaxInt"
      by (rule all_known) (use qs(2,3) many that in \<open>auto simp: distinct_map MaxInt_def\<close>)
    with qs show ?thesis by (intro disjI2 exI conjI) auto
  qed
  have stop: "wp (udp_Stop E) (\<lambda>r u. r \<noteq> Panic \<and> disk u = disk v \<and> sent u = sent v \<and> peer_cache u = peer_cache v \<and>
      connection (udp u) = None) v" for v
    by (auto simp: wp_iff udp_Stop_def on_udp_def udpServer_Stop_def split: option.split)
  define told where "told w' \<longleftrightarrow> ?told w'" for w' :: "'a world"
  have told_eq: "told u \<longleftrightarrow> told v" if "sent u = sent v" for u v using that by (simp add: told_def)
  have "wp (sendFarewellMessage E) (\<lambda>r v. r \<noteq> Panic \<and> disk v = disk w \<and> peer_cache v = peer_cache w \<and> told v) w"
    unfolding told_def by (rule wp_weaken [OF farewell_sends [OF w]]) (use told in blast)
  then show ?thesis
    unfolding server_Handle_def NewLeaveNetworkRequestHandler_def leaveNetwork_def status_def wp_simps told_def [symmetric]
    by (rule wp_weaken)
      (auto simp: wp_simps intro!: wp_weaken [OF stop] split: result.split dest: told_eq [THEN iffD2, rotated])
qed

theorem leave_request_witness:
  "\<exists>i. sent (snd (server_Handle ''DELETE /network'' (NewLeaveNetworkRequestHandler (leaveNetwork demo)) (demo_request '''')
       (demo_among [NewPeer (small_id 2) ''10.0.0.2:80'']))) =
     [(''10.0.0.2:80'', datagram (NewMessage i demo_host MessageTypeEventFarewell []))]"
proof -
  let ?p = "NewPeer (small_id 2) ''10.0.0.2:80''"
  let ?w = "demo_among [?p]"
  have one: "qs = [?p]" if "distinct (map peer_id qs)" "set qs = {?p}" for qs
  proof -
    have "length qs = 1" using that distinct_card [of qs] by (simp add: distinct_map)
    then show ?thesis using that(2) by (cases qs) auto
  qed
  show ?thesis
    using leave_request [OF steady_okD(2) [OF demo_among(1) [of "[?p]"]], of "demo_request ''''"]
      demo_able demo_reaches one demo_among(4-6) demo_one_peer by (fastforce simp: wp_iff MaxInt_def)
qed

end
